(* ===== verification/Xdma_Prelude.thy ===== *)
theory Xdma_Prelude
  imports Main "HOL-Library.Word"
begin

unbundle bit_operations_syntax

text \<open>
  Shared vocabulary of the development: the C integer types, the kernel's error numbers,
  the log of memory-mapped register accesses, and the generic facts on lists and words
  that the component theories use.

  Conventions.
  \<^item> A C value of a fixed width is a word of that width. C's \<open>int\<close> fields that the driver
    only counts with are read as 32-bit words too; where the sign matters (return codes)
    a value is an \<open>int\<close>.
  \<^item> A device register lives at a bus address (a natural number). What a read returns is
    decided by the hardware, which is not part of the program: it is a function from the
    whole history of accesses and the address to the value, so two reads of one register
    may differ, and a read may have side effects such as clear-on-read.
\<close>

type_synonym u8 = "8 word"
type_synonym u16 = "16 word"
type_synonym u32 = "32 word"
type_synonym u64 = "64 word"

named_theorems xdma_const \<open>values of the driver's numeric constants\<close>
named_theorems xdma_frame \<open>what an operation leaves alone\<close>

subsection \<open>Error numbers\<close>

definition EIO :: int where [xdma_const]: "EIO = 5"
definition ENOMEM :: int where [xdma_const]: "ENOMEM = 12"
definition EFAULT :: int where [xdma_const]: "EFAULT = 14"
definition EBUSY :: int where [xdma_const]: "EBUSY = 16"
definition EINVAL :: int where [xdma_const]: "EINVAL = 22"
definition ERESTARTSYS :: int where [xdma_const]: "ERESTARTSYS = 512"
definition EIOCBQUEUED :: int where [xdma_const]: "EIOCBQUEUED = 529"

subsection \<open>Register accesses\<close>

datatype io_event = IoWrite nat u32 | IoRead nat

type_synonym io_log = "io_event list"
type_synonym hardware = "io_log \<Rightarrow> nat \<Rightarrow> u32"

text \<open>The values written to one register, oldest first.\<close>

fun writes_to :: "nat \<Rightarrow> io_log \<Rightarrow> u32 list" where
  "writes_to a [] = []"
| "writes_to a (IoWrite b v # l) = (if a = b then v # writes_to a l else writes_to a l)"
| "writes_to a (IoRead b # l) = writes_to a l"

lemma writes_to_append [simp]: "writes_to a (l @ m) = writes_to a l @ writes_to a m"
  by (induction a l rule: writes_to.induct) auto

subsection \<open>Formatted output\<close>

text \<open>
  The conversions of \<open>snprintf\<close> the driver uses, and its truncation to the buffer (the last
  byte of which is the terminating zero).
\<close>

fun dec_nat :: "nat \<Rightarrow> string" where
  "dec_nat n = (if n < 10 then [char_of (48 + n)] else dec_nat (n div 10) @ [char_of (48 + n mod 10)])"

declare dec_nat.simps [simp del]

definition dec_int :: "int \<Rightarrow> string" where
  "dec_int i = (if i < 0 then ''-'' @ dec_nat (nat (- i)) else dec_nat (nat i))"

definition snprintf :: "nat \<Rightarrow> string \<Rightarrow> string" where
  "snprintf n str = take (n - 1) str"

subsection \<open>Lists\<close>

lemma list_update_range_nth:
  "i < length xs \<Longrightarrow> (xs[j := y]) ! i = (if i = j then y else xs ! i)"
  by simp

lemma sum_list_take_drop:
  fixes f :: "'a \<Rightarrow> 'b::comm_monoid_add"
  shows "sum_list (map f (take n xs)) + sum_list (map f (drop n xs)) = sum_list (map f xs)"
proof -
  have "sum_list (map f xs) = sum_list (map f (take n xs @ drop n xs))" by simp
  also have "\<dots> = sum_list (map f (take n xs)) + sum_list (map f (drop n xs))"
    by (simp only: map_append sum_list_append)
  finally show ?thesis by simp
qed

lemma map_const_on:
  "(\<And>x. x \<in> set xs \<Longrightarrow> f x = c) \<Longrightarrow> length xs = k \<Longrightarrow> map f xs = replicate k c"
  by (induction xs arbitrary: k) auto

lemma tl_suffix_length: "xs \<noteq> [] \<Longrightarrow> length (tl xs) < length xs"
  by (cases xs) auto

lemma take_update_beyond: "n \<le> j \<Longrightarrow> take n (xs[j := y]) = take n xs"
  by (simp add: take_update_swap list_update_beyond)

lemma triple_collapse: "p = (fst p, fst (snd p), snd (snd p))"
  by simp

lemma pair_collapse: "p = (fst p, snd p)"
  by simp

subsection \<open>Words\<close>

lemma unat_add_small:
  fixes a b :: "'a::len word"
  shows "unat a + unat b < 2 ^ LENGTH('a) \<Longrightarrow> unat (a + b) = unat a + unat b"
  by (simp add: unat_word_ariths)

lemma unat_of_nat_small: "n < 2 ^ LENGTH('a) \<Longrightarrow> unat (of_nat n :: 'a::len word) = n"
  by (simp add: unat_of_nat)

lemma unat_bound: "unat (w :: 'a::len word) < 2 ^ LENGTH('a)"
  by (rule unsigned_less)

lemma word_less_unat: "(a < b) = (unat a < unat (b :: 'a::len word))"
  by (rule word_less_nat_alt)

lemma word_and_bit_eq_zero:
  "(x AND y = 0) \<longleftrightarrow> (\<forall>n. bit x n \<longrightarrow> \<not> bit (y :: 'a::len word) n)"
  by (auto simp: bit_eq_iff bit_simps dest: bit_imp_le_length)

lemma word_or_and_absorb: "(x OR y) AND y = (y :: 'a::len word)"
  by (auto simp: bit_eq_iff bit_simps)

lemma word_and_not_and: "(x AND NOT y) AND y = (0 :: 'a::len word)"
  by (auto simp: bit_eq_iff bit_simps)

end
