(* ===== verification/Xdma_Regs.thy ===== *)
theory Xdma_Regs
  imports Xdma_Prelude
begin

text \<open>
  The register map of the XDMA core (src/src/libxdma.h): numeric constants, the packed
  register structures with their field offsets, and the helpers of src/src/libxdma.c that
  split and join words.
\<close>

subsection \<open>Constants of libxdma.h\<close>

definition XDMA_BAR_NUM :: nat where [xdma_const]: "XDMA_BAR_NUM = 6"
definition XDMA_BAR_SIZE :: nat where [xdma_const]: "XDMA_BAR_SIZE = 0x8000"
definition NUM_POLLS_PER_SCHED :: nat where [xdma_const]: "NUM_POLLS_PER_SCHED = 100"
definition XDMA_CHANNEL_NUM_MAX :: nat where [xdma_const]: "XDMA_CHANNEL_NUM_MAX = 4"
definition XDMA_ENG_IRQ_NUM :: nat where [xdma_const]: "XDMA_ENG_IRQ_NUM = 1"
definition XDMA_MAX_ADJ_BLOCK_SIZE :: u32 where [xdma_const]: "XDMA_MAX_ADJ_BLOCK_SIZE = 0x40"
definition XDMA_PAGE_SIZE :: u32 where [xdma_const]: "XDMA_PAGE_SIZE = 0x1000"
definition RX_STATUS_EOP :: u32 where [xdma_const]: "RX_STATUS_EOP = 1"
definition XDMA_OFS_INT_CTRL :: nat where [xdma_const]: "XDMA_OFS_INT_CTRL = 0x2000"
definition XDMA_OFS_CONFIG :: nat where [xdma_const]: "XDMA_OFS_CONFIG = 0x3000"
definition XDMA_ENGINE_XFER_MAX_DESC :: u32 where
  [xdma_const]: "XDMA_ENGINE_XFER_MAX_DESC = 0x800"
definition XDMA_ENGINE_CREDIT_XFER_MAX_DESC :: u32 where
  [xdma_const]: "XDMA_ENGINE_CREDIT_XFER_MAX_DESC = 0x3FF"
definition XDMA_DESC_BLEN_BITS :: nat where [xdma_const]: "XDMA_DESC_BLEN_BITS = 28"
definition XDMA_DESC_BLEN_MAX :: u32 where
  "XDMA_DESC_BLEN_MAX = push_bit XDMA_DESC_BLEN_BITS 1 - 1"

text \<open>Bits of the SG DMA control register.\<close>

definition XDMA_CTRL_RUN_STOP :: u32 where [xdma_const]: "XDMA_CTRL_RUN_STOP = push_bit 0 1"
definition XDMA_CTRL_IE_DESC_STOPPED :: u32 where
  [xdma_const]: "XDMA_CTRL_IE_DESC_STOPPED = push_bit 1 1"
definition XDMA_CTRL_IE_DESC_COMPLETED :: u32 where
  [xdma_const]: "XDMA_CTRL_IE_DESC_COMPLETED = push_bit 2 1"
definition XDMA_CTRL_IE_DESC_ALIGN_MISMATCH :: u32 where
  [xdma_const]: "XDMA_CTRL_IE_DESC_ALIGN_MISMATCH = push_bit 3 1"
definition XDMA_CTRL_IE_MAGIC_STOPPED :: u32 where
  [xdma_const]: "XDMA_CTRL_IE_MAGIC_STOPPED = push_bit 4 1"
definition XDMA_CTRL_IE_IDLE_STOPPED :: u32 where
  [xdma_const]: "XDMA_CTRL_IE_IDLE_STOPPED = push_bit 6 1"
definition XDMA_CTRL_IE_READ_ERROR :: u32 where
  [xdma_const]: "XDMA_CTRL_IE_READ_ERROR = push_bit 9 0x1F"
definition XDMA_CTRL_IE_DESC_ERROR :: u32 where
  [xdma_const]: "XDMA_CTRL_IE_DESC_ERROR = push_bit 19 0x1F"
definition XDMA_CTRL_NON_INCR_ADDR :: u32 where
  [xdma_const]: "XDMA_CTRL_NON_INCR_ADDR = push_bit 25 1"
definition XDMA_CTRL_POLL_MODE_WB :: u32 where
  [xdma_const]: "XDMA_CTRL_POLL_MODE_WB = push_bit 26 1"

text \<open>Bits of the SG DMA status register.\<close>

definition XDMA_STAT_BUSY :: u32 where [xdma_const]: "XDMA_STAT_BUSY = push_bit 0 1"
definition XDMA_STAT_DESC_STOPPED :: u32 where
  [xdma_const]: "XDMA_STAT_DESC_STOPPED = push_bit 1 1"
definition XDMA_STAT_DESC_COMPLETED :: u32 where
  [xdma_const]: "XDMA_STAT_DESC_COMPLETED = push_bit 2 1"
definition XDMA_STAT_ALIGN_MISMATCH :: u32 where
  [xdma_const]: "XDMA_STAT_ALIGN_MISMATCH = push_bit 3 1"
definition XDMA_STAT_MAGIC_STOPPED :: u32 where
  [xdma_const]: "XDMA_STAT_MAGIC_STOPPED = push_bit 4 1"
definition XDMA_STAT_INVALID_LEN :: u32 where
  [xdma_const]: "XDMA_STAT_INVALID_LEN = push_bit 5 1"
definition XDMA_STAT_IDLE_STOPPED :: u32 where
  [xdma_const]: "XDMA_STAT_IDLE_STOPPED = push_bit 6 1"
definition XDMA_STAT_COMMON_ERR_MASK :: u32 where
  [xdma_const]: "XDMA_STAT_COMMON_ERR_MASK =
     (XDMA_STAT_ALIGN_MISMATCH OR XDMA_STAT_MAGIC_STOPPED OR XDMA_STAT_INVALID_LEN)"
definition XDMA_STAT_DESC_UNSUPP_REQ :: u32 where
  [xdma_const]: "XDMA_STAT_DESC_UNSUPP_REQ = push_bit 19 1"
definition XDMA_STAT_DESC_COMPL_ABORT :: u32 where
  [xdma_const]: "XDMA_STAT_DESC_COMPL_ABORT = push_bit 20 1"
definition XDMA_STAT_DESC_PARITY_ERR :: u32 where
  [xdma_const]: "XDMA_STAT_DESC_PARITY_ERR = push_bit 21 1"
definition XDMA_STAT_DESC_HEADER_EP :: u32 where
  [xdma_const]: "XDMA_STAT_DESC_HEADER_EP = push_bit 22 1"
definition XDMA_STAT_DESC_UNEXP_COMPL :: u32 where
  [xdma_const]: "XDMA_STAT_DESC_UNEXP_COMPL = push_bit 23 1"
definition XDMA_STAT_DESC_ERR_MASK :: u32 where
  [xdma_const]: "XDMA_STAT_DESC_ERR_MASK =
     (XDMA_STAT_DESC_UNSUPP_REQ OR XDMA_STAT_DESC_COMPL_ABORT OR
      XDMA_STAT_DESC_PARITY_ERR OR XDMA_STAT_DESC_HEADER_EP OR
      XDMA_STAT_DESC_UNEXP_COMPL)"
definition XDMA_STAT_H2C_R_UNSUPP_REQ :: u32 where
  [xdma_const]: "XDMA_STAT_H2C_R_UNSUPP_REQ = push_bit 9 1"
definition XDMA_STAT_H2C_R_COMPL_ABORT :: u32 where
  [xdma_const]: "XDMA_STAT_H2C_R_COMPL_ABORT = push_bit 10 1"
definition XDMA_STAT_H2C_R_PARITY_ERR :: u32 where
  [xdma_const]: "XDMA_STAT_H2C_R_PARITY_ERR = push_bit 11 1"
definition XDMA_STAT_H2C_R_HEADER_EP :: u32 where
  [xdma_const]: "XDMA_STAT_H2C_R_HEADER_EP = push_bit 12 1"
definition XDMA_STAT_H2C_R_UNEXP_COMPL :: u32 where
  [xdma_const]: "XDMA_STAT_H2C_R_UNEXP_COMPL = push_bit 13 1"
definition XDMA_STAT_H2C_R_ERR_MASK :: u32 where
  [xdma_const]: "XDMA_STAT_H2C_R_ERR_MASK =
     (XDMA_STAT_H2C_R_UNSUPP_REQ OR XDMA_STAT_H2C_R_COMPL_ABORT OR
      XDMA_STAT_H2C_R_PARITY_ERR OR XDMA_STAT_H2C_R_HEADER_EP OR
      XDMA_STAT_H2C_R_UNEXP_COMPL)"
definition XDMA_STAT_H2C_W_DECODE_ERR :: u32 where
  [xdma_const]: "XDMA_STAT_H2C_W_DECODE_ERR = push_bit 14 1"
definition XDMA_STAT_H2C_W_SLAVE_ERR :: u32 where
  [xdma_const]: "XDMA_STAT_H2C_W_SLAVE_ERR = push_bit 15 1"
definition XDMA_STAT_H2C_W_ERR_MASK :: u32 where
  [xdma_const]: "XDMA_STAT_H2C_W_ERR_MASK =
     (XDMA_STAT_H2C_W_DECODE_ERR OR XDMA_STAT_H2C_W_SLAVE_ERR)"
definition XDMA_STAT_C2H_R_DECODE_ERR :: u32 where
  [xdma_const]: "XDMA_STAT_C2H_R_DECODE_ERR = push_bit 9 1"
definition XDMA_STAT_C2H_R_SLAVE_ERR :: u32 where
  [xdma_const]: "XDMA_STAT_C2H_R_SLAVE_ERR = push_bit 10 1"
definition XDMA_STAT_C2H_R_ERR_MASK :: u32 where
  [xdma_const]: "XDMA_STAT_C2H_R_ERR_MASK =
     (XDMA_STAT_C2H_R_DECODE_ERR OR XDMA_STAT_C2H_R_SLAVE_ERR)"
definition XDMA_STAT_H2C_ERR_MASK :: u32 where
  [xdma_const]: "XDMA_STAT_H2C_ERR_MASK =
     (XDMA_STAT_COMMON_ERR_MASK OR XDMA_STAT_DESC_ERR_MASK OR
      XDMA_STAT_H2C_R_ERR_MASK OR XDMA_STAT_H2C_W_ERR_MASK)"
definition XDMA_STAT_C2H_ERR_MASK :: u32 where
  [xdma_const]: "XDMA_STAT_C2H_ERR_MASK =
     (XDMA_STAT_COMMON_ERR_MASK OR XDMA_STAT_DESC_ERR_MASK OR XDMA_STAT_C2H_R_ERR_MASK)"

text \<open>Descriptor control bits, identifiers and masks.\<close>

definition XDMA_DESC_STOPPED :: u32 where [xdma_const]: "XDMA_DESC_STOPPED = push_bit 0 1"
definition XDMA_DESC_COMPLETED :: u32 where [xdma_const]: "XDMA_DESC_COMPLETED = push_bit 1 1"
definition XDMA_DESC_EOP :: u32 where [xdma_const]: "XDMA_DESC_EOP = push_bit 4 1"
definition XDMA_PERF_RUN :: u32 where [xdma_const]: "XDMA_PERF_RUN = push_bit 0 1"
definition XDMA_PERF_CLEAR :: u32 where [xdma_const]: "XDMA_PERF_CLEAR = push_bit 1 1"
definition XDMA_PERF_AUTO :: u32 where [xdma_const]: "XDMA_PERF_AUTO = push_bit 2 1"
definition MAGIC_ENGINE :: u64 where [xdma_const]: "MAGIC_ENGINE = 0xEEEEEEEE"
definition MAGIC_DEVICE :: u64 where [xdma_const]: "MAGIC_DEVICE = 0xDDDDDDDD"
definition XDMA_ID_H2C :: u32 where [xdma_const]: "XDMA_ID_H2C = 0x1fc0"
definition XDMA_ID_C2H :: u32 where [xdma_const]: "XDMA_ID_C2H = 0x1fc1"
definition LS_BYTE_MASK :: u32 where [xdma_const]: "LS_BYTE_MASK = 0xFF"
definition BLOCK_ID_MASK :: u32 where [xdma_const]: "BLOCK_ID_MASK = 0xFFF00000"
definition BLOCK_ID_HEAD :: u32 where [xdma_const]: "BLOCK_ID_HEAD = 0x1FC00000"
definition IRQ_BLOCK_ID :: u32 where [xdma_const]: "IRQ_BLOCK_ID = 0x1fc20000"
definition CONFIG_BLOCK_ID :: u32 where [xdma_const]: "CONFIG_BLOCK_ID = 0x1fc30000"
definition WB_COUNT_MASK :: u32 where [xdma_const]: "WB_COUNT_MASK = 0x00ffffff"
definition WB_ERR_MASK :: u32 where [xdma_const]: "WB_ERR_MASK = push_bit 31 1"
definition POLL_TIMEOUT_SECONDS :: nat where [xdma_const]: "POLL_TIMEOUT_SECONDS = 10"
definition MAX_USER_IRQ :: nat where [xdma_const]: "MAX_USER_IRQ = 16"
definition DESC_MAGIC :: u32 where [xdma_const]: "DESC_MAGIC = 0xAD4B0000"
definition H2C_CHANNEL_OFFSET :: nat where [xdma_const]: "H2C_CHANNEL_OFFSET = 0x1000"
definition SGDMA_OFFSET_FROM_CHANNEL :: nat where
  [xdma_const]: "SGDMA_OFFSET_FROM_CHANNEL = 0x4000"
definition CHANNEL_SPACING :: nat where [xdma_const]: "CHANNEL_SPACING = 0x100"
definition TARGET_SPACING :: nat where [xdma_const]: "TARGET_SPACING = 0x1000"
definition BYPASS_MODE_SPACING :: u32 where [xdma_const]: "BYPASS_MODE_SPACING = 0x0100"

lemma XDMA_DESC_BLEN_MAX_val [xdma_const]: "XDMA_DESC_BLEN_MAX = 0x0FFFFFFF"
  by (simp add: XDMA_DESC_BLEN_MAX_def XDMA_DESC_BLEN_BITS_def)

subsection \<open>Register structures\<close>

text \<open>
  A packed structure of 32-bit registers is the list of its fields with their length in
  words, in source order; the offset of a field is the size of what precedes it.
\<close>

type_synonym layout = "(string \<times> nat) list"

fun offsetof :: "layout \<Rightarrow> string \<Rightarrow> nat" where
  "offsetof [] f = 0"
| "offsetof ((g, n) # l) f = (if f = g then 0 else 4 * n + offsetof l f)"

definition sizeof_layout :: "layout \<Rightarrow> nat" where
  "sizeof_layout l = 4 * sum_list (map snd l)"

definition config_regs :: layout where
  "config_regs = [(''identifier'', 1), (''reserved_1'', 4), (''msi_enable'', 1)]"

definition engine_regs :: layout where
  "engine_regs = [(''identifier'', 1), (''control'', 1), (''control_w1s'', 1),
     (''control_w1c'', 1), (''reserved_1'', 12),
     (''status'', 1), (''status_rc'', 1), (''completed_desc_count'', 1),
     (''alignments'', 1), (''reserved_2'', 14),
     (''poll_mode_wb_lo'', 1), (''poll_mode_wb_hi'', 1), (''interrupt_enable_mask'', 1),
     (''interrupt_enable_mask_w1s'', 1), (''interrupt_enable_mask_w1c'', 1),
     (''reserved_3'', 9),
     (''perf_ctrl'', 1), (''perf_cyc_lo'', 1), (''perf_cyc_hi'', 1), (''perf_dat_lo'', 1),
     (''perf_dat_hi'', 1), (''perf_pnd_lo'', 1), (''perf_pnd_hi'', 1)]"

definition engine_sgdma_regs :: layout where
  "engine_sgdma_regs = [(''identifier'', 1), (''reserved_1'', 31), (''first_desc_lo'', 1),
     (''first_desc_hi'', 1), (''first_desc_adjacent'', 1), (''credits'', 1)]"

definition interrupt_regs :: layout where
  "interrupt_regs = [(''identifier'', 1), (''user_int_enable'', 1),
     (''user_int_enable_w1s'', 1), (''user_int_enable_w1c'', 1),
     (''channel_int_enable'', 1), (''channel_int_enable_w1s'', 1),
     (''channel_int_enable_w1c'', 1), (''reserved_1'', 9),
     (''user_int_request'', 1), (''channel_int_request'', 1), (''user_int_pending'', 1),
     (''channel_int_pending'', 1), (''reserved_2'', 12),
     (''user_msi_vector'', 8), (''channel_msi_vector'', 8)]"

definition sgdma_common_regs :: layout where
  "sgdma_common_regs = [(''padding'', 8), (''credit_mode_enable'', 1),
     (''credit_mode_enable_w1s'', 1), (''credit_mode_enable_w1c'', 1)]"

text \<open>The offsets the driver uses, computed from the structures.\<close>

definition er_identifier :: nat where "er_identifier = offsetof engine_regs ''identifier''"
definition er_control :: nat where "er_control = offsetof engine_regs ''control''"
definition er_control_w1s :: nat where "er_control_w1s = offsetof engine_regs ''control_w1s''"
definition er_control_w1c :: nat where "er_control_w1c = offsetof engine_regs ''control_w1c''"
definition er_status :: nat where "er_status = offsetof engine_regs ''status''"
definition er_status_rc :: nat where "er_status_rc = offsetof engine_regs ''status_rc''"
definition er_completed_desc_count :: nat where
  "er_completed_desc_count = offsetof engine_regs ''completed_desc_count''"
definition er_alignments :: nat where "er_alignments = offsetof engine_regs ''alignments''"
definition er_poll_mode_wb_lo :: nat where
  "er_poll_mode_wb_lo = offsetof engine_regs ''poll_mode_wb_lo''"
definition er_poll_mode_wb_hi :: nat where
  "er_poll_mode_wb_hi = offsetof engine_regs ''poll_mode_wb_hi''"
definition er_interrupt_enable_mask :: nat where
  "er_interrupt_enable_mask = offsetof engine_regs ''interrupt_enable_mask''"
definition er_interrupt_enable_mask_w1s :: nat where
  "er_interrupt_enable_mask_w1s = offsetof engine_regs ''interrupt_enable_mask_w1s''"
definition er_interrupt_enable_mask_w1c :: nat where
  "er_interrupt_enable_mask_w1c = offsetof engine_regs ''interrupt_enable_mask_w1c''"
definition er_perf_ctrl :: nat where "er_perf_ctrl = offsetof engine_regs ''perf_ctrl''"
definition sg_first_desc_lo :: nat where
  "sg_first_desc_lo = offsetof engine_sgdma_regs ''first_desc_lo''"
definition sg_first_desc_hi :: nat where
  "sg_first_desc_hi = offsetof engine_sgdma_regs ''first_desc_hi''"
definition sg_first_desc_adjacent :: nat where
  "sg_first_desc_adjacent = offsetof engine_sgdma_regs ''first_desc_adjacent''"
definition sg_credits :: nat where "sg_credits = offsetof engine_sgdma_regs ''credits''"
definition ir_identifier :: nat where "ir_identifier = offsetof interrupt_regs ''identifier''"
definition ir_user_int_enable :: nat where
  "ir_user_int_enable = offsetof interrupt_regs ''user_int_enable''"
definition ir_user_int_enable_w1s :: nat where
  "ir_user_int_enable_w1s = offsetof interrupt_regs ''user_int_enable_w1s''"
definition ir_user_int_enable_w1c :: nat where
  "ir_user_int_enable_w1c = offsetof interrupt_regs ''user_int_enable_w1c''"
definition ir_channel_int_enable :: nat where
  "ir_channel_int_enable = offsetof interrupt_regs ''channel_int_enable''"
definition ir_channel_int_enable_w1s :: nat where
  "ir_channel_int_enable_w1s = offsetof interrupt_regs ''channel_int_enable_w1s''"
definition ir_channel_int_enable_w1c :: nat where
  "ir_channel_int_enable_w1c = offsetof interrupt_regs ''channel_int_enable_w1c''"
definition ir_user_int_request :: nat where
  "ir_user_int_request = offsetof interrupt_regs ''user_int_request''"
definition ir_channel_int_request :: nat where
  "ir_channel_int_request = offsetof interrupt_regs ''channel_int_request''"
definition ir_user_int_pending :: nat where
  "ir_user_int_pending = offsetof interrupt_regs ''user_int_pending''"
definition ir_channel_int_pending :: nat where
  "ir_channel_int_pending = offsetof interrupt_regs ''channel_int_pending''"
definition ir_user_msi_vector :: nat where
  "ir_user_msi_vector = offsetof interrupt_regs ''user_msi_vector''"
definition ir_channel_msi_vector :: nat where
  "ir_channel_msi_vector = offsetof interrupt_regs ''channel_msi_vector''"
definition cc_credit_mode_enable_w1s :: nat where
  "cc_credit_mode_enable_w1s = offsetof sgdma_common_regs ''credit_mode_enable_w1s''"
definition cc_credit_mode_enable_w1c :: nat where
  "cc_credit_mode_enable_w1c = offsetof sgdma_common_regs ''credit_mode_enable_w1c''"

lemmas reg_offset_defs =
  er_identifier_def er_control_def er_control_w1s_def er_control_w1c_def er_status_def
  er_status_rc_def er_completed_desc_count_def er_alignments_def er_poll_mode_wb_lo_def
  er_poll_mode_wb_hi_def er_interrupt_enable_mask_def er_interrupt_enable_mask_w1s_def
  er_interrupt_enable_mask_w1c_def er_perf_ctrl_def sg_first_desc_lo_def
  sg_first_desc_hi_def sg_first_desc_adjacent_def sg_credits_def ir_identifier_def
  ir_user_int_enable_def ir_user_int_enable_w1s_def ir_user_int_enable_w1c_def
  ir_channel_int_enable_def ir_channel_int_enable_w1s_def ir_channel_int_enable_w1c_def
  ir_user_int_request_def ir_channel_int_request_def ir_user_int_pending_def
  ir_channel_int_pending_def ir_user_msi_vector_def ir_channel_msi_vector_def
  cc_credit_mode_enable_w1s_def cc_credit_mode_enable_w1c_def
  engine_regs_def engine_sgdma_regs_def interrupt_regs_def sgdma_common_regs_def

lemma engine_reg_offsets [simp]:
  "er_identifier = 0" "er_control = 4" "er_control_w1s = 8" "er_control_w1c = 12"
  "er_status = 0x40" "er_status_rc = 0x44" "er_completed_desc_count = 0x48"
  "er_alignments = 0x4C" "er_poll_mode_wb_lo = 0x88" "er_poll_mode_wb_hi = 0x8C"
  "er_interrupt_enable_mask = 0x90" "er_interrupt_enable_mask_w1s = 0x94"
  "er_interrupt_enable_mask_w1c = 0x98" "er_perf_ctrl = 0xC0"
  by (simp_all add: reg_offset_defs)

lemma sgdma_reg_offsets [simp]:
  "sg_first_desc_lo = 0x80" "sg_first_desc_hi = 0x84" "sg_first_desc_adjacent = 0x88"
  "sg_credits = 0x8C"
  "cc_credit_mode_enable_w1s = 0x24" "cc_credit_mode_enable_w1c = 0x28"
  by (simp_all add: reg_offset_defs)

lemma interrupt_reg_offsets [simp]:
  "ir_identifier = 0" "ir_user_int_enable = 4" "ir_user_int_enable_w1s = 8"
  "ir_user_int_enable_w1c = 12" "ir_channel_int_enable = 0x10"
  "ir_channel_int_enable_w1s = 0x14" "ir_channel_int_enable_w1c = 0x18"
  "ir_user_int_request = 0x40" "ir_channel_int_request = 0x44"
  "ir_user_int_pending = 0x48" "ir_channel_int_pending = 0x4C"
  "ir_user_msi_vector = 0x80" "ir_channel_msi_vector = 0xA0"
  by (simp_all add: reg_offset_defs)

subsection \<open>Splitting and joining words\<close>

text \<open>
  \<open>PCI_DMA_H\<close> and \<open>PCI_DMA_L\<close> are always stored through \<open>cpu_to_le32\<close>, which truncates
  to 32 bits and, on the little-endian x86 target, does nothing else.
\<close>

definition PCI_DMA_H :: "u64 \<Rightarrow> u32" where
  "PCI_DMA_H addr = ucast (drop_bit 16 (drop_bit 16 addr))"

definition PCI_DMA_L :: "u64 \<Rightarrow> u32" where
  "PCI_DMA_L addr = ucast (addr AND 0xffffffff)"

definition build_u32 :: "u32 \<Rightarrow> u32 \<Rightarrow> u32" where
  "build_u32 hi lo = (push_bit 16 (hi AND 0xFFFF) OR (lo AND 0xFFFF))"

definition build_u64 :: "u64 \<Rightarrow> u64 \<Rightarrow> u64" where
  "build_u64 hi lo = (push_bit 32 (hi AND 0xFFFFFFF) OR (lo AND 0xFFFFFFFF))"

text \<open>The 64-bit bus address the core reads back from a pair of 32-bit registers.\<close>

definition dma_join :: "u32 \<Rightarrow> u32 \<Rightarrow> u64" where
  "dma_join hi lo = (push_bit 32 (ucast hi) OR ucast lo)"

lemma PCI_DMA_L_ucast: "PCI_DMA_L a = ucast a"
proof -
  have "(a AND 0xffffffff) = take_bit 32 a"
    by (simp add: take_bit_eq_mask mask_numeral)
  then show ?thesis by (auto intro: bit_word_eqI simp: PCI_DMA_L_def bit_simps)
qed

lemma dma_join_PCI_DMA [simp]: "dma_join (PCI_DMA_H a) (PCI_DMA_L a) = a"
  unfolding dma_join_def PCI_DMA_H_def PCI_DMA_L_ucast
  by (rule bit_word_eqI) (auto simp: bit_simps)

lemma unat_PCI_DMA_L: "unat (PCI_DMA_L a) = unat a mod 2 ^ 32"
  by (simp add: PCI_DMA_L_ucast unsigned_ucast_eq take_bit_eq_mod)

lemma dma_join_0 [simp]: "dma_join 0 0 = 0"
  by (simp add: dma_join_def)

subsection \<open>Properties\<close>

text \<open>
  A 64-bit bus address survives being stored in a pair of 32-bit registers or
  descriptor fields, and every pair of 32-bit words is the split of the address the core
  joins from it.
\<close>

lemma dma_address_split_join:
  "dma_join (PCI_DMA_H a) (PCI_DMA_L a) = a \<and>
   PCI_DMA_H (dma_join hi lo) = hi \<and> PCI_DMA_L (dma_join hi lo) = lo"
proof -
  have "\<not> bit lo (32 + n)" for n by (rule notI, drule bit_imp_le_length) simp
  then show ?thesis
    unfolding dma_join_PCI_DMA
    by (auto simp: dma_join_def PCI_DMA_H_def PCI_DMA_L_ucast bit_simps intro!: bit_word_eqI)
qed

lemma mask_F: "(0xFFFF :: u32) = mask 16" "(0xFFFFFFF :: u64) = mask 28" "(0xFFFFFFFF :: u64) = mask 32"
  by (simp_all add: mask_numeral)

text \<open>
  \<open>build_u32\<close> puts the low halves of its arguments side by side. \<open>build_u64\<close> would do
  the same with words, but its mask for the high word has seven digits: the top four bits
  of the high word are lost, and only an address below \<open>2 ^ 60\<close> is rebuilt.
\<close>

lemma build_words:
  "build_u32 hi lo = push_bit 16 (take_bit 16 hi) OR take_bit 16 lo \<and>
   build_u64 (ucast (PCI_DMA_H a)) (ucast (PCI_DMA_L a)) = take_bit 60 a \<and>
   build_u64 0xF0000000 0 = 0"
proof (intro conjI)
  show "build_u32 hi lo = push_bit 16 (take_bit 16 hi) OR take_bit 16 lo"
    by (simp add: build_u32_def mask_F take_bit_eq_mask)
  show "build_u64 (ucast (PCI_DMA_H a)) (ucast (PCI_DMA_L a)) = take_bit 60 a"
    unfolding build_u64_def mask_F PCI_DMA_H_def PCI_DMA_L_ucast
    by (rule bit_word_eqI) (auto simp: bit_simps)
qed (simp add: build_u64_def)

end
