(* ===== verification/Xdma_Desc.thy ===== *)
theory Xdma_Desc
  imports Xdma_Regs
begin

text \<open>
  DMA descriptors (struct xdma_desc) and the functions of src/src/libxdma.c that fill,
  link and mark them. The descriptors of an engine lie in one array; a function that in C
  takes a pointer into it takes here the array and an index.
\<close>

subsection \<open>Data\<close>

record xdma_desc =
  control :: u32
  bytes :: u32
  src_addr_lo :: u32
  src_addr_hi :: u32
  dst_addr_lo :: u32
  dst_addr_hi :: u32
  next_lo :: u32
  next_hi :: u32

definition zero_desc :: xdma_desc where
  "zero_desc = \<lparr>control = 0, bytes = 0, src_addr_lo = 0, src_addr_hi = 0,
     dst_addr_lo = 0, dst_addr_hi = 0, next_lo = 0, next_hi = 0\<rparr>"

definition sizeof_xdma_desc :: nat where "sizeof_xdma_desc = 32"

text \<open>DMA directions, with the encoding's zero value for a cleared structure.\<close>

datatype dma_dir = DMA_BIDIRECTIONAL | DMA_TO_DEVICE | DMA_FROM_DEVICE

subsection \<open>Operations\<close>

definition xdma_get_next_adj :: "u32 \<Rightarrow> u32 \<Rightarrow> u32" where
  "xdma_get_next_adj remaining nlo =
     (if remaining \<le> 1 then 0
      else let next_index = drop_bit 5 (nlo AND (XDMA_PAGE_SIZE - 1)) mod XDMA_MAX_ADJ_BLOCK_SIZE
           in min (XDMA_MAX_ADJ_BLOCK_SIZE - next_index - 1) (remaining - 1))"

definition xdma_desc_adjacent :: "xdma_desc \<Rightarrow> u32 \<Rightarrow> xdma_desc" where
  "xdma_desc_adjacent desc next_adjacent =
     (let ctl = control desc AND 0x0000f0ff;
          ctl = ctl OR 0xAD4B0000 OR push_bit 8 next_adjacent
      in desc\<lparr>control := ctl\<rparr>)"

definition xdma_desc_control_set :: "xdma_desc \<Rightarrow> u32 \<Rightarrow> int \<times> xdma_desc" where
  "xdma_desc_control_set first control_field =
     (let ctl = control first AND NOT LS_BYTE_MASK
      in if control_field AND NOT LS_BYTE_MASK \<noteq> 0 then (- EINVAL, first)
         else (0, first\<lparr>control := ctl OR control_field\<rparr>))"

definition xdma_desc_set :: "xdma_desc \<Rightarrow> u64 \<Rightarrow> u64 \<Rightarrow> u32 \<Rightarrow> dma_dir \<Rightarrow> xdma_desc" where
  "xdma_desc_set desc rc_bus_addr ep_addr len dir =
     (let desc = desc\<lparr>bytes := len\<rparr>
      in if dir = DMA_TO_DEVICE
         then desc\<lparr>src_addr_lo := PCI_DMA_L rc_bus_addr, src_addr_hi := PCI_DMA_H rc_bus_addr,
                   dst_addr_lo := PCI_DMA_L ep_addr, dst_addr_hi := PCI_DMA_H ep_addr\<rparr>
         else desc\<lparr>src_addr_lo := PCI_DMA_L ep_addr, src_addr_hi := PCI_DMA_H ep_addr,
                   dst_addr_lo := PCI_DMA_L rc_bus_addr, dst_addr_hi := PCI_DMA_H rc_bus_addr\<rparr>)"

text \<open>\<open>transfer_desc_init\<close>: the loop over all but the last descriptor, then the last.\<close>

definition desc_link_body :: "u64 \<Rightarrow> xdma_desc \<Rightarrow> xdma_desc" where
  "desc_link_body bus d =
     d\<lparr>next_lo := PCI_DMA_L bus, next_hi := PCI_DMA_H bus, bytes := 0, control := DESC_MAGIC\<rparr>"

primrec desc_link_loop :: "nat \<Rightarrow> nat \<Rightarrow> u64 \<Rightarrow> xdma_desc list \<Rightarrow> xdma_desc list" where
  "desc_link_loop 0 i bus ds = ds"
| "desc_link_loop (Suc n) i bus ds =
     (let bus = bus + of_nat sizeof_xdma_desc
      in desc_link_loop n (Suc i) bus (ds[i := desc_link_body bus (ds ! i)]))"

definition transfer_desc_init :: "nat \<Rightarrow> u64 \<Rightarrow> nat \<Rightarrow> xdma_desc list \<Rightarrow> xdma_desc list" where
  "transfer_desc_init virt bus count ds =
     (let ds = desc_link_loop (count - 1) virt bus ds;
          i = virt + (count - 1)
      in ds[i := desc_link_body 0 (ds ! i)])"

text \<open>\<open>xdma_desc_done\<close>: clear \<open>count\<close> descriptors from index \<open>virt\<close>.\<close>

primrec xdma_desc_done :: "nat \<Rightarrow> nat \<Rightarrow> xdma_desc list \<Rightarrow> xdma_desc list" where
  "xdma_desc_done virt 0 ds = ds"
| "xdma_desc_done virt (Suc n) ds = xdma_desc_done (Suc virt) n (ds[virt := zero_desc])"

text \<open>
  The loop that ends \<open>transfer_init\<close> and the transfer construction of
  \<open>xdma_xfer_aperture\<close>: fill in the adjacent counts of descriptors \<open>virt + i\<close>,
  \<open>i < num\<close>.
\<close>

definition set_adjacent :: "nat \<Rightarrow> nat \<Rightarrow> nat \<Rightarrow> xdma_desc list \<Rightarrow> xdma_desc list" where
  "set_adjacent virt num i ds =
     (let d = ds ! (virt + i);
          next_adj = xdma_get_next_adj (of_nat num - of_nat i - 1) (next_lo d)
      in ds[virt + i := xdma_desc_adjacent d next_adj])"

definition adjacent_loop :: "nat \<Rightarrow> nat \<Rightarrow> xdma_desc list \<Rightarrow> xdma_desc list" where
  "adjacent_loop virt num ds = fold (set_adjacent virt num) [0..<num] ds"

subsection \<open>What the core reads from a descriptor\<close>

definition next_addr :: "xdma_desc \<Rightarrow> u64" where
  "next_addr d = dma_join (next_hi d) (next_lo d)"
definition src_addr :: "xdma_desc \<Rightarrow> u64" where
  "src_addr d = dma_join (src_addr_hi d) (src_addr_lo d)"
definition dst_addr :: "xdma_desc \<Rightarrow> u64" where
  "dst_addr d = dma_join (dst_addr_hi d) (dst_addr_lo d)"
definition adj_field :: "xdma_desc \<Rightarrow> u32" where
  "adj_field d = (drop_bit 8 (control d) AND 0x3F)"
definition magic_field :: "xdma_desc \<Rightarrow> u32" where
  "magic_field d = drop_bit 16 (control d)"
definition ctl_field :: "xdma_desc \<Rightarrow> u32" where
  "ctl_field d = (control d AND 0xFF)"

subsection \<open>Lengths and frames\<close>

lemma length_desc_link_loop [simp]: "length (desc_link_loop n i bus ds) = length ds"
  by (induction n arbitrary: i bus ds) (auto simp: Let_def)

lemma length_transfer_desc_init [simp]:
  "length (transfer_desc_init virt bus count ds) = length ds"
  by (simp add: transfer_desc_init_def Let_def)

lemma length_xdma_desc_done [simp]: "length (xdma_desc_done virt n ds) = length ds"
  by (induction n arbitrary: virt ds) auto

lemma length_set_adjacent [simp]: "length (set_adjacent virt num i ds) = length ds"
  by (simp add: set_adjacent_def Let_def)

lemma length_fold_set_adjacent [simp]:
  "length (fold (set_adjacent virt num) is ds) = length ds"
  by (induction "is" arbitrary: ds) auto

lemma length_adjacent_loop [simp]: "length (adjacent_loop virt num ds) = length ds"
  by (simp add: adjacent_loop_def)

lemma nth_desc_link_loop:
  "i + n \<le> length ds \<Longrightarrow>
   desc_link_loop n i bus ds ! k =
     (if i \<le> k \<and> k < i + n
      then desc_link_body (bus + of_nat (sizeof_xdma_desc * (k - i + 1))) (ds ! k) else ds ! k)"
proof (induction n arbitrary: i bus ds)
  case 0
  then show ?case by auto
next
  case (Suc n)
  show ?case
  proof (cases "k = i")
    case True
    then show ?thesis using Suc by (simp add: Let_def)
  next
    case False
    moreover have "k - i = Suc (k - Suc i)" if "Suc i \<le> k" using that by simp
    ultimately show ?thesis using Suc by (auto simp: Let_def algebra_simps)
  qed
qed

lemma nth_transfer_desc_init:
  assumes "0 < count" and "virt + count \<le> length ds"
  shows "transfer_desc_init virt bus count ds ! k =
     (if virt \<le> k \<and> k < virt + count
      then desc_link_body (if k = virt + count - 1 then 0
                           else bus + of_nat (sizeof_xdma_desc * (k - virt + 1))) (ds ! k)
      else ds ! k)"
proof -
  have "virt + (count - 1) < length ds" using assms by simp
  then show ?thesis using assms
    by (cases "k = virt + (count - 1)")
      (auto simp: transfer_desc_init_def Let_def nth_desc_link_loop)
qed

lemma nth_xdma_desc_done:
  "virt + n \<le> length ds \<Longrightarrow>
   xdma_desc_done virt n ds ! k = (if virt \<le> k \<and> k < virt + n then zero_desc else ds ! k)"
  by (induction n arbitrary: virt ds) (auto simp: nth_list_update)

lemma nth_set_adjacent:
  "virt + i < length ds \<Longrightarrow>
   set_adjacent virt num i ds ! k =
     (if k = virt + i
      then xdma_desc_adjacent (ds ! k)
             (xdma_get_next_adj (of_nat num - of_nat i - 1) (next_lo (ds ! k)))
      else ds ! k)"
  by (simp add: set_adjacent_def Let_def)

lemma nth_fold_set_adjacent:
  "virt + num \<le> length ds \<Longrightarrow> m \<le> num \<Longrightarrow>
   fold (set_adjacent virt num) [0..<m] ds ! k =
     (if virt \<le> k \<and> k < virt + m
      then xdma_desc_adjacent (ds ! k)
             (xdma_get_next_adj (of_nat num - of_nat (k - virt) - 1) (next_lo (ds ! k)))
      else ds ! k)"
proof (induction m arbitrary: k)
  case 0
  then show ?case by auto
next
  case (Suc m)
  have "fold (set_adjacent virt num) [0..<m] ds ! (virt + m) = ds ! (virt + m)"
    using Suc by simp
  then show ?case using Suc by (auto simp: nth_set_adjacent less_Suc_eq)
qed

lemma nth_adjacent_loop:
  "virt + num \<le> length ds \<Longrightarrow>
   adjacent_loop virt num ds ! k =
     (if virt \<le> k \<and> k < virt + num
      then xdma_desc_adjacent (ds ! k)
             (xdma_get_next_adj (of_nat num - of_nat (k - virt) - 1) (next_lo (ds ! k)))
      else ds ! k)"
  by (simp add: adjacent_loop_def nth_fold_set_adjacent)

subsection \<open>The adjacent count\<close>

lemma and_0xFFF: "(x::u32) AND 0xFFF = take_bit 12 x"
  by (simp add: take_bit_eq_mask mask_numeral)

lemma unat_next_index:
  "unat (drop_bit 5 ((x::u32) AND (XDMA_PAGE_SIZE - 1)) mod XDMA_MAX_ADJ_BLOCK_SIZE)
     = (unat x div 32) mod 64"
proof -
  have "unat (drop_bit 5 (take_bit 12 x)) = (unat x mod 4096) div 32"
    by (simp add: unsigned_drop_bit_eq unsigned_take_bit_eq drop_bit_eq_div take_bit_eq_mod
        unat_div_distrib unat_mod_distrib)
  also have "\<dots> mod 64 = (unat x div 32) mod 64"
    using mod_mult2_eq [of "unat x" 32 128] by (simp add: mod_mod_cancel)
  finally show ?thesis
    by (simp add: xdma_const and_0xFFF unat_mod_distrib)
qed

lemma unat_xdma_get_next_adj:
  "unat (xdma_get_next_adj remaining nlo) =
     (if unat remaining \<le> 1 then 0 else min (63 - (unat nlo div 32) mod 64) (unat remaining - 1))"
proof (cases "remaining \<le> 1")
  case True
  then show ?thesis by (simp add: xdma_get_next_adj_def word_le_nat_alt)
next
  case False
  define x where "x = drop_bit 5 (nlo AND (XDMA_PAGE_SIZE - 1)) mod XDMA_MAX_ADJ_BLOCK_SIZE"
  have idx: "unat x = (unat nlo div 32) mod 64" unfolding x_def by (rule unat_next_index)
  then have "x \<le> 63" by (simp add: word_le_nat_alt)
  then have "unat (63 - x) = 63 - (unat nlo div 32) mod 64"
    using idx by (simp add: unat_sub)
  moreover have "unat (remaining - 1) = unat remaining - 1"
    using False by (simp add: unat_sub word_le_nat_alt)
  moreover have "xdma_get_next_adj remaining nlo = min (63 - x) (remaining - 1)"
    using False by (simp add: xdma_get_next_adj_def Let_def x_def xdma_const)
  ultimately show ?thesis using False
    by (simp add: word_le_nat_alt min_def)
qed

lemma xdma_get_next_adj_less: "unat (xdma_get_next_adj remaining nlo) < 64"
  by (rule le_less_trans [where y = 63]) (auto simp: unat_xdma_get_next_adj)

subsection \<open>Fields of the control word\<close>

text \<open>
  The control word holds the magic number in its upper half, the adjacent count in bits
  8 to 13 and the control byte below. A descriptor is \<^emph>\<open>fresh\<close> when bits 8 to 13 are
  clear, as they are after \<open>transfer_desc_init\<close>.
\<close>

lemmas desc_read_defs = next_addr_def src_addr_def dst_addr_def adj_field_def magic_field_def
  ctl_field_def

lemma adjacent_keeps [simp]:
  "bytes (xdma_desc_adjacent d n) = bytes d"
  "next_addr (xdma_desc_adjacent d n) = next_addr d"
  "src_addr (xdma_desc_adjacent d n) = src_addr d"
  "dst_addr (xdma_desc_adjacent d n) = dst_addr d"
  "next_lo (xdma_desc_adjacent d n) = next_lo d"
  by (simp_all add: xdma_desc_adjacent_def Let_def desc_read_defs)

lemma bit_mask_consts:
  "(0xFF :: u32) = mask 8" "(0x3F :: u32) = mask 6" "(0xf0ff :: u32) = mask 8 OR push_bit 12 (mask 4)"
  by (simp_all add: mask_numeral)

lemma small_bits_zero: "unat (x::u32) < 2 ^ k \<Longrightarrow> k \<le> n \<Longrightarrow> \<not> bit x n"
proof
  assume small: "unat x < 2 ^ k" and "k \<le> n" and "bit x n"
  then have "bit (unat x) n" by (simp add: bit_unsigned_iff)
  moreover have "unat x < 2 ^ n" using small \<open>k \<le> n\<close>
    by (meson less_le_trans one_le_numeral power_increasing)
  ultimately show False by (simp add: bit_nat_def)
qed

lemma adj_field_adjacent:
  assumes "unat n < 64" and "adj_field d = 0"
  shows "adj_field (xdma_desc_adjacent d n) = n"
proof (rule bit_word_eqI)
  fix i :: nat
  assume i: "i < LENGTH(32)"
  have fresh: "\<not> bit (control d) (8 + j)" if "j < 6" for j
    using assms(2) that unfolding adj_field_def bit_mask_consts
    by (auto simp: bit_eq_iff bit_simps dest: spec [where x = j])
  have magic: "\<not> bit (0xAD4B00 :: u32) j" if "j < 6" for j
  proof -
    have "(0xAD4B00 :: u32) = push_bit 8 0xAD4B" by simp
    then show ?thesis using that by (simp only: bit_push_bit_iff) simp
  qed
  show "bit (adj_field (xdma_desc_adjacent d n)) i = bit n i"
  proof (cases "i < 6")
    case True
    then show ?thesis using fresh [OF True] magic [OF True] i
      by (simp add: adj_field_def xdma_desc_adjacent_def bit_mask_consts bit_simps)
  next
    case False
    moreover have "\<not> bit n i" using False assms(1) small_bits_zero [of n 6 i] by simp
    ultimately show ?thesis by (simp add: adj_field_def bit_mask_consts bit_simps)
  qed
qed

lemma magic_field_adjacent:
  assumes "unat n < 64"
  shows "magic_field (xdma_desc_adjacent d n) = 0xAD4B"
proof (rule bit_word_eqI)
  fix i :: nat
  assume i: "i < LENGTH(32)"
  have "(0xAD4B0000 :: u32) = push_bit 16 0xAD4B" by simp
  then have "bit (0xAD4B0000 :: u32) (16 + i) = bit (0xAD4B :: u32) i" if "i < 16"
    using that by (simp only: bit_push_bit_iff) simp
  moreover have "\<not> bit n (8 + i)" using assms small_bits_zero [of n 6 "8 + i"] by simp
  moreover have "\<not> bit (0xAD4B :: u32) i" if "16 \<le> i"
    using that small_bits_zero [of "0xAD4B" 16 i] by simp
  ultimately show "bit (magic_field (xdma_desc_adjacent d n)) i = bit (0xAD4B :: u32) i"
    using i
    by (cases "i < 16") (auto simp: magic_field_def xdma_desc_adjacent_def bit_mask_consts bit_simps
        dest: bit_imp_le_length)
qed

lemma ctl_field_adjacent [simp]: "ctl_field (xdma_desc_adjacent d n) = ctl_field d"
proof (rule bit_word_eqI)
  fix i :: nat
  have "(0xAD4B0000 :: u32) = push_bit 16 0xAD4B" by simp
  then have "\<not> bit (0xAD4B0000 :: u32) i" if "i < 8"
    using that by (simp only: bit_push_bit_iff) simp
  then show "bit (ctl_field (xdma_desc_adjacent d n)) i = bit (ctl_field d) i"
    by (auto simp: ctl_field_def xdma_desc_adjacent_def bit_mask_consts bit_simps)
qed

lemma desc_link_body_fields [simp]:
  "next_addr (desc_link_body bus d) = bus"
  "next_lo (desc_link_body bus d) = PCI_DMA_L bus"
  "adj_field (desc_link_body bus d) = 0"
  "control (desc_link_body bus d) = DESC_MAGIC" "bytes (desc_link_body bus d) = 0"
  by (simp_all add: desc_link_body_def desc_read_defs xdma_const)

lemma desc_set_keeps [simp]:
  "next_addr (xdma_desc_set d rc ep len dir) = next_addr d"
  "next_lo (xdma_desc_set d rc ep len dir) = next_lo d"
  "control (xdma_desc_set d rc ep len dir) = control d"
  "bytes (xdma_desc_set d rc ep len dir) = len"
  by (simp_all add: xdma_desc_set_def Let_def desc_read_defs)

lemma desc_set_to_device [simp]:
  "src_addr (xdma_desc_set d rc ep len DMA_TO_DEVICE) = rc"
  "dst_addr (xdma_desc_set d rc ep len DMA_TO_DEVICE) = ep"
  by (simp_all add: xdma_desc_set_def Let_def desc_read_defs)

lemma desc_set_from_device [simp]:
  "src_addr (xdma_desc_set d rc ep len DMA_FROM_DEVICE) = ep"
  "dst_addr (xdma_desc_set d rc ep len DMA_FROM_DEVICE) = rc"
  by (simp_all add: xdma_desc_set_def Let_def desc_read_defs)

lemma control_set_keeps [simp]:
  "next_addr (snd (xdma_desc_control_set d c)) = next_addr d"
  "next_lo (snd (xdma_desc_control_set d c)) = next_lo d"
  "bytes (snd (xdma_desc_control_set d c)) = bytes d"
  "src_addr (snd (xdma_desc_control_set d c)) = src_addr d"
  "dst_addr (snd (xdma_desc_control_set d c)) = dst_addr d"
  by (simp_all add: xdma_desc_control_set_def Let_def desc_read_defs)

lemma control_set_ctl:
  "c AND NOT LS_BYTE_MASK = 0 \<Longrightarrow> ctl_field (snd (xdma_desc_control_set d c)) = c"
  by (auto simp: bit_eq_iff xdma_desc_control_set_def ctl_field_def LS_BYTE_MASK_def
      bit_mask_consts bit_simps)

lemma control_set_adj [simp]:
  "adj_field (snd (xdma_desc_control_set d c)) = adj_field d"
proof (cases "c AND NOT LS_BYTE_MASK = 0")
  case True
  then have "\<not> bit c i" if "8 \<le> i" "i < 32" for i
    using that
    by (auto simp: bit_eq_iff LS_BYTE_MASK_def bit_mask_consts bit_simps dest: spec [where x = i])
  then show ?thesis
    by (auto simp: bit_eq_iff xdma_desc_control_set_def adj_field_def LS_BYTE_MASK_def
        bit_mask_consts bit_simps)
qed (simp add: xdma_desc_control_set_def Let_def)

subsection \<open>Properties\<close>

text \<open>
  Writing the adjacent count into the control word of a freshly linked descriptor
  sets exactly that field: the core reads back the count, the magic number and the
  control byte that was there; addresses and length are untouched.
\<close>

lemma desc_adjacent_fields:
  assumes "unat n < 64" and "adj_field d = 0"
  shows "adj_field (xdma_desc_adjacent d n) = n \<and> magic_field (xdma_desc_adjacent d n) = 0xAD4B \<and>
    ctl_field (xdma_desc_adjacent d n) = ctl_field d \<and> bytes (xdma_desc_adjacent d n) = bytes d \<and>
    src_addr (xdma_desc_adjacent d n) = src_addr d \<and> dst_addr (xdma_desc_adjacent d n) = dst_addr d \<and>
    next_addr (xdma_desc_adjacent d n) = next_addr d"
  using adj_field_adjacent [OF assms] magic_field_adjacent [OF assms(1)] by simp

text \<open>
  The mask of \<open>xdma_desc_adjacent\<close> clears bits 8 to 11 of the control word and not
  bits 12 and 13, which belong to the adjacent count too. Writing a second count into a
  descriptor that already has one therefore leaves the union of the upper bits: after 48
  then 1 the core reads 49. The driver links the descriptor anew before each call, which
  is why this does not show.
\<close>

lemma desc_adjacent_stale_bits:
  "adj_field (xdma_desc_adjacent (xdma_desc_adjacent (desc_link_body 0 zero_desc) 48) 1) = 49 \<and>
   adj_field (xdma_desc_adjacent (desc_link_body 0 (xdma_desc_adjacent zero_desc 48)) 1) = 1"
  by (simp add: xdma_desc_adjacent_def adj_field_def desc_link_body_def zero_desc_def DESC_MAGIC_def)

text \<open>
  Linking \<open>count\<close> descriptors makes a list in memory: each points at the bus address
  of the following one, the last at 0, all carry the magic number and a cleared length,
  and nothing outside the block changes; marking the block done afterwards leaves it all
  zero.
\<close>

lemma desc_init_links:
  assumes "0 < count" and "virt + count \<le> length ds"
  shows "(\<forall>i<count. let d = transfer_desc_init virt bus count ds ! (virt + i) in
            next_addr d = (if Suc i = count then 0 else bus + of_nat (sizeof_xdma_desc * Suc i)) \<and>
            control d = DESC_MAGIC \<and> bytes d = 0) \<and>
         (\<forall>k. k < virt \<or> virt + count \<le> k \<longrightarrow> transfer_desc_init virt bus count ds ! k = ds ! k) \<and>
         (\<forall>i<count. xdma_desc_done virt count (transfer_desc_init virt bus count ds) ! (virt + i) = zero_desc)"
proof -
  have "next_addr d = (if Suc i = count then 0 else bus + of_nat (sizeof_xdma_desc * Suc i)) \<and>
      control d = DESC_MAGIC \<and> bytes d = 0"
    if "i < count" and "d = transfer_desc_init virt bus count ds ! (virt + i)" for i d
  proof (cases "Suc i = count")
    case False
    then have "virt + i \<noteq> virt + count - 1" using that(1) by simp
    then show ?thesis using that False by (simp only: nth_transfer_desc_init [OF assms]) simp
  qed (use that in \<open>auto simp: nth_transfer_desc_init [OF assms]\<close>)
  moreover have "xdma_desc_done virt count (transfer_desc_init virt bus count ds) ! (virt + i) = zero_desc"
    if "i < count" for i using that assms(2) by (simp add: nth_xdma_desc_done)
  ultimately show ?thesis
    by (simp add: Let_def) (auto simp: nth_transfer_desc_init [OF assms])
qed

end
