(* ===== verification/Xdma_Request.thy ===== *)
theory Xdma_Request
  imports Xdma_Regs
begin

text \<open>
  Requests: how \<open>xdma_init_request\<close> (src/src/libxdma.c) turns a DMA-mapped
  scatter-gather table into software descriptors of bounded length, and the contract such
  a splitting has to keep (locale \<open>chunker\<close>): the pieces address exactly the bytes of
  the whole, in order.
\<close>

subsection \<open>Data\<close>

record scatterlist =
  sg_dma_address :: u64
  sg_dma_len :: u32

record sg_table =
  sgl :: "scatterlist list"
  nents :: nat
  orig_nents :: nat

record sw_desc =
  sd_addr :: u64
  sd_len :: u32

record xdma_request_cb =
  rq_ep_addr :: u64
  rq_aperture :: u32
  rq_total_len :: u32
  rq_offset :: u32
  rq_sg :: nat
  rq_sg_idx :: nat
  rq_sg_offset :: u32
  rq_sw_desc_idx :: u32
  rq_sw_desc_cnt :: u32
  rq_sdesc :: "sw_desc list"

definition zero_request :: xdma_request_cb where
  "zero_request = \<lparr>rq_ep_addr = 0, rq_aperture = 0, rq_total_len = 0, rq_offset = 0,
     rq_sg = 0, rq_sg_idx = 0, rq_sg_offset = 0, rq_sw_desc_idx = 0, rq_sw_desc_cnt = 0,
     rq_sdesc = []\<rparr>"

text \<open>The entries the loops over \<open>sgt->nents\<close> visit.\<close>

definition sg_entries :: "sg_table \<Rightarrow> scatterlist list" where
  "sg_entries sgt = take (nents sgt) (sgl sgt)"

subsection \<open>Operations\<close>

text \<open>
  The allocator is the kernel's: \<open>alloc size\<close> says whether \<open>kzalloc\<close> or, failing that,
  \<open>vmalloc\<close> returns memory. The size of the fixed part of the structure is the
  compiler's. What comes back is the number of \<open>sw_desc\<close> slots that lie inside the
  allocation; the size is an \<open>unsigned int\<close>, so it wraps.
\<close>

definition sizeof_sw_desc :: nat where "sizeof_sw_desc = 16"

definition xdma_request_alloc :: "nat \<Rightarrow> (u32 \<Rightarrow> bool) \<Rightarrow> nat \<Rightarrow> nat option" where
  "xdma_request_alloc sizeof_cb alloc sdesc_nr =
     (let size = (of_nat (sizeof_cb + sdesc_nr * sizeof_sw_desc) :: u32)
      in if alloc size then Some ((unat size - sizeof_cb) div sizeof_sw_desc) else None)"

text \<open>The counting loop: slots beyond one per entry.\<close>

definition extra_of :: "u32 \<Rightarrow> u32 \<Rightarrow> nat" where
  "extra_of blen len = (if blen < len then unat ((len + blen - 1) div blen) else 0)"

text \<open>The inner loop: pieces of at most \<open>blen\<close> bytes.\<close>

function sg_split :: "u32 \<Rightarrow> u64 \<Rightarrow> u32 \<Rightarrow> sw_desc list" where
  "sg_split blen addr tlen =
     (if tlen = 0 then []
      else if blen = 0 then [] \<comment> \<open>not reached: the counting loop divides by zero first\<close>
      else if blen < tlen
      then \<lparr>sd_addr = addr, sd_len = blen\<rparr> # sg_split blen (addr + ucast blen) (tlen - blen)
      else [\<lparr>sd_addr = addr, sd_len = tlen\<rparr>])"
  by pat_completeness auto
termination
  by (relation "measure (\<lambda>(blen, addr, tlen). unat tlen)")
    (auto simp: unat_sub word_le_nat_alt word_less_nat_alt unat_gt_0)

declare sg_split.simps [simp del]

text \<open>
  \<open>xdma_init_request\<close>. Its outcomes: a division by zero in the counting loop, a write
  past the end of the allocated array, \<open>NULL\<close>, or the request.
\<close>

datatype init_result = Divide_Trap | Heap_Overrun | Null | Request xdma_request_cb

definition xdma_init_request ::
  "nat \<Rightarrow> (u32 \<Rightarrow> bool) \<Rightarrow> u32 \<Rightarrow> sg_table \<Rightarrow> u64 \<Rightarrow> init_result" where
  "xdma_init_request sizeof_cb alloc blen sgt ep_addr =
     (let es = sg_entries sgt
      in if blen = 0 \<and> list_ex (\<lambda>e. sg_dma_len e \<noteq> 0) es then Divide_Trap
      else let mx = nents sgt + sum_list (map (\<lambda>e. extra_of blen (sg_dma_len e)) es)
      in case xdma_request_alloc sizeof_cb alloc mx of
           None \<Rightarrow> Null
         | Some slots \<Rightarrow>
             (let sdesc = concat (map (\<lambda>e. sg_split blen (sg_dma_address e) (sg_dma_len e)) es);
                  j = length sdesc
              in if slots < j then Heap_Overrun
                 else if mx < j then Null
                 else Request (zero_request
                   \<lparr>rq_ep_addr := ep_addr, rq_total_len := sum_list (map sg_dma_len es),
                    rq_sdesc := sdesc, rq_sw_desc_cnt := of_nat j\<rparr>)))"

subsection \<open>The contract of a splitting\<close>

definition span :: "u64 \<Rightarrow> u32 \<Rightarrow> u64 list" where
  "span a n = map (\<lambda>k. a + of_nat k) [0..<unat n]"

lemma length_span [simp]: "length (span a n) = unat n"
  by (simp add: span_def)

lemma span_0 [simp]: "span a 0 = []"
  by (simp add: span_def)

lemma span_split:
  assumes "m \<le> n"
  shows "span a m @ span (a + ucast m) (n - m) = span a n"
proof -
  have "unat (n - m) = unat n - unat m" using assms by (simp add: unat_sub)
  moreover have "map (\<lambda>k. a + ucast m + of_nat k) [0..<unat n - unat m]
                 = map (\<lambda>k. a + of_nat k) [unat m..<unat n]"
  proof -
    have "[unat m..<unat n] = map (\<lambda>k. k + unat m) [0..<unat n - unat m]"
      using assms by (simp add: map_add_upt word_le_nat_alt)
    then show ?thesis by (simp add: comp_def add.assoc add.commute [of "of_nat _"])
  qed
  moreover have "[0..<unat n] = [0..<unat m] @ [unat m..<unat n]"
    using assms upt_add_eq_append [of 0 "unat m" "unat n - unat m"]
    by (simp add: word_le_nat_alt)
  ultimately show ?thesis by (simp add: span_def)
qed

locale chunker =
  fixes split :: "u64 \<Rightarrow> u32 \<Rightarrow> 'c list"
    and caddr :: "'c \<Rightarrow> u64"
    and clen :: "'c \<Rightarrow> u32"
    and cap :: nat
  assumes split_bytes: "concat (map (\<lambda>c. span (caddr c) (clen c)) (split a n)) = span a n"
    and split_piece: "c \<in> set (split a n) \<Longrightarrow> 0 < clen c \<and> unat (clen c) \<le> cap"
begin

definition pieces :: "(u64 \<times> u32) list \<Rightarrow> 'c list" where
  "pieces es = concat (map (\<lambda>(a, n). split a n) es)"

lemma pieces_bytes:
  "concat (map (\<lambda>c. span (caddr c) (clen c)) (pieces es)) = concat (map (\<lambda>(a, n). span a n) es)"
  by (induction es) (auto simp: pieces_def split_bytes)

lemma sum_clen_span:
  "length (concat (map (\<lambda>c. span (caddr c) (clen c)) cs)) = sum_list (map (\<lambda>c. unat (clen c)) cs)"
  by (induction cs) auto

lemma pieces_total:
  "sum_list (map (\<lambda>c. unat (clen c)) (pieces es)) = sum_list (map (\<lambda>(a, n). unat n) es)"
proof -
  have "sum_list (map (\<lambda>c. unat (clen c)) (pieces es))
        = length (concat (map (\<lambda>(a, n). span a n) es))"
    by (simp only: sum_clen_span [symmetric] pieces_bytes)
  then show ?thesis by (simp add: length_concat case_prod_unfold comp_def)
qed

lemma split_total: "sum_list (map (\<lambda>c. unat (clen c)) (split a n)) = unat n"
  using pieces_total [of "[(a, n)]"] by (simp add: pieces_def)

lemma pieces_piece: "c \<in> set (pieces es) \<Longrightarrow> 0 < clen c \<and> unat (clen c) \<le> cap"
  using split_piece by (auto simp: pieces_def)

end

subsection \<open>The splitting of \<open>xdma_init_request\<close> keeps the contract\<close>

lemma sg_split_bytes:
  "blen \<noteq> 0 \<Longrightarrow>
   concat (map (\<lambda>c. span (sd_addr c) (sd_len c)) (sg_split blen addr tlen)) = span addr tlen"
proof (induction blen addr tlen rule: sg_split.induct)
  case (1 blen addr tlen)
  then show ?case
    by (subst sg_split.simps) (auto simp: span_split)
qed

lemma sg_split_piece:
  "c \<in> set (sg_split blen addr tlen) \<Longrightarrow> 0 < sd_len c \<and> unat (sd_len c) \<le> unat blen"
proof (induction blen addr tlen rule: sg_split.induct)
  case (1 blen addr tlen)
  show ?case
  proof (cases "tlen \<noteq> 0 \<and> blen \<noteq> 0 \<and> blen < tlen")
    case True
    then consider "c = \<lparr>sd_addr = addr, sd_len = blen\<rparr>"
      | "c \<in> set (sg_split blen (addr + ucast blen) (tlen - blen))"
      using "1.prems" by (subst (asm) sg_split.simps) auto
    then show ?thesis
      using True "1.IH" by cases (auto simp: word_neq_0_conv)
  next
    case False
    then show ?thesis using "1.prems"
      by (subst (asm) sg_split.simps)
        (auto simp: word_neq_0_conv word_le_nat_alt word_less_nat_alt split: if_splits)
  qed
qed

lemma length_sg_split:
  "blen \<noteq> 0 \<Longrightarrow> length (sg_split blen addr tlen) = (unat tlen + unat blen - 1) div unat blen"
proof (induction blen addr tlen rule: sg_split.induct)
  case (1 blen addr tlen)
  have pos: "0 < unat blen" using "1.prems" by (simp add: unat_gt_0)
  consider "tlen = 0" | "tlen \<noteq> 0" "blen < tlen" | "tlen \<noteq> 0" "tlen \<le> blen" by fastforce
  then show ?case
  proof cases
    case 1
    then show ?thesis using pos by (simp add: sg_split.simps)
  next
    case 2
    then have lt: "unat blen < unat tlen" by (simp add: word_less_nat_alt)
    then have "length (sg_split blen addr tlen)
               = Suc ((unat tlen - unat blen + unat blen - 1) div unat blen)"
      using "1.IH" "1.prems" 2 by (subst sg_split.simps) (simp add: unat_sub word_le_nat_alt)
    also have "\<dots> = (unat tlen - 1 + unat blen) div unat blen"
      using pos lt div_add_self2 [of "unat blen" "unat tlen - 1"] by simp
    also have "unat tlen - 1 + unat blen = unat tlen + unat blen - 1" using lt by simp
    finally show ?thesis .
  next
    case 3
    then have "0 < unat tlen" "unat tlen \<le> unat blen"
      by (auto simp: unat_gt_0 word_le_nat_alt)
    then have "(unat tlen + unat blen - 1) div unat blen = 1"
      by (intro div_nat_eqI) auto
    then show ?thesis using "1.prems" 3 by (subst sg_split.simps) auto
  qed
qed

text \<open>The module parameter \<open>desc_blen_max\<close> is any non-zero word.\<close>

interpretation sd: chunker "sg_split (if blen = 0 then 1 else blen)" sd_addr sd_len
    "unat (if blen = 0 then 1 else blen)" for blen
  by unfold_locales (auto simp: sg_split_bytes dest: sg_split_piece)

subsection \<open>Properties\<close>

lemma split_zero [simp]: "sg_split blen a 0 = []"
  by (subst sg_split.simps) simp

lemma length_split_le:
  assumes "blen \<noteq> 0" and "unat n + unat blen \<le> 2 ^ 32"
  shows "length (sg_split blen a n) \<le> 1 + extra_of blen n"
proof -
  have pos: "0 < unat blen" using assms(1) by (simp add: unat_gt_0)
  show ?thesis
  proof (cases "blen < n")
    case True
    have "unat (n + blen - 1) = unat n + unat blen - 1"
    proof -
      have "(n + blen - 1) = of_nat (unat n + unat blen - 1)" using pos by (simp add: of_nat_diff)
      then show ?thesis using assms(2) pos by (simp only:) (intro unat_of_nat_small, simp)
    qed
    then show ?thesis using True assms(1)
      by (simp add: extra_of_def length_sg_split unat_div_distrib)
  next
    case False
    then have "unat n \<le> unat blen" by (simp add: word_less_nat_alt)
    then have "(unat n + unat blen - 1) div unat blen \<le> 1"
      using pos by (simp add: less_Suc_eq_le [symmetric] div_less_iff_less_mult)
    then show ?thesis using assms(1) by (simp add: length_sg_split)
  qed
qed

lemma length_concat_le:
  "(\<And>x. x \<in> set xs \<Longrightarrow> length (f x) \<le> 1 + g x) \<Longrightarrow>
   length (concat (map f xs)) \<le> length xs + sum_list (map g xs)"
  by (induction xs) (force simp: add_mono)+

text \<open>The software descriptors of a table, as pieces of the interpreted contract.\<close>

lemma sdescs_are_pieces:
  "blen \<noteq> 0 \<Longrightarrow> concat (map (\<lambda>e. sg_split blen (sg_dma_address e) (sg_dma_len e)) es)
     = sd.pieces blen (map (\<lambda>e. (sg_dma_address e, sg_dma_len e)) es)"
  unfolding sd.pieces_def by (simp add: comp_def)

lemma request_exact:
  assumes "xdma_init_request cb alloc blen sgt ep = Request r"
  shows "concat (map (\<lambda>c. span (sd_addr c) (sd_len c)) (rq_sdesc r))
           = concat (map (\<lambda>e. span (sg_dma_address e) (sg_dma_len e)) (sg_entries sgt)) \<and>
         (\<forall>c\<in>set (rq_sdesc r). 0 < sd_len c \<and> sd_len c \<le> blen) \<and>
         unat (rq_sw_desc_cnt r) = length (rq_sdesc r) \<and> rq_sw_desc_idx r = 0 \<and> rq_ep_addr r = ep \<and>
         rq_total_len r = sum_list (map sg_dma_len (sg_entries sgt))"
proof -
  define es where "es = sg_entries sgt"
  define sds where "sds = concat (map (\<lambda>e. sg_split blen (sg_dma_address e) (sg_dma_len e)) es)"
  obtain mx slots where run: "\<not> (blen = 0 \<and> list_ex (\<lambda>e. sg_dma_len e \<noteq> 0) es)"
    and slots: "xdma_request_alloc cb alloc mx = Some slots" "length sds \<le> slots"
    and r: "r = zero_request\<lparr>rq_ep_addr := ep, rq_total_len := sum_list (map sg_dma_len es),
                    rq_sdesc := sds, rq_sw_desc_cnt := of_nat (length sds)\<rparr>"
    using assms unfolding xdma_init_request_def Let_def es_def [symmetric] sds_def [symmetric]
    by (auto split: if_splits option.splits)
  have "slots < 2 ^ 32"
    using slots(1) unat_bound [of "of_nat (cb + mx * sizeof_sw_desc) :: u32"]
    by (auto simp: xdma_request_alloc_def Let_def sizeof_sw_desc_def split: if_splits)
  then have cnt: "unat (of_nat (length sds) :: u32) = length sds"
    using slots(2) by (intro unat_of_nat_small) simp
  have "concat (map (\<lambda>c. span (sd_addr c) (sd_len c)) sds)
          = concat (map (\<lambda>e. span (sg_dma_address e) (sg_dma_len e)) es) \<and>
        (\<forall>c\<in>set sds. 0 < sd_len c \<and> sd_len c \<le> blen)"
  proof (cases "blen = 0")
    case True
    then have "\<forall>e\<in>set es. sg_dma_len e = 0" using run by (auto simp: list_ex_iff)
    then have "sds = []" "concat (map (\<lambda>e. span (sg_dma_address e) (sg_dma_len e)) es) = []"
      by (auto simp: sds_def)
    then show ?thesis by simp
  next
    case False
    then show ?thesis
      using sd.pieces_bytes [of blen] sd.pieces_piece [of _ blen]
      by (auto simp: sds_def sdescs_are_pieces comp_def word_le_nat_alt)
  qed
  then show ?thesis using cnt by (simp add: r es_def zero_request_def)
qed

lemma request_made:
  assumes "blen \<noteq> 0" and "\<forall>e\<in>set (sg_entries sgt). unat (sg_dma_len e) + unat blen \<le> 2 ^ 32"
    and "mx = nents sgt + sum_list (map (\<lambda>e. extra_of blen (sg_dma_len e)) (sg_entries sgt))"
    and "cb + mx * sizeof_sw_desc < 2 ^ 32" and "alloc (of_nat (cb + mx * sizeof_sw_desc))"
  shows "\<exists>r. xdma_init_request cb alloc blen sgt ep = Request r"
proof -
  let ?es = "sg_entries sgt"
  let ?sds = "concat (map (\<lambda>e. sg_split blen (sg_dma_address e) (sg_dma_len e)) ?es)"
  have "length ?sds \<le> length ?es + sum_list (map (\<lambda>e. extra_of blen (sg_dma_len e)) ?es)"
    using assms(1,2) length_split_le by (intro length_concat_le) simp
  then have len: "length ?sds \<le> mx" using assms(3) by (simp add: sg_entries_def)
  have "unat (of_nat (cb + mx * sizeof_sw_desc) :: u32) = cb + mx * sizeof_sw_desc"
    using assms(4) by (intro unat_of_nat_small) simp
  then have "xdma_request_alloc cb alloc mx = Some mx"
    using assms(5) by (simp add: xdma_request_alloc_def Let_def sizeof_sw_desc_def del: of_nat_add of_nat_mult)
  then show ?thesis using assms(1,3) len by (simp add: xdma_init_request_def Let_def)
qed

lemma request_total:
  assumes "xdma_init_request cb alloc blen sgt ep = Request r"
  shows "sum_list (map (\<lambda>c. unat (sd_len c)) (rq_sdesc r)) = sum_list (map (\<lambda>e. unat (sg_dma_len e)) (sg_entries sgt))"
proof -
  have "length (concat (map (\<lambda>c. span (sd_addr c) (sd_len c)) (rq_sdesc r)))
        = length (concat (map (\<lambda>e. span (sg_dma_address e) (sg_dma_len e)) (sg_entries sgt)))"
    using request_exact [OF assms] by simp
  then show ?thesis by (simp add: length_concat comp_def)
qed

text \<open>
  C4: A request that \<open>xdma_init_request\<close> returns describes the scatter-gather table
  exactly. The software descriptors address the same bytes in the same order as the
  table's entries, none is empty and none is longer than \<open>desc_blen_max\<close>, and the count
  field is their number.
\<close>

theorem init_request_exact:
  assumes "xdma_init_request cb alloc blen sgt ep = Request r"
  shows "concat (map (\<lambda>c. span (sd_addr c) (sd_len c)) (rq_sdesc r))
           = concat (map (\<lambda>e. span (sg_dma_address e) (sg_dma_len e)) (sg_entries sgt)) \<and>
         (\<forall>c\<in>set (rq_sdesc r). 0 < sd_len c \<and> sd_len c \<le> blen) \<and>
         unat (rq_sw_desc_cnt r) = length (rq_sdesc r) \<and> rq_sw_desc_idx r = 0 \<and> rq_ep_addr r = ep \<and>
         rq_total_len r = sum_list (map sg_dma_len (sg_entries sgt))"
  using request_exact [OF assms] .

text \<open>
  C36: \<open>xdma_init_request\<close> succeeds, without writing past its array, whenever the rounding
  in the counting loop does not wrap, that is when every entry's length plus
  \<open>desc_blen_max\<close> is at most \<open>2 ^ 32\<close>, the array's size fits an \<open>unsigned int\<close>, and
  memory can be had.
\<close>

theorem init_request_succeeds:
  assumes "blen \<noteq> 0" and "\<forall>e\<in>set (sg_entries sgt). unat (sg_dma_len e) + unat blen \<le> 2 ^ 32"
    and "mx = nents sgt + sum_list (map (\<lambda>e. extra_of blen (sg_dma_len e)) (sg_entries sgt))"
    and "cb + mx * sizeof_sw_desc < 2 ^ 32" and "alloc (of_nat (cb + mx * sizeof_sw_desc))"
  shows "\<exists>r. xdma_init_request cb alloc blen sgt ep = Request r"
  by (rule request_made [where mx = mx]) (use assms in simp_all)

definition sample_table :: sg_table where
  "sample_table = \<lparr>sgl = [\<lparr>sg_dma_address = 0x1000, sg_dma_len = 300\<rparr>], nents = 1, orig_nents = 1\<rparr>"

theorem init_request_succeeds_witness:
  "\<exists>r. xdma_init_request 64 (\<lambda>_. True) 256 sample_table 0 = Request r"
  by (rule init_request_succeeds [where mx = 3])
    (simp_all add: sample_table_def sg_entries_def extra_of_def sizeof_sw_desc_def)

theorem init_request_exact_witness:
  "\<exists>r. xdma_init_request 64 (\<lambda>_. True) 256 sample_table 0 = Request r \<and>
       length (concat (map (\<lambda>c. span (sd_addr c) (sd_len c)) (rq_sdesc r))) = 300"
proof -
  obtain r where r: "xdma_init_request 64 (\<lambda>_. True) 256 sample_table 0 = Request r"
    by (simp add: xdma_init_request_def xdma_request_alloc_def sample_table_def sg_entries_def
        extra_of_def sizeof_sw_desc_def sg_split.simps)
  then show ?thesis
    using init_request_exact [OF r] by (auto simp: sample_table_def sg_entries_def)
qed

text \<open>
  Without that bound the array is too small. With the default \<open>desc_blen_max\<close> an entry
  of \<open>2 ^ 32 - 1\<close> bytes makes \<open>len + desc_blen_max - 1\<close> wrap, the counting loop counts one
  slot, and the filling loop writes seventeen.
\<close>

lemma init_request_overrun:
  "xdma_init_request 64 (\<lambda>_. True) XDMA_DESC_BLEN_MAX
     \<lparr>sgl = [\<lparr>sg_dma_address = 0, sg_dma_len = 0xFFFFFFFF\<rparr>], nents = 1, orig_nents = 1\<rparr> ep = Heap_Overrun \<and>
   length (sg_split XDMA_DESC_BLEN_MAX 0 0xFFFFFFFF) = 17"
proof -
  have "length (sg_split XDMA_DESC_BLEN_MAX 0 0xFFFFFFFF) = 17"
    by (subst length_sg_split) (simp_all add: xdma_const)
  moreover have "extra_of XDMA_DESC_BLEN_MAX 0xFFFFFFFF = 0"
    by (simp add: extra_of_def xdma_const)
  moreover have "XDMA_DESC_BLEN_MAX \<noteq> 0" by (simp add: xdma_const)
  ultimately show ?thesis
    by (simp add: xdma_init_request_def xdma_request_alloc_def sg_entries_def sizeof_sw_desc_def)
qed

end
