(* ===== verification/Xdma_State.thy ===== *)
theory Xdma_State
  imports Xdma_Desc Xdma_Request
begin

text \<open>
  The driver's state. C pointers are keys of stores: an engine is named by its device, its
  direction and its channel (\<open>&xdev->engine_h2c[i]\<close>, \<open>&xdev->engine_c2h[i]\<close>), a transfer
  by a number, a pointer into an engine's descriptor or result array by the engine and an
  index. A pointer that the code tests for \<open>NULL\<close> is an option. Registers are accessed
  through \<open>read_register\<close> and \<open>write_register\<close>, which extend the log.

  Spin locks and mutexes are not part of the state: each operation below that the code
  runs under the engine lock is one atomic step of the model.
\<close>

subsection \<open>Names and enumerations\<close>

datatype side = H2C | C2H

type_synonym eng_id = "nat \<times> side \<times> nat"
type_synonym xid = nat
type_synonym mem_ptr = "eng_id \<times> nat"

datatype transfer_state =
    TRANSFER_STATE_NEW
  | TRANSFER_STATE_SUBMITTED
  | TRANSFER_STATE_COMPLETED
  | TRANSFER_STATE_FAILED
  | TRANSFER_STATE_ABORTED

text \<open>\<open>enum shutdown_state\<close> is used as a bit set.\<close>

definition ENGINE_SHUTDOWN_NONE :: u32 where [xdma_const]: "ENGINE_SHUTDOWN_NONE = 0"
definition ENGINE_SHUTDOWN_REQUEST :: u32 where [xdma_const]: "ENGINE_SHUTDOWN_REQUEST = 1"
definition ENGINE_SHUTDOWN_IDLE :: u32 where [xdma_const]: "ENGINE_SHUTDOWN_IDLE = 2"

definition XFER_FLAG_NEED_UNMAP :: u32 where [xdma_const]: "XFER_FLAG_NEED_UNMAP = 1"
definition XFER_FLAG_ST_C2H_EOP_RCVED :: u32 where
  [xdma_const]: "XFER_FLAG_ST_C2H_EOP_RCVED = 2"
definition XDEV_FLAG_OFFLINE :: u32 where [xdma_const]: "XDEV_FLAG_OFFLINE = 1"

subsection \<open>Structures\<close>

record xdma_result =
  r_status :: u32
  r_length :: u32

definition sizeof_xdma_result :: nat where "sizeof_xdma_result = 32"

record xdma_transfer =
  x_desc_virt :: mem_ptr
  x_res_virt :: mem_ptr
  x_res_bus :: u64
  x_desc_bus :: u64
  x_desc_adjacent :: u32
  x_desc_num :: u32
  x_desc_index :: u32
  x_desc_cmpl :: u32
  x_desc_cmpl_th :: u32
  x_dir :: dma_dir
  x_state :: transfer_state
  x_flags :: u32
  x_cyclic :: bool
  x_last_in_request :: bool
  x_len :: u32
  x_sgt :: "nat option"
  x_cb :: "nat option"

record xdma_engine =
  e_magic :: u64
  e_xdev :: "nat option"
  e_name :: string
  e_regs :: nat
  e_sgdma_regs :: nat
  e_bypass_offset :: u32
  e_shutdown :: u32
  e_dir :: dma_dir
  e_addr_align :: u8
  e_len_granularity :: u8
  e_addr_bits :: u8
  e_channel :: nat
  e_streaming :: bool
  e_running :: bool
  e_non_incr_addr :: bool
  e_eop_flush :: bool
  e_desc_dequeued :: u32
  e_desc_max :: u32
  e_status :: u32
  e_interrupt_enable_mask_value :: u32
  e_transfer_list :: "xid list"
  e_cyclic_result :: "xdma_result list option"
  e_cyclic_result_bus :: u64
  e_poll_mode_addr_virt :: "u32 option"
  e_poll_mode_bus :: u64
  e_prev_cpu :: nat
  e_msix_irq_line :: u32
  e_irq_bitmask :: u32
  e_desc_bus :: u64
  e_desc :: "xdma_desc list option"
  e_desc_idx :: u32
  e_desc_used :: u32
  e_xdma_perf :: bool
  e_cmplthp :: "nat option"
  e_intr_work_cpu :: nat

record xdma_user_irq =
  u_user_idx :: nat
  u_events_irq :: u8
  u_handler :: "nat option"
  u_dev :: nat

record xdma_dev =
  dv_magic :: u64
  dv_pdev :: nat
  dv_idx :: int
  dv_mod_name :: string
  dv_flags :: u32
  dv_bar :: "nat list"
  dv_user_bar_idx :: int
  dv_config_bar_idx :: int
  dv_bypass_bar_idx :: int
  dv_regions_in_use :: bool
  dv_got_regions :: bool
  dv_user_max :: nat
  dv_c2h_channel_max :: nat
  dv_h2c_channel_max :: nat
  dv_irq_count :: nat
  dv_irq_line :: int
  dv_msi_enabled :: bool
  dv_msix_enabled :: bool
  dv_user_irq :: "xdma_user_irq list"
  dv_mask_irq_user :: u32
  dv_engines_num :: int
  dv_mask_irq_h2c :: u32
  dv_mask_irq_c2h :: u32

text \<open>Cleared structures, as \<open>memset\<close> and \<open>kzalloc\<close> leave them.\<close>

definition zero_result :: xdma_result where "zero_result = \<lparr>r_status = 0, r_length = 0\<rparr>"

definition zero_transfer :: xdma_transfer where
  "zero_transfer = \<lparr>x_desc_virt = ((0, H2C, 0), 0), x_res_virt = ((0, H2C, 0), 0), x_res_bus = 0,
     x_desc_bus = 0, x_desc_adjacent = 0, x_desc_num = 0, x_desc_index = 0, x_desc_cmpl = 0,
     x_desc_cmpl_th = 0, x_dir = DMA_BIDIRECTIONAL, x_state = TRANSFER_STATE_NEW, x_flags = 0,
     x_cyclic = False, x_last_in_request = False, x_len = 0, x_sgt = None, x_cb = None\<rparr>"

definition zero_engine :: xdma_engine where
  "zero_engine = \<lparr>e_magic = 0, e_xdev = None, e_name = [], e_regs = 0, e_sgdma_regs = 0,
     e_bypass_offset = 0, e_shutdown = 0, e_dir = DMA_BIDIRECTIONAL, e_addr_align = 0,
     e_len_granularity = 0, e_addr_bits = 0, e_channel = 0, e_streaming = False,
     e_running = False, e_non_incr_addr = False, e_eop_flush = False, e_desc_dequeued = 0,
     e_desc_max = 0, e_status = 0, e_interrupt_enable_mask_value = 0, e_transfer_list = [],
     e_cyclic_result = None, e_cyclic_result_bus = 0, e_poll_mode_addr_virt = None,
     e_poll_mode_bus = 0, e_prev_cpu = 0, e_msix_irq_line = 0, e_irq_bitmask = 0,
     e_desc_bus = 0, e_desc = None, e_desc_idx = 0, e_desc_used = 0, e_xdma_perf = False,
     e_cmplthp = None, e_intr_work_cpu = 0\<rparr>"

definition zero_dev :: xdma_dev where
  "zero_dev = \<lparr>dv_magic = 0, dv_pdev = 0, dv_idx = 0, dv_mod_name = [], dv_flags = 0,
     dv_bar = replicate XDMA_BAR_NUM 0, dv_user_bar_idx = 0, dv_config_bar_idx = 0,
     dv_bypass_bar_idx = 0, dv_regions_in_use = False, dv_got_regions = False, dv_user_max = 0,
     dv_c2h_channel_max = 0, dv_h2c_channel_max = 0, dv_irq_count = 0, dv_irq_line = 0,
     dv_msi_enabled = False, dv_msix_enabled = False,
     dv_user_irq = replicate 16 \<lparr>u_user_idx = 0, u_events_irq = 0, u_handler = None, u_dev = 0\<rparr>,
     dv_mask_irq_user = 0, dv_engines_num = 0, dv_mask_irq_h2c = 0, dv_mask_irq_c2h = 0\<rparr>"

text \<open>
  A thread that watches the writeback words of the engines on its work list (polled mode).
  The handlers \<open>fproc\<close> and \<open>fpending\<close> are only ever null or the two functions of
  xdma_thread.c; \<open>k_fproc\<close> says whether they are set.
\<close>

record xdma_kthread =
  k_name :: string
  k_cpu :: nat
  k_id :: nat
  k_timeout :: u32
  k_schedule :: bool
  k_task :: "nat option"
  k_work_cnt :: u32
  k_work_list :: "eng_id list"
  k_fproc :: bool

definition zero_kthread :: xdma_kthread where
  "zero_kthread = \<lparr>k_name = [], k_cpu = 0, k_id = 0, k_timeout = 0, k_schedule = False,
     k_task = None, k_work_cnt = 0, k_work_list = [], k_fproc = False\<rparr>"

text \<open>What the driver acquires from the kernel and has to give back.\<close>

datatype irq_cookie = Dev_cookie nat | Eng_cookie eng_id | User_cookie nat nat

datatype resource =
    R_coherent u64 nat
  | R_irq u32 irq_cookie
  | R_bar nat
  | R_pci nat
  | R_regions nat
  | R_msix nat
  | R_msi nat
  | R_dev nat
  | R_threads
  | R_task nat

text \<open>What the driver tells the rest of the kernel, in order, and the bytes it writes to buffers in memory.\<close>

datatype notice =
    Wake_shutdown eng_id
  | Wake_xfer xid
  | Io_done nat int
  | Schedule_work eng_id
  | Kthread_wakeup nat
  | Wake_user_events nat nat
  | Call_user_handler nat nat nat
  | Map_sg nat
  | Unmap_sg nat
  | Acquire resource
  | Release resource
  | Pci_write_config nat nat u16
  | Pcie_set_devctl nat u16
  | Pcie_set_readrq nat nat
  | Pci_set_master nat
  | Pci_set_consistent_dma_mask nat nat
  | Mem_write u64 "u8 list"
  | Pci_restore_state nat
  | Pci_save_state nat
  | Pci_aer_clear nat

record drv =
  iolog :: io_log
  engs :: "eng_id \<Rightarrow> xdma_engine"
  xfers :: "xid \<Rightarrow> xdma_transfer"
  devs :: "nat \<Rightarrow> xdma_dev"
  sgts :: "nat \<Rightarrow> sg_table"
  notices :: "notice list"
  xdev_list :: "nat list"
  cs_threads :: "xdma_kthread list option"
  thread_cnt :: nat

text \<open>
  The module parameters and the parts of the kernel and the hardware that the driver
  reads: parameters of the model.
\<close>

record kenv =
  poll_mode :: u32
  interrupt_mode :: u32
  enable_st_c2h_credit :: u32
  desc_blen_max :: u32
  ioread32 :: hardware
  get_cpu :: nat

subsection \<open>Access to the stores\<close>

definition upd_eng :: "eng_id \<Rightarrow> (xdma_engine \<Rightarrow> xdma_engine) \<Rightarrow> drv \<Rightarrow> drv" where
  "upd_eng e f s = s\<lparr>engs := (engs s)(e := f (engs s e))\<rparr>"

definition upd_xfer :: "xid \<Rightarrow> (xdma_transfer \<Rightarrow> xdma_transfer) \<Rightarrow> drv \<Rightarrow> drv" where
  "upd_xfer x f s = s\<lparr>xfers := (xfers s)(x := f (xfers s x))\<rparr>"

definition upd_dev :: "nat \<Rightarrow> (xdma_dev \<Rightarrow> xdma_dev) \<Rightarrow> drv \<Rightarrow> drv" where
  "upd_dev d f s = s\<lparr>devs := (devs s)(d := f (devs s d))\<rparr>"

definition upd_sgt :: "nat \<Rightarrow> (sg_table \<Rightarrow> sg_table) \<Rightarrow> drv \<Rightarrow> drv" where
  "upd_sgt g f s = s\<lparr>sgts := (sgts s)(g := f (sgts s g))\<rparr>"

definition upd_thread :: "nat \<Rightarrow> (xdma_kthread \<Rightarrow> xdma_kthread) \<Rightarrow> drv \<Rightarrow> drv" where
  "upd_thread i f s =
     s\<lparr>cs_threads := Some ((the (cs_threads s))[i := f (the (cs_threads s) ! i)])\<rparr>"

definition tell :: "notice \<Rightarrow> drv \<Rightarrow> drv" where
  "tell n s = s\<lparr>notices := notices s @ [n]\<rparr>"

definition write_register :: "u32 \<Rightarrow> nat \<Rightarrow> drv \<Rightarrow> drv" where
  "write_register v mem s = s\<lparr>iolog := iolog s @ [IoWrite mem v]\<rparr>"

definition read_register :: "'k kenv_scheme \<Rightarrow> nat \<Rightarrow> drv \<Rightarrow> u32 \<times> drv" where
  "read_register K mem s = (ioread32 K (iolog s) mem, s\<lparr>iolog := iolog s @ [IoRead mem]\<rparr>)"

definition xdma_kthread_wakeup :: "nat \<Rightarrow> drv \<Rightarrow> drv" where
  "xdma_kthread_wakeup i s =
     tell (Kthread_wakeup i) (upd_thread i (\<lambda>t. t\<lparr>k_schedule := True\<rparr>) s)"

lemma upd_eng_simps [simp]:
  "iolog (upd_eng e f s) = iolog s"
  "engs (upd_eng e f s) = (engs s)(e := f (engs s e))"
  "xfers (upd_eng e f s) = xfers s"
  "devs (upd_eng e f s) = devs s"
  "sgts (upd_eng e f s) = sgts s"
  "notices (upd_eng e f s) = notices s"
  "xdev_list (upd_eng e f s) = xdev_list s"
  "cs_threads (upd_eng e f s) = cs_threads s"
  "thread_cnt (upd_eng e f s) = thread_cnt s"
  by (simp_all add: upd_eng_def)

lemma upd_xfer_simps [simp]:
  "iolog (upd_xfer x g s) = iolog s"
  "engs (upd_xfer x g s) = engs s"
  "xfers (upd_xfer x g s) = (xfers s)(x := g (xfers s x))"
  "devs (upd_xfer x g s) = devs s"
  "sgts (upd_xfer x g s) = sgts s"
  "notices (upd_xfer x g s) = notices s"
  "xdev_list (upd_xfer x g s) = xdev_list s"
  "cs_threads (upd_xfer x g s) = cs_threads s"
  "thread_cnt (upd_xfer x g s) = thread_cnt s"
  by (simp_all add: upd_xfer_def)

lemma upd_dev_simps [simp]:
  "iolog (upd_dev d h s) = iolog s"
  "engs (upd_dev d h s) = engs s"
  "xfers (upd_dev d h s) = xfers s"
  "devs (upd_dev d h s) = (devs s)(d := h (devs s d))"
  "sgts (upd_dev d h s) = sgts s"
  "notices (upd_dev d h s) = notices s"
  "xdev_list (upd_dev d h s) = xdev_list s"
  "cs_threads (upd_dev d h s) = cs_threads s"
  "thread_cnt (upd_dev d h s) = thread_cnt s"
  by (simp_all add: upd_dev_def)

lemma upd_sgt_simps [simp]:
  "iolog (upd_sgt g f s) = iolog s"
  "engs (upd_sgt g f s) = engs s"
  "xfers (upd_sgt g f s) = xfers s"
  "devs (upd_sgt g f s) = devs s"
  "sgts (upd_sgt g f s) = (sgts s)(g := f (sgts s g))"
  "notices (upd_sgt g f s) = notices s"
  "xdev_list (upd_sgt g f s) = xdev_list s"
  "cs_threads (upd_sgt g f s) = cs_threads s"
  "thread_cnt (upd_sgt g f s) = thread_cnt s"
  by (simp_all add: upd_sgt_def)

lemma upd_thread_simps [simp]:
  "iolog (upd_thread i f s) = iolog s"
  "engs (upd_thread i f s) = engs s"
  "xfers (upd_thread i f s) = xfers s"
  "devs (upd_thread i f s) = devs s"
  "sgts (upd_thread i f s) = sgts s"
  "notices (upd_thread i f s) = notices s"
  "xdev_list (upd_thread i f s) = xdev_list s"
  "cs_threads (upd_thread i f s) = Some ((the (cs_threads s))[i := f (the (cs_threads s) ! i)])"
  "thread_cnt (upd_thread i f s) = thread_cnt s"
  by (simp_all add: upd_thread_def)

lemma tell_simps [simp]:
  "iolog (tell n s) = iolog s"
  "engs (tell n s) = engs s"
  "xfers (tell n s) = xfers s"
  "devs (tell n s) = devs s"
  "sgts (tell n s) = sgts s"
  "notices (tell n s) = notices s @ [n]"
  "xdev_list (tell n s) = xdev_list s"
  "cs_threads (tell n s) = cs_threads s"
  "thread_cnt (tell n s) = thread_cnt s"
  by (simp_all add: tell_def)

lemma write_register_simps [simp]:
  "iolog (write_register v m s) = iolog s @ [IoWrite m v]"
  "engs (write_register v m s) = engs s"
  "xfers (write_register v m s) = xfers s"
  "devs (write_register v m s) = devs s"
  "sgts (write_register v m s) = sgts s"
  "notices (write_register v m s) = notices s"
  "xdev_list (write_register v m s) = xdev_list s"
  "cs_threads (write_register v m s) = cs_threads s"
  "thread_cnt (write_register v m s) = thread_cnt s"
  by (simp_all add: write_register_def)

lemma read_register_simps [simp]:
  "iolog (snd (read_register K m s)) = iolog s @ [IoRead m]"
  "engs (snd (read_register K m s)) = engs s"
  "xfers (snd (read_register K m s)) = xfers s"
  "devs (snd (read_register K m s)) = devs s"
  "sgts (snd (read_register K m s)) = sgts s"
  "notices (snd (read_register K m s)) = notices s"
  "xdev_list (snd (read_register K m s)) = xdev_list s"
  "cs_threads (snd (read_register K m s)) = cs_threads s"
  "thread_cnt (snd (read_register K m s)) = thread_cnt s"
  "fst (read_register K m s) = ioread32 K (iolog s) m"
  by (simp_all add: read_register_def)

lemma kthread_wakeup_simps [simp]:
  "iolog (xdma_kthread_wakeup i s) = iolog s"
  "engs (xdma_kthread_wakeup i s) = engs s"
  "xfers (xdma_kthread_wakeup i s) = xfers s"
  "devs (xdma_kthread_wakeup i s) = devs s"
  "sgts (xdma_kthread_wakeup i s) = sgts s"
  "xdev_list (xdma_kthread_wakeup i s) = xdev_list s"
  "thread_cnt (xdma_kthread_wakeup i s) = thread_cnt s"
  "notices (xdma_kthread_wakeup i s) = notices s @ [Kthread_wakeup i]"
  by (simp_all add: xdma_kthread_wakeup_def)

lemma read_register_value: "fst (read_register K m s) = ioread32 K (iolog s) m"
  by simp

text \<open>How many of a resource the driver holds: acquisitions less releases.\<close>

definition held :: "resource \<Rightarrow> drv \<Rightarrow> int" where
  "held r s = int (count_list (notices s) (Acquire r)) - int (count_list (notices s) (Release r))"

lemma held_notices: "notices s' = notices s \<Longrightarrow> held r s' = held r s"
  by (simp add: held_def)

lemma held_append:
  "notices s' = notices s @ ns \<Longrightarrow>
   held r s' = held r s + int (count_list ns (Acquire r)) - int (count_list ns (Release r))"
  by (simp add: held_def)

lemma held_tell [simp]:
  "held r (tell n s) =
     held r s + (if n = Acquire r then 1 else 0) - (if n = Release r then 1 else 0)"
  by (simp add: held_def)

lemma held_simps [simp]:
  "held r (upd_eng e f s) = held r s" "held r (upd_xfer x g s) = held r s"
  "held r (upd_dev d h s) = held r s" "held r (upd_sgt k w s) = held r s"
  "held r (upd_thread i q s) = held r s" "held r (write_register v m s) = held r s"
  "held r (snd (read_register K m s)) = held r s" "held r (xdma_kthread_wakeup i s) = held r s"
  "held r (s\<lparr>cs_threads := ts\<rparr>) = held r s" "held r (s\<lparr>thread_cnt := n\<rparr>) = held r s"
  "held r (s\<lparr>xdev_list := ds\<rparr>) = held r s"
  by (simp_all add: held_def)

subsection \<open>Device flags\<close>

definition xdma_device_flag_check :: "nat \<Rightarrow> u32 \<Rightarrow> drv \<Rightarrow> int" where
  "xdma_device_flag_check d f s = (if dv_flags (devs s d) AND f \<noteq> 0 then 1 else 0)"

definition xdma_device_flag_set :: "nat \<Rightarrow> u32 \<Rightarrow> drv \<Rightarrow> drv" where
  "xdma_device_flag_set d f s = upd_dev d (\<lambda>v. v\<lparr>dv_flags := dv_flags v OR f\<rparr>) s"

definition xdma_device_flag_clear :: "nat \<Rightarrow> u32 \<Rightarrow> drv \<Rightarrow> drv" where
  "xdma_device_flag_clear d f s = upd_dev d (\<lambda>v. v\<lparr>dv_flags := dv_flags v AND NOT f\<rparr>) s"

text \<open>
  \<open>xdma_device_flag_test_n_set\<close> (nobody calls it) with its lock operations made visible:
  the list holds the lock (\<open>True\<close>) and unlock (\<open>False\<close>) calls in order.
\<close>

definition xdma_device_flag_test_n_set ::
  "nat \<Rightarrow> u32 \<Rightarrow> drv \<Rightarrow> int \<times> bool list \<times> drv" where
  "xdma_device_flag_test_n_set d f s =
     (if dv_flags (devs s d) AND f \<noteq> 0 then (1, [True, False, False], s)
      else (0, [True, False], upd_dev d (\<lambda>v. v\<lparr>dv_flags := dv_flags v OR f\<rparr>) s))"

lemma flag_check_set [simp]:
  "f \<noteq> 0 \<Longrightarrow> xdma_device_flag_check d f (xdma_device_flag_set d f s) = 1"
  by (simp add: xdma_device_flag_check_def xdma_device_flag_set_def word_or_and_absorb)

lemma flag_check_clear [simp]:
  "xdma_device_flag_check d f (xdma_device_flag_clear d f s) = 0"
  by (simp add: xdma_device_flag_check_def xdma_device_flag_clear_def word_and_not_and)

subsection \<open>A small configuration\<close>

text \<open>
  An idle H2C engine with four descriptors and a host whose hardware reports \<open>count\<close>
  completed descriptors: the concrete input of the examples in the later theories.
\<close>

definition sample_engine :: xdma_engine where
  "sample_engine = zero_engine
     \<lparr>e_magic := MAGIC_ENGINE, e_xdev := Some 0, e_sgdma_regs := 0x4000, e_dir := DMA_TO_DEVICE,
      e_desc_bus := 0x10000, e_desc_max := 4, e_desc := Some (replicate 4 zero_desc)\<rparr>"

definition sample_dev :: xdma_dev where
  "sample_dev = zero_dev\<lparr>dv_magic := MAGIC_DEVICE, dv_pdev := 1, dv_h2c_channel_max := 1\<rparr>"

definition sample_drv :: drv where
  "sample_drv = \<lparr>iolog = [], engs = (\<lambda>_. sample_engine), xfers = (\<lambda>_. zero_transfer),
     devs = (\<lambda>_. sample_dev), sgts = (\<lambda>_. \<lparr>sgl = [], nents = 0, orig_nents = 0\<rparr>), notices = [],
     xdev_list = [0], cs_threads = None, thread_cnt = 0\<rparr>"

definition sample_env :: "u32 \<Rightarrow> kenv" where
  "sample_env count = \<lparr>poll_mode = 0, interrupt_mode = 0, enable_st_c2h_credit = 0,
     desc_blen_max = 256, ioread32 = (\<lambda>l a. if a = er_completed_desc_count then count else 0),
     get_cpu = 0\<rparr>"

lemma sample_fields [simp]:
  "engs sample_drv e = sample_engine" "xfers sample_drv t = zero_transfer" "devs sample_drv d = sample_dev"
  "iolog sample_drv = []" "notices sample_drv = []"
  "e_xdev sample_engine = Some 0" "e_dir sample_engine = DMA_TO_DEVICE" "e_desc_idx sample_engine = 0"
  "e_desc_bus sample_engine = 0x10000" "e_desc_max sample_engine = 4"
  "e_desc sample_engine = Some (replicate 4 zero_desc)" "e_streaming sample_engine = False"
  "e_non_incr_addr sample_engine = False" "e_transfer_list sample_engine = []"
  "e_eop_flush sample_engine = False" "e_running sample_engine = False"
  "e_shutdown sample_engine = 0" "e_regs sample_engine = 0" "e_sgdma_regs sample_engine = 0x4000"
  "e_xdma_perf sample_engine = False" "e_desc_dequeued sample_engine = 0"
  "xdev_list sample_drv = [0]" "dv_flags sample_dev = 0" "dv_pdev sample_dev = 1"
  "dv_h2c_channel_max sample_dev = 1" "e_magic sample_engine = MAGIC_ENGINE" "e_cmplthp sample_engine = None"
  "x_cyclic zero_transfer = False" "x_desc_num zero_transfer = 0"
  "x_state zero_transfer = TRANSFER_STATE_NEW"
  by (simp_all add: sample_engine_def sample_drv_def sample_dev_def zero_engine_def zero_dev_def zero_transfer_def)

lemmas sample_defs = sample_engine_def sample_drv_def sample_env_def zero_engine_def
  zero_transfer_def zero_dev_def

end
