(* ===== verification/Xdma_Engine.thy ===== *)
theory Xdma_Engine
  imports Xdma_State
begin

text \<open>
  The DMA engine of src/src/libxdma.c: starting and stopping the hardware, queueing
  transfers, and servicing completions from the interrupt work item or from the
  writeback poll. The transfer list of an engine holds the names of its transfers, head
  first; \<open>list_del (engine->transfer_list.next)\<close> is \<open>tl\<close>.
\<close>

subsection \<open>Interrupt controller registers\<close>

definition config_base :: "drv \<Rightarrow> nat \<Rightarrow> nat" where
  "config_base s d = dv_bar (devs s d) ! nat (dv_config_bar_idx (devs s d))"

definition channel_interrupts_enable :: "nat \<Rightarrow> u32 \<Rightarrow> drv \<Rightarrow> drv" where
  "channel_interrupts_enable d msk s =
     write_register msk (config_base s d + XDMA_OFS_INT_CTRL + ir_channel_int_enable_w1s) s"

definition channel_interrupts_disable :: "nat \<Rightarrow> u32 \<Rightarrow> drv \<Rightarrow> drv" where
  "channel_interrupts_disable d msk s =
     write_register msk (config_base s d + XDMA_OFS_INT_CTRL + ir_channel_int_enable_w1c) s"

definition user_interrupts_enable :: "nat \<Rightarrow> u32 \<Rightarrow> drv \<Rightarrow> drv" where
  "user_interrupts_enable d msk s =
     write_register msk (config_base s d + XDMA_OFS_INT_CTRL + ir_user_int_enable_w1s) s"

definition user_interrupts_disable :: "nat \<Rightarrow> u32 \<Rightarrow> drv \<Rightarrow> drv" where
  "user_interrupts_disable d msk s =
     write_register msk (config_base s d + XDMA_OFS_INT_CTRL + ir_user_int_enable_w1c) s"

definition read_interrupts :: "'k kenv_scheme \<Rightarrow> nat \<Rightarrow> drv \<Rightarrow> u32 \<times> drv" where
  "read_interrupts K d s =
     (let reg = config_base s d + XDMA_OFS_INT_CTRL;
          (hi, s) = read_register K (reg + ir_user_int_request) s;
          (lo, s) = read_register K (reg + ir_channel_int_request) s
      in (build_u32 hi lo, s))"

definition enable_perf :: "'k kenv_scheme \<Rightarrow> eng_id \<Rightarrow> drv \<Rightarrow> drv" where
  "enable_perf K e s =
     (let regs = e_regs (engs s e);
          w = XDMA_PERF_CLEAR;
          s = write_register w (regs + er_perf_ctrl) s;
          s = snd (read_register K (regs + er_identifier) s);
          w = XDMA_PERF_AUTO OR XDMA_PERF_RUN;
          s = write_register w (regs + er_perf_ctrl) s
      in snd (read_register K (regs + er_identifier) s))"

subsection \<open>Status\<close>

definition engine_reg_dump :: "'k kenv_scheme \<Rightarrow> eng_id option \<Rightarrow> drv \<Rightarrow> int \<times> drv" where
  "engine_reg_dump K engine s =
     (case engine of None \<Rightarrow> (- EINVAL, s)
      | Some e \<Rightarrow>
        (let regs = e_regs (engs s e); sgdma = e_sgdma_regs (engs s e);
             (w, s) = read_register K (regs + er_identifier) s;
             w = w AND BLOCK_ID_MASK
         in if w \<noteq> BLOCK_ID_HEAD then (- EINVAL, s)
         else let s = snd (read_register K (regs + er_status) s);
                  s = snd (read_register K (regs + er_control) s);
                  s = snd (read_register K (sgdma + sg_first_desc_lo) s);
                  s = snd (read_register K (sgdma + sg_first_desc_hi) s);
                  s = snd (read_register K (sgdma + sg_first_desc_adjacent) s);
                  s = snd (read_register K (regs + er_completed_desc_count) s);
                  s = snd (read_register K (regs + er_interrupt_enable_mask) s)
              in (0, s)))"

definition engine_status_read ::
  "'k kenv_scheme \<Rightarrow> eng_id option \<Rightarrow> bool \<Rightarrow> bool \<Rightarrow> drv \<Rightarrow> int \<times> drv" where
  "engine_status_read K engine clear dump s =
     (case engine of None \<Rightarrow> (- EINVAL, s)
      | Some e \<Rightarrow>
        (let (rv, s) = (if dump then engine_reg_dump K (Some e) s else (0, s))
         in if dump \<and> rv < 0 then (rv, s)
         else let (w, s) = read_register K (e_regs (engs s e) +
                             (if clear then er_status_rc else er_status)) s
              in (rv, upd_eng e (\<lambda>g. g\<lparr>e_status := w\<rparr>) s)))"

subsection \<open>Start and stop\<close>

definition st_c2h_credit :: "'k kenv_scheme \<Rightarrow> xdma_engine \<Rightarrow> bool" where
  "st_c2h_credit K g \<longleftrightarrow>
     enable_st_c2h_credit K \<noteq> 0 \<and> e_streaming g \<and> e_dir g = DMA_FROM_DEVICE"

definition xdma_engine_stop :: "'k kenv_scheme \<Rightarrow> eng_id option \<Rightarrow> drv \<Rightarrow> int \<times> drv" where
  "xdma_engine_stop K engine s =
     (case engine of None \<Rightarrow> (- EINVAL, s)
      | Some e \<Rightarrow>
        (let g = engs s e;
             s = (if st_c2h_credit K g then write_register 0 (e_sgdma_regs g + sg_credits) s else s);
             w = 0;
             w = w OR XDMA_CTRL_IE_DESC_ALIGN_MISMATCH;
             w = w OR XDMA_CTRL_IE_MAGIC_STOPPED;
             w = w OR XDMA_CTRL_IE_READ_ERROR;
             w = w OR XDMA_CTRL_IE_DESC_ERROR;
             w = (if poll_mode K \<noteq> 0 then w OR XDMA_CTRL_POLL_MODE_WB
                  else w OR XDMA_CTRL_IE_DESC_STOPPED OR XDMA_CTRL_IE_DESC_COMPLETED);
             s = write_register w (e_regs g + er_control) s;
             s = upd_eng e (\<lambda>g. g\<lparr>e_running := False\<rparr>) s
         in (0, s)))"

definition engine_start_mode_config ::
  "'k kenv_scheme \<Rightarrow> eng_id option \<Rightarrow> drv \<Rightarrow> int \<times> drv" where
  "engine_start_mode_config K engine s =
     (case engine of None \<Rightarrow> (- EINVAL, s)
      | Some e \<Rightarrow>
        (let g = engs s e;
             s = (if e_xdma_perf g
                  then write_register
                    (XDMA_CTRL_IE_DESC_STOPPED OR XDMA_CTRL_IE_DESC_COMPLETED OR
                     XDMA_CTRL_IE_DESC_ALIGN_MISMATCH OR XDMA_CTRL_IE_MAGIC_STOPPED OR
                     XDMA_CTRL_IE_IDLE_STOPPED OR XDMA_CTRL_IE_READ_ERROR OR
                     XDMA_CTRL_IE_DESC_ERROR)
                    (e_regs g + er_interrupt_enable_mask) s
                  else s);
             w = XDMA_CTRL_RUN_STOP;
             w = w OR XDMA_CTRL_IE_READ_ERROR;
             w = w OR XDMA_CTRL_IE_DESC_ERROR;
             w = w OR XDMA_CTRL_IE_DESC_ALIGN_MISMATCH;
             w = w OR XDMA_CTRL_IE_MAGIC_STOPPED;
             w = (if poll_mode K \<noteq> 0 then w OR XDMA_CTRL_POLL_MODE_WB
                  else w OR XDMA_CTRL_IE_DESC_STOPPED OR XDMA_CTRL_IE_DESC_COMPLETED);
             w = (if e_non_incr_addr g then w OR XDMA_CTRL_NON_INCR_ADDR else w);
             s = write_register w (e_regs g + er_control) s;
             s = snd (read_register K (e_regs g + er_status) s)
         in (0, s)))"

definition engine_start :: "'k kenv_scheme \<Rightarrow> eng_id option \<Rightarrow> drv \<Rightarrow> xid option \<times> drv" where
  "engine_start K engine s =
     (case engine of None \<Rightarrow> (None, s)
      | Some e \<Rightarrow>
        if e_running (engs s e) then (None, s)
        else (case e_transfer_list (engs s e) of
                [] \<Rightarrow> (None, s)
              | transfer # _ \<Rightarrow>
          (let s = upd_eng e (\<lambda>g. g\<lparr>e_shutdown := ENGINE_SHUTDOWN_NONE\<rparr>) s;
               g = engs s e;
               s = (if st_c2h_credit K g
                    then write_register (e_desc_used g) (e_sgdma_regs g + sg_credits) s else s);
               s = upd_eng e (\<lambda>g. g\<lparr>e_desc_dequeued := 0\<rparr>) s;
               x = xfers s transfer;
               s = write_register (PCI_DMA_L (x_desc_bus x)) (e_sgdma_regs g + sg_first_desc_lo) s;
               s = write_register (PCI_DMA_H (x_desc_bus x)) (e_sgdma_regs g + sg_first_desc_hi) s;
               next_adj = xdma_get_next_adj (x_desc_adjacent x) (PCI_DMA_L (x_desc_bus x));
               s = write_register next_adj (e_sgdma_regs g + sg_first_desc_adjacent) s;
               (rv, s) = engine_start_mode_config K (Some e) s
           in if rv < 0 then (None, s)
           else let (rv, s) = engine_status_read K (Some e) False False s
           in if rv < 0 then (None, s)
           else (Some transfer, upd_eng e (\<lambda>g. g\<lparr>e_running := True\<rparr>) s))))"

subsection \<open>Service\<close>

definition engine_service_shutdown :: "'k kenv_scheme \<Rightarrow> eng_id \<Rightarrow> drv \<Rightarrow> int \<times> drv" where
  "engine_service_shutdown K e s =
     (let (rv, s) = xdma_engine_stop K (Some e) s
      in if rv < 0 then (rv, s) else (0, tell (Wake_shutdown e) s))"

definition engine_transfer_completion ::
  "eng_id option \<Rightarrow> xid option \<Rightarrow> drv \<Rightarrow> xid option \<times> drv" where
  "engine_transfer_completion engine transfer s =
     (case engine of None \<Rightarrow> (None, s)
      | Some e \<Rightarrow>
        (case transfer of None \<Rightarrow> (None, s)
         | Some t \<Rightarrow>
           (let s = tell (Wake_xfer t) s;
                s = (case x_cb (xfers s t) of
                       Some cb \<Rightarrow> if x_last_in_request (xfers s t) then tell (Io_done cb 0) s else s
                     | None \<Rightarrow> s)
            in (Some t, s))))"

text \<open>
  The loop of \<open>engine_service_transfer_list\<close>. Each round removes the head of the queue,
  so the queue's length bounds it.
\<close>

function service_list_loop ::
  "eng_id \<Rightarrow> xid option \<Rightarrow> u32 \<Rightarrow> drv \<Rightarrow> xid option \<times> u32 \<times> drv" where
  "service_list_loop e transfer desc_completed s =
     (case transfer of None \<Rightarrow> (None, desc_completed, s)
      | Some t \<Rightarrow>
        if \<not> x_cyclic (xfers s t) \<and> x_desc_num (xfers s t) < desc_completed
        then let desc_completed = desc_completed - x_desc_num (xfers s t);
                 s = upd_eng e (\<lambda>g. g\<lparr>e_transfer_list := tl (e_transfer_list g)\<rparr>) s;
                 s = upd_eng e (\<lambda>g. g\<lparr>e_desc_dequeued := e_desc_dequeued g +
                                        x_desc_num (xfers s t)\<rparr>) s;
                 s = upd_xfer t (\<lambda>x. x\<lparr>x_state := TRANSFER_STATE_COMPLETED\<rparr>) s;
                 (t', s) = engine_transfer_completion (Some e) (Some t) s;
                 transfer = (case e_transfer_list (engs s e) of [] \<Rightarrow> None | h # _ \<Rightarrow> Some h)
             in service_list_loop e transfer desc_completed s
        else (Some t, desc_completed, s))"
  by pat_completeness auto

lemma engine_transfer_completion_keeps [simp]:
  "engs (snd (engine_transfer_completion eo t s)) = engs s"
  "xfers (snd (engine_transfer_completion eo t s)) = xfers s"
  "devs (snd (engine_transfer_completion eo t s)) = devs s"
  "iolog (snd (engine_transfer_completion eo t s)) = iolog s"
  "sgts (snd (engine_transfer_completion eo t s)) = sgts s" "xdev_list (snd (engine_transfer_completion eo t s)) = xdev_list s"
  "cs_threads (snd (engine_transfer_completion eo t s)) = cs_threads s" "thread_cnt (snd (engine_transfer_completion eo t s)) = thread_cnt s"
  "fst (engine_transfer_completion (Some e) (Some x) s) = Some x"
  by (auto simp: engine_transfer_completion_def Let_def split: option.splits)

termination service_list_loop
proof (relation "measure (\<lambda>(e, t, c, s). case t of None \<Rightarrow> 0
        | Some _ \<Rightarrow> Suc (length (e_transfer_list (engs s e))))", goal_cases)
  case (2 e transfer desc_completed s t d s1 s2 s3 p t' s4 tr)
  then have "engs s4 e = (engs s3) e"
    by (metis engine_transfer_completion_keeps(1) snd_conv)
  with 2 show ?case
    by (cases "e_transfer_list (engs s e)") (auto split: list.splits)
qed simp

declare service_list_loop.simps [simp del]

definition engine_service_transfer_list ::
  "eng_id option \<Rightarrow> xid option \<Rightarrow> u32 option \<Rightarrow> drv \<Rightarrow> xid option \<times> u32 option \<times> drv" where
  "engine_service_transfer_list engine transfer pdesc_completed s =
     (case engine of None \<Rightarrow> (None, pdesc_completed, s)
      | Some e \<Rightarrow>
        (case pdesc_completed of None \<Rightarrow> (None, None, s)
         | Some c \<Rightarrow>
           (case transfer of None \<Rightarrow> (None, Some c, s)
            | Some t \<Rightarrow>
              (let (t', c', s) = service_list_loop e (Some t) c s in (t', Some c', s)))))"

definition engine_err_handle ::
  "'k kenv_scheme \<Rightarrow> eng_id \<Rightarrow> xid \<Rightarrow> u32 \<Rightarrow> drv \<Rightarrow> int \<times> drv" where
  "engine_err_handle K e t desc_completed s =
     (let s = (if e_status (engs s e) AND XDMA_STAT_BUSY \<noteq> 0
               then snd (read_register K (e_regs (engs s e) + er_status) s) else s);
          s = upd_xfer t (\<lambda>x. x\<lparr>x_state := TRANSFER_STATE_FAILED\<rparr>) s
      in xdma_engine_stop K (Some e) s)"

text \<open>Results lie in the engine's result array; a transfer's results start at its pointer.\<close>

definition result_at :: "drv \<Rightarrow> mem_ptr \<Rightarrow> nat \<Rightarrow> xdma_result" where
  "result_at s p i =
     (case e_cyclic_result (engs s (fst p)) of
        Some rs \<Rightarrow> if snd p + i < length rs then rs ! (snd p + i) else zero_result
      | None \<Rightarrow> zero_result)"

definition status_error :: "xdma_engine \<Rightarrow> bool" where
  "status_error g \<longleftrightarrow>
     (e_dir g = DMA_FROM_DEVICE \<and> e_status g AND XDMA_STAT_C2H_ERR_MASK \<noteq> 0) \<or>
     (e_dir g = DMA_TO_DEVICE \<and> e_status g AND XDMA_STAT_H2C_ERR_MASK \<noteq> 0)"

text \<open>The label \<open>transfer_del\<close> of \<open>engine_service_final_transfer\<close>.\<close>

definition transfer_del :: "eng_id \<Rightarrow> xid \<Rightarrow> drv \<Rightarrow> xid option \<times> drv" where
  "transfer_del e t s =
     engine_transfer_completion (Some e) (Some t)
       (upd_eng e (\<lambda>g. g\<lparr>e_transfer_list := tl (e_transfer_list g)\<rparr>) s)"

definition engine_service_final_transfer ::
  "'k kenv_scheme \<Rightarrow> eng_id option \<Rightarrow> xid option \<Rightarrow> u32 option \<Rightarrow> drv \<Rightarrow> xid option \<times> drv" where
  "engine_service_final_transfer K engine transfer pdesc_completed s =
     (case engine of None \<Rightarrow> (None, s)
      | Some e \<Rightarrow>
        (case pdesc_completed of None \<Rightarrow> (None, s)
         | Some c \<Rightarrow>
           (case transfer of None \<Rightarrow> (None, s)
            | Some t \<Rightarrow>
        if status_error (engs s e)
        then transfer_del e t (snd (engine_err_handle K e t c s))
        else if c < x_desc_num (xfers s t)
        then if e_eop_flush (engs s e)
             then let eop = list_ex (\<lambda>i. r_status (result_at s (x_res_virt (xfers s t)) i)
                                           AND RX_STATUS_EOP \<noteq> 0) [0..<unat c];
                      s = (if eop then upd_xfer t (\<lambda>x. x\<lparr>x_flags := x_flags x OR
                                                       XFER_FLAG_ST_C2H_EOP_RCVED\<rparr>) s
                           else s);
                      s = upd_xfer t (\<lambda>x. x\<lparr>x_desc_cmpl := x_desc_cmpl x + c\<rparr>) s
                  in if x_flags (xfers s t) AND XFER_FLAG_ST_C2H_EOP_RCVED = 0 then (None, s)
                     else let s = snd (engine_service_shutdown K e s);
                              s = upd_xfer t (\<lambda>x. x\<lparr>x_state := TRANSFER_STATE_COMPLETED\<rparr>) s;
                              s = upd_eng e (\<lambda>g. g\<lparr>e_desc_dequeued := e_desc_dequeued g +
                                                     x_desc_cmpl (xfers s t)\<rparr>) s
                          in transfer_del e t s
             else let s = upd_xfer t (\<lambda>x. x\<lparr>x_state := TRANSFER_STATE_FAILED\<rparr>) s;
                      s = upd_eng e (\<lambda>g. g\<lparr>e_desc_dequeued := e_desc_dequeued g +
                                             x_desc_num (xfers s t)\<rparr>) s;
                      s = upd_xfer t (\<lambda>x. x\<lparr>x_desc_cmpl := c\<rparr>) s
                  in transfer_del e t s
        else let s = upd_xfer t (\<lambda>x. x\<lparr>x_state := TRANSFER_STATE_COMPLETED\<rparr>) s;
                 s = upd_xfer t (\<lambda>x. x\<lparr>x_desc_cmpl := x_desc_num x\<rparr>) s;
                 s = upd_eng e (\<lambda>g. g\<lparr>e_desc_dequeued := e_desc_dequeued g +
                                        x_desc_num (xfers s t)\<rparr>) s
             in transfer_del e t s)))"

definition engine_service_perf :: "eng_id option \<Rightarrow> u32 \<Rightarrow> int" where
  "engine_service_perf engine desc_completed = (case engine of None \<Rightarrow> - EINVAL | Some e \<Rightarrow> 0)"

definition engine_service_resume :: "'k kenv_scheme \<Rightarrow> eng_id option \<Rightarrow> drv \<Rightarrow> int \<times> drv" where
  "engine_service_resume K engine s =
     (case engine of None \<Rightarrow> (- EINVAL, s)
      | Some e \<Rightarrow>
        if \<not> e_running (engs s e)
        then if e_transfer_list (engs s e) \<noteq> []
             then let (started, s) = engine_start K (Some e) s
                  in (case started of None \<Rightarrow> (- EINVAL, s) | Some _ \<Rightarrow> (0, s))
             else if e_shutdown (engs s e) AND ENGINE_SHUTDOWN_REQUEST \<noteq> 0
             then (0, tell (Wake_shutdown e)
                        (upd_eng e (\<lambda>g. g\<lparr>e_shutdown := e_shutdown g OR ENGINE_SHUTDOWN_IDLE\<rparr>) s))
             else (0, s)
        else if e_transfer_list (engs s e) = []
        then (0, snd (engine_service_shutdown K e s))
        else (0, s))"

text \<open>
  The first half of \<open>engine_service\<close>, for a running engine: read and clear the status
  where an error or an interrupt calls for it, stop an engine that is no longer busy, and
  find out how many descriptors were completed.
\<close>

definition service_entry :: "'k kenv_scheme \<Rightarrow> eng_id \<Rightarrow> u32 \<Rightarrow> drv \<Rightarrow> int \<times> u32 \<times> drv" where
  "service_entry K e desc_writeback s =
     (let desc_count = desc_writeback AND WB_COUNT_MASK;
          err_flag = desc_writeback AND WB_ERR_MASK;
          (rv, s) = (if desc_count = 0 \<or> err_flag \<noteq> 0
                     then engine_status_read K (Some e) True False s else (0, s))
      in if rv < 0 then (rv, desc_count, s)
      else let (rv, s) =
             (if (e_running (engs s e) \<and> e_status (engs s e) AND XDMA_STAT_BUSY = 0) \<or>
                 (\<not> e_eop_flush (engs s e) \<and> desc_count \<noteq> 0)
              then engine_service_shutdown K e s else (0, s))
      in if rv < 0 then (rv, desc_count, s)
      else let (desc_count, s) =
             (if desc_count = 0
              then read_register K (e_regs (engs s e) + er_completed_desc_count) s
              else (desc_count, s))
      in (0, desc_count, s))"

definition engine_service :: "'k kenv_scheme \<Rightarrow> eng_id option \<Rightarrow> u32 \<Rightarrow> drv \<Rightarrow> int \<times> drv" where
  "engine_service K engine desc_writeback s =
     (let err_flag = desc_writeback AND WB_ERR_MASK
      in case engine of None \<Rightarrow> (- EINVAL, s)
      | Some e \<Rightarrow>
        if \<not> e_running (engs s e)
        then let (rv, s) = engine_status_read K (Some e) True False s
             in if rv < 0 then (rv, s) else (0, s)
        else
          let (rv, desc_count, s) = service_entry K e desc_writeback s
          in if rv < 0 then (rv, s)
          else if desc_count = 0 then (if err_flag \<noteq> 0 then -1 else 0, s)
          else let transfer = (case e_transfer_list (engs s e) of [] \<Rightarrow> None | h # _ \<Rightarrow> Some h);
                   rv = (case transfer of None \<Rightarrow> 0
                         | Some _ \<Rightarrow> engine_service_perf (Some e) desc_count)
          in if rv < 0 then (rv, s)
          else let desc_count = desc_count - e_desc_dequeued (engs s e);
                   (transfer, pdesc, s) =
                     engine_service_transfer_list (Some e) transfer (Some desc_count) s;
                   (transfer, s) = engine_service_final_transfer K (Some e) transfer pdesc s;
                   s = (if \<not> e_eop_flush (engs s e)
                        then snd (engine_service_resume K (Some e) s) else s)
          in (if err_flag \<noteq> 0 then -1 else 0, s))"

definition engine_service_work :: "'k kenv_scheme \<Rightarrow> eng_id \<Rightarrow> drv \<Rightarrow> drv" where
  "engine_service_work K e s =
     (if e_magic (engs s e) \<noteq> MAGIC_ENGINE then s
      else let (rv, s) = engine_service K (Some e) 0 s
      in if rv < 0 then s
      else if dv_msix_enabled (devs s (the (e_xdev (engs s e))))
      then write_register (e_interrupt_enable_mask_value (engs s e))
             (e_regs (engs s e) + er_interrupt_enable_mask_w1s) s
      else channel_interrupts_enable (the (e_xdev (engs s e))) (e_irq_bitmask (engs s e)) s)"

subsection \<open>What the operations leave alone\<close>

lemma interrupt_control_keeps [simp]:
  "engs (channel_interrupts_enable d m s) = engs s" "xfers (channel_interrupts_enable d m s) = xfers s"
  "devs (channel_interrupts_enable d m s) = devs s" "notices (channel_interrupts_enable d m s) = notices s" "sgts (channel_interrupts_enable d m s) = sgts s" "xdev_list (channel_interrupts_enable d m s) = xdev_list s"
  "cs_threads (channel_interrupts_enable d m s) = cs_threads s" "thread_cnt (channel_interrupts_enable d m s) = thread_cnt s"
  "engs (channel_interrupts_disable d m s) = engs s" "xfers (channel_interrupts_disable d m s) = xfers s"
  "devs (channel_interrupts_disable d m s) = devs s" "notices (channel_interrupts_disable d m s) = notices s" "sgts (channel_interrupts_disable d m s) = sgts s" "xdev_list (channel_interrupts_disable d m s) = xdev_list s"
  "cs_threads (channel_interrupts_disable d m s) = cs_threads s" "thread_cnt (channel_interrupts_disable d m s) = thread_cnt s"
  "engs (user_interrupts_enable d m s) = engs s" "xfers (user_interrupts_enable d m s) = xfers s"
  "devs (user_interrupts_enable d m s) = devs s" "notices (user_interrupts_enable d m s) = notices s" "sgts (user_interrupts_enable d m s) = sgts s" "xdev_list (user_interrupts_enable d m s) = xdev_list s"
  "cs_threads (user_interrupts_enable d m s) = cs_threads s" "thread_cnt (user_interrupts_enable d m s) = thread_cnt s"
  "engs (user_interrupts_disable d m s) = engs s" "xfers (user_interrupts_disable d m s) = xfers s"
  "devs (user_interrupts_disable d m s) = devs s" "notices (user_interrupts_disable d m s) = notices s" "sgts (user_interrupts_disable d m s) = sgts s" "xdev_list (user_interrupts_disable d m s) = xdev_list s"
  "cs_threads (user_interrupts_disable d m s) = cs_threads s" "thread_cnt (user_interrupts_disable d m s) = thread_cnt s"
  by (simp_all add: channel_interrupts_enable_def channel_interrupts_disable_def
      user_interrupts_enable_def user_interrupts_disable_def)

lemma read_interrupts_keeps [simp]:
  "engs (snd (read_interrupts K d s)) = engs s" "xfers (snd (read_interrupts K d s)) = xfers s"
  "devs (snd (read_interrupts K d s)) = devs s" "notices (snd (read_interrupts K d s)) = notices s" "sgts (snd (read_interrupts K d s)) = sgts s" "xdev_list (snd (read_interrupts K d s)) = xdev_list s"
  "cs_threads (snd (read_interrupts K d s)) = cs_threads s" "thread_cnt (snd (read_interrupts K d s)) = thread_cnt s"
  by (simp_all add: read_interrupts_def Let_def case_prod_unfold)

lemma engine_reg_dump_keeps [simp]:
  "engs (snd (engine_reg_dump K eo s)) = engs s" "xfers (snd (engine_reg_dump K eo s)) = xfers s"
  "devs (snd (engine_reg_dump K eo s)) = devs s"
  "notices (snd (engine_reg_dump K eo s)) = notices s" "sgts (snd (engine_reg_dump K eo s)) = sgts s" "xdev_list (snd (engine_reg_dump K eo s)) = xdev_list s"
  "cs_threads (snd (engine_reg_dump K eo s)) = cs_threads s" "thread_cnt (snd (engine_reg_dump K eo s)) = thread_cnt s"
  by (auto simp: engine_reg_dump_def Let_def case_prod_unfold split: option.splits)

lemma engine_status_read_keeps [simp]:
  "xfers (snd (engine_status_read K eo c d s)) = xfers s"
  "devs (snd (engine_status_read K eo c d s)) = devs s"
  "notices (snd (engine_status_read K eo c d s)) = notices s" "sgts (snd (engine_status_read K eo c d s)) = sgts s" "xdev_list (snd (engine_status_read K eo c d s)) = xdev_list s"
  "cs_threads (snd (engine_status_read K eo c d s)) = cs_threads s" "thread_cnt (snd (engine_status_read K eo c d s)) = thread_cnt s"
  by (auto simp: engine_status_read_def Let_def case_prod_unfold split: option.splits)

lemma engine_status_read_nodump [simp]:
  "fst (engine_status_read K (Some e) c False s) = 0"
  "engs (snd (engine_status_read K (Some e) c False s)) =
     (engs s)(e := (engs s e)\<lparr>e_status := ioread32 K (iolog s)
        (e_regs (engs s e) + (if c then er_status_rc else er_status))\<rparr>)"
  by (simp_all add: engine_status_read_def Let_def case_prod_unfold)

lemma engine_status_read_dump:
  "\<exists>w. engs (snd (engine_status_read K (Some e) c True s)) = (engs s)(e := (engs s e)\<lparr>e_status := w\<rparr>)"
proof (cases "fst (engine_reg_dump K (Some e) s) < 0")
  case True
  then have "engs (snd (engine_status_read K (Some e) c True s))
             = (engs s)(e := (engs s e)\<lparr>e_status := e_status (engs s e)\<rparr>)"
    by (simp add: engine_status_read_def Let_def case_prod_unfold)
  then show ?thesis by blast
next
  case False
  then show ?thesis by (auto simp: engine_status_read_def Let_def case_prod_unfold)
qed

lemma xdma_engine_stop_simps [simp]:
  "fst (xdma_engine_stop K (Some e) s) = 0"
  "engs (snd (xdma_engine_stop K (Some e) s)) = (engs s)(e := (engs s e)\<lparr>e_running := False\<rparr>)"
  "xfers (snd (xdma_engine_stop K eo s)) = xfers s"
  "devs (snd (xdma_engine_stop K eo s)) = devs s"
  "notices (snd (xdma_engine_stop K eo s)) = notices s" "sgts (snd (xdma_engine_stop K eo s)) = sgts s" "xdev_list (snd (xdma_engine_stop K eo s)) = xdev_list s"
  "cs_threads (snd (xdma_engine_stop K eo s)) = cs_threads s" "thread_cnt (snd (xdma_engine_stop K eo s)) = thread_cnt s"
  by (auto simp: xdma_engine_stop_def Let_def split: option.splits)

lemma engine_start_mode_config_simps [simp]:
  "fst (engine_start_mode_config K (Some e) s) = 0"
  "engs (snd (engine_start_mode_config K eo s)) = engs s"
  "xfers (snd (engine_start_mode_config K eo s)) = xfers s"
  "devs (snd (engine_start_mode_config K eo s)) = devs s"
  "notices (snd (engine_start_mode_config K eo s)) = notices s" "sgts (snd (engine_start_mode_config K eo s)) = sgts s" "xdev_list (snd (engine_start_mode_config K eo s)) = xdev_list s"
  "cs_threads (snd (engine_start_mode_config K eo s)) = cs_threads s" "thread_cnt (snd (engine_start_mode_config K eo s)) = thread_cnt s"
  by (auto simp: engine_start_mode_config_def Let_def split: option.splits)

lemma engine_start_keeps [simp]:
  "xfers (snd (engine_start K eo s)) = xfers s"
  "devs (snd (engine_start K eo s)) = devs s"
  "notices (snd (engine_start K eo s)) = notices s" "sgts (snd (engine_start K eo s)) = sgts s" "xdev_list (snd (engine_start K eo s)) = xdev_list s"
  "cs_threads (snd (engine_start K eo s)) = cs_threads s" "thread_cnt (snd (engine_start K eo s)) = thread_cnt s"
  by (auto simp: engine_start_def Let_def case_prod_unfold split: option.splits list.splits)

lemma engine_start_idle:
  assumes "\<not> e_running (engs s e)" and "e_transfer_list (engs s e) = t # ts"
  shows "fst (engine_start K (Some e) s) = Some t"
    and "\<exists>w. engs (snd (engine_start K (Some e) s)) =
           (engs s)(e := (engs s e)\<lparr>e_shutdown := ENGINE_SHUTDOWN_NONE, e_desc_dequeued := 0,
                                  e_status := w, e_running := True\<rparr>)"
  using assms by (auto simp: engine_start_def Let_def case_prod_unfold)

lemma engine_start_refused:
  "e_running (engs s e) \<or> e_transfer_list (engs s e) = [] \<Longrightarrow> engine_start K (Some e) s = (None, s)"
  by (auto simp: engine_start_def)

lemma engine_service_shutdown_simps [simp]:
  "fst (engine_service_shutdown K e s) = 0"
  "engs (snd (engine_service_shutdown K e s)) = (engs s)(e := (engs s e)\<lparr>e_running := False\<rparr>)"
  "xfers (snd (engine_service_shutdown K e s)) = xfers s"
  "devs (snd (engine_service_shutdown K e s)) = devs s"
  "notices (snd (engine_service_shutdown K e s)) = notices s @ [Wake_shutdown e]"
  "sgts (snd (engine_service_shutdown K e s)) = sgts s" "xdev_list (snd (engine_service_shutdown K e s)) = xdev_list s"
  "cs_threads (snd (engine_service_shutdown K e s)) = cs_threads s" "thread_cnt (snd (engine_service_shutdown K e s)) = thread_cnt s"
  by (simp_all add: engine_service_shutdown_def Let_def case_prod_unfold)

lemma transfer_del_simps [simp]:
  "fst (transfer_del e t s) = Some t"
  "engs (snd (transfer_del e t s)) =
     (engs s)(e := (engs s e)\<lparr>e_transfer_list := tl (e_transfer_list (engs s e))\<rparr>)"
  "xfers (snd (transfer_del e t s)) = xfers s"
  "devs (snd (transfer_del e t s)) = devs s" "sgts (snd (transfer_del e t s)) = sgts s" "xdev_list (snd (transfer_del e t s)) = xdev_list s"
  "cs_threads (snd (transfer_del e t s)) = cs_threads s" "thread_cnt (snd (transfer_del e t s)) = thread_cnt s"
  by (simp_all add: transfer_del_def)

lemma engine_err_handle_simps [simp]:
  "engs (snd (engine_err_handle K e t c s)) = (engs s)(e := (engs s e)\<lparr>e_running := False\<rparr>)"
  "xfers (snd (engine_err_handle K e t c s)) =
     (xfers s)(t := (xfers s t)\<lparr>x_state := TRANSFER_STATE_FAILED\<rparr>)"
  "devs (snd (engine_err_handle K e t c s)) = devs s"
  "notices (snd (engine_err_handle K e t c s)) = notices s"
  "sgts (snd (engine_err_handle K e t c s)) = sgts s" "xdev_list (snd (engine_err_handle K e t c s)) = xdev_list s"
  "cs_threads (snd (engine_err_handle K e t c s)) = cs_threads s" "thread_cnt (snd (engine_err_handle K e t c s)) = thread_cnt s"
  by (simp_all add: engine_err_handle_def Let_def)

end
