(* ===== verification/Xdma_Service.thy ===== *)
theory Xdma_Service
  imports Xdma_Engine
begin

text \<open>
  Correctness of engine servicing. The abstract specification \<open>service_spec\<close> says, from
  the descriptor counts of the queued transfers and the number of descriptors the hardware
  completed, which transfers leave the queue and in which state; the functions of
  Xdma_Engine refine it.
\<close>

subsection \<open>Specification\<close>

text \<open>The transfers retired by the loop that handles all but the last completed one.\<close>

fun retired :: "nat list \<Rightarrow> nat \<Rightarrow> nat" where
  "retired [] c = 0"
| "retired (n # ns) c = (if n < c then Suc (retired ns (c - n)) else 0)"

fun service_spec :: "nat list \<Rightarrow> nat \<Rightarrow> transfer_state list" where
  "service_spec [] c = []"
| "service_spec (n # ns) c =
     (if n < c then TRANSFER_STATE_COMPLETED # service_spec ns (c - n)
      else [if c < n then TRANSFER_STATE_FAILED else TRANSFER_STATE_COMPLETED])"

definition desc_nums :: "drv \<Rightarrow> xid list \<Rightarrow> nat list" where
  "desc_nums s q = map (\<lambda>x. unat (x_desc_num (xfers s x))) q"

definition list_head :: "'a list \<Rightarrow> 'a option" where
  "list_head q = (case q of [] \<Rightarrow> None | h # _ \<Rightarrow> Some h)"

definition completion_notices :: "xdma_transfer \<Rightarrow> xid \<Rightarrow> notice list" where
  "completion_notices x t =
     Wake_xfer t # (case x_cb x of Some cb \<Rightarrow> if x_last_in_request x then [Io_done cb 0] else []
                    | None \<Rightarrow> [])"

lemma list_head_simps [simp]: "list_head [] = None" "list_head (x # xs) = Some x"
  by (simp_all add: list_head_def)

lemma retired_le: "retired ns c \<le> length ns"
  by (induction ns c rule: retired.induct) auto

lemma retired_sum: "sum_list (take (retired ns c) ns) \<le> c"
  by (induction ns c rule: retired.induct) auto

lemma retired_next: "retired ns c < length ns \<Longrightarrow> c - sum_list (take (retired ns c) ns) \<le> ns ! retired ns c"
  by (induction ns c rule: retired.induct) auto

lemma service_spec_retired:
  "service_spec ns c = replicate (retired ns c) TRANSFER_STATE_COMPLETED @
     (if retired ns c < length ns
      then [if c - sum_list (take (retired ns c) ns) < ns ! retired ns c
            then TRANSFER_STATE_FAILED else TRANSFER_STATE_COMPLETED]
      else [])"
  by (induction ns c rule: retired.induct) auto

lemma service_spec_exact:
  assumes "\<forall>n\<in>set (take k ns). 0 < n" and "0 < k" and "k \<le> length ns"
  shows "service_spec ns (sum_list (take k ns)) = replicate k TRANSFER_STATE_COMPLETED"
  using assms
proof (induction ns arbitrary: k)
  case Nil
  then show ?case by simp
next
  case (Cons n ns)
  then obtain j where k: "k = Suc j" by (cases k) auto
  show ?case
  proof (cases "j = 0")
    case True
    then show ?thesis using k by simp
  next
    case False
    then obtain m ms where ns: "ns = m # ms" using Cons.prems k by (cases ns) auto
    then have "0 < sum_list (take j ns)" using Cons.prems False k by (cases j) auto
    then show ?thesis using Cons.IH [of j] Cons.prems k False by simp
  qed
qed

subsection \<open>The loop\<close>

lemma notices_completion [simp]:
  "notices (snd (engine_transfer_completion (Some e) (Some t) s)) =
     notices s @ completion_notices (xfers s t) t"
  by (auto simp: engine_transfer_completion_def completion_notices_def Let_def split: option.splits)

lemma engine_transfer_completion_eq:
  "engine_transfer_completion (Some e) (Some t) s =
     (Some t, s\<lparr>notices := notices s @ completion_notices (xfers s t) t\<rparr>)"
  by (auto simp: engine_transfer_completion_def completion_notices_def tell_def Let_def
      split: option.splits)

definition retire :: "eng_id \<Rightarrow> xid list \<Rightarrow> drv \<Rightarrow> drv" where
  "retire e ts s =
     s\<lparr>engs := (engs s)(e := (engs s e)\<lparr>
           e_transfer_list := drop (length ts) (e_transfer_list (engs s e)),
           e_desc_dequeued := e_desc_dequeued (engs s e) + of_nat (sum_list (desc_nums s ts))\<rparr>),
       xfers := (\<lambda>x. if x \<in> set ts then (xfers s x)\<lparr>x_state := TRANSFER_STATE_COMPLETED\<rparr>
                     else xfers s x),
       notices := notices s @ concat (map (\<lambda>x. completion_notices (xfers s x) x) ts)\<rparr>"

lemma retire_Nil [simp]: "retire e [] s = s"
  by (simp add: retire_def desc_nums_def)

lemma completion_notices_state [simp]:
  "completion_notices (x\<lparr>x_state := st\<rparr>) t = completion_notices x t"
  by (simp add: completion_notices_def split: option.split)

lemma retire_Cons: "retire e (t # ts) s = retire e ts (retire e [t] s)"
proof -
  have "desc_nums (retire e [t] s) ts = desc_nums s ts"
    by (simp add: desc_nums_def retire_def)
  moreover have "completion_notices (xfers (retire e [t] s) x) x = completion_notices (xfers s x) x" for x
    by (simp add: retire_def)
  moreover have "drop (length ts) (drop 1 q) = drop (Suc (length ts)) q" for q :: "xid list"
    by simp
  ultimately show ?thesis
    by (simp add: retire_def [of e "t # ts"] retire_def [of e ts])
      (auto simp: retire_def desc_nums_def fun_eq_iff add.assoc)
qed

lemma retire_step:
  "snd (engine_transfer_completion (Some e) (Some t)
     (upd_xfer t (\<lambda>x. x\<lparr>x_state := TRANSFER_STATE_COMPLETED\<rparr>)
       (upd_eng e (\<lambda>g. g\<lparr>e_desc_dequeued := e_desc_dequeued g + x_desc_num (xfers s t)\<rparr>)
         (upd_eng e (\<lambda>g. g\<lparr>e_transfer_list := tl (e_transfer_list g)\<rparr>) s)))) = retire e [t] s"
  by (rule drv.equality) (auto simp: retire_def desc_nums_def fun_eq_iff drop_Suc)

lemma service_list_loop_step:
  assumes "\<not> x_cyclic (xfers s t)" and "x_desc_num (xfers s t) < c"
  shows "service_list_loop e (Some t) c s =
     service_list_loop e (list_head (tl (e_transfer_list (engs s e))))
       (c - x_desc_num (xfers s t)) (retire e [t] s)"
proof -
  have "engs (retire e [t] s) e = (engs s e)\<lparr>e_transfer_list := tl (e_transfer_list (engs s e)),
          e_desc_dequeued := e_desc_dequeued (engs s e) + x_desc_num (xfers s t)\<rparr>"
    by (simp add: retire_def desc_nums_def drop_Suc)
  then show ?thesis using assms
    by (subst service_list_loop.simps)
      (simp add: Let_def case_prod_unfold retire_step list_head_def)
qed

lemma service_list_loop_retire:
  assumes "e_transfer_list (engs s e) = q" and "\<forall>x\<in>set q. \<not> x_cyclic (xfers s x)"
  shows "service_list_loop e (list_head q) c s =
     (let k = retired (desc_nums s q) (unat c)
      in (list_head (drop k q), c - of_nat (sum_list (desc_nums s (take k q))),
          retire e (take k q) s))"
  using assms
proof (induction q arbitrary: s c)
  case Nil
  then show ?case by (subst service_list_loop.simps) (simp add: desc_nums_def)
next
  case (Cons t q)
  let ?n = "x_desc_num (xfers s t)"
  show ?case
  proof (cases "?n < c")
    case False
    then have "retired (desc_nums s (t # q)) (unat c) = 0"
      by (simp add: desc_nums_def word_less_nat_alt)
    then show ?thesis using False Cons.prems
      by (subst service_list_loop.simps) (simp add: desc_nums_def)
  next
    case True
    define s1 where "s1 = retire e [t] s"
    have nums: "desc_nums s1 ys = desc_nums s ys" for ys
      by (simp add: desc_nums_def s1_def retire_def)
    have unat: "unat (c - ?n) = unat c - unat ?n"
      using True by (simp add: unat_sub word_le_nat_alt word_less_nat_alt)
    have sums: "c - ?n - of_nat (sum_list (desc_nums s ys)) = c - of_nat (sum_list (desc_nums s (t # ys)))" for ys
      by (simp add: desc_nums_def)
    have ret: "retire e ys s1 = retire e (t # ys) s" for ys
      by (simp only: s1_def retire_Cons [of e t ys s])
    let ?j = "retired (desc_nums s1 q) (unat (c - ?n))"
    have k: "retired (desc_nums s (t # q)) (unat c) = Suc ?j"
      unfolding nums using True by (simp add: desc_nums_def word_less_nat_alt unat)
    have "service_list_loop e (Some t) c s = service_list_loop e (list_head q) (c - ?n) s1"
      using True Cons.prems by (simp add: service_list_loop_step s1_def)
    also have "\<dots> = (list_head (drop ?j q), c - ?n - of_nat (sum_list (desc_nums s1 (take ?j q))),
                     retire e (take ?j q) s1)"
      using Cons.prems by (subst Cons.IH) (auto simp: s1_def retire_def Let_def)
    also have "\<dots> = (list_head (drop (Suc ?j) (t # q)),
                     c - of_nat (sum_list (desc_nums s (take (Suc ?j) (t # q)))),
                     retire e (take (Suc ?j) (t # q)) s)"
      by (simp only: nums sums ret drop_Suc_Cons take_Suc_Cons)
    finally show ?thesis by (simp only: k list_head_simps Let_def)
  qed
qed

subsection \<open>The phases of \<open>engine_service\<close>\<close>

lemma service_entry_effect:
  assumes "service_entry K e wb s = (rv, cnt, s1)"
  obtains st r ns where "rv = 0"
    and "engs s1 = (engs s)(e := (engs s e)\<lparr>e_status := st, e_running := r\<rparr>)"
    and "xfers s1 = xfers s" and "devs s1 = devs s"
    and "notices s1 = notices s @ ns" and "ns = [] \<or> ns = [Wake_shutdown e]"
proof -
  define sr where "sr = (if wb AND WB_COUNT_MASK = 0 \<or> wb AND WB_ERR_MASK \<noteq> 0
    then engine_status_read K (Some e) True False s else (0, s))"
  define st where "st = e_status (engs (snd sr) e)"
  have sr: "fst sr = 0" "engs (snd sr) = (engs s)(e := (engs s e)\<lparr>e_status := st\<rparr>)"
    "xfers (snd sr) = xfers s" "devs (snd sr) = devs s" "notices (snd sr) = notices s"
    by (auto simp: sr_def st_def)
  define sh where "sh = (if (e_running (engs (snd sr) e) \<and> e_status (engs (snd sr) e) AND XDMA_STAT_BUSY = 0) \<or>
       (\<not> e_eop_flush (engs (snd sr) e) \<and> wb AND WB_COUNT_MASK \<noteq> 0)
     then engine_service_shutdown K e (snd sr) else (0, snd sr))"
  have sh: "fst sh = 0"
    "engs (snd sh) = (engs s)(e := (engs s e)\<lparr>e_status := st, e_running := e_running (engs (snd sh) e)\<rparr>)"
    "xfers (snd sh) = xfers s" "devs (snd sh) = devs s"
    "notices (snd sh) = notices s \<or> notices (snd sh) = notices s @ [Wake_shutdown e]"
    using sr by (auto simp: sh_def)
  have "(rv, cnt, s1) = (let (c, s) = (if wb AND WB_COUNT_MASK = 0
           then read_register K (e_regs (engs (snd sh) e) + er_completed_desc_count) (snd sh)
           else (wb AND WB_COUNT_MASK, snd sh)) in (0, c, s))"
    using assms sr(1) sh(1)
    unfolding service_entry_def Let_def case_prod_unfold sr_def [symmetric] sh_def [symmetric]
    by (simp split: if_splits)
  then have "rv = 0" "engs s1 = engs (snd sh)" "xfers s1 = xfers (snd sh)"
    "devs s1 = devs (snd sh)" "notices s1 = notices (snd sh)"
    by (auto simp: Let_def case_prod_unfold read_register_def split: if_splits)
  then show ?thesis using sh that [where st = st and r = "e_running (engs (snd sh) e)"] by auto
qed

definition finish :: "eng_id \<Rightarrow> xid \<Rightarrow> transfer_state \<Rightarrow> u32 \<Rightarrow> drv \<Rightarrow> drv" where
  "finish e t st c s =
     s\<lparr>xfers := (xfers s)(t := (xfers s t)\<lparr>x_state := st, x_desc_cmpl := c\<rparr>),
       engs := (engs s)(e := (engs s e)\<lparr>
           e_desc_dequeued := e_desc_dequeued (engs s e) + x_desc_num (xfers s t),
           e_transfer_list := tl (e_transfer_list (engs s e))\<rparr>),
       notices := notices s @ completion_notices (xfers s t) t\<rparr>"

lemma completion_notices_cmpl [simp]:
  "completion_notices (x\<lparr>x_desc_cmpl := c\<rparr>) t = completion_notices x t"
  by (simp add: completion_notices_def split: option.split)

lemma final_transfer_plain:
  assumes "\<not> status_error (engs s e)" and "\<not> e_eop_flush (engs s e)"
  shows "engine_service_final_transfer K (Some e) (Some t) (Some c) s =
     (Some t,
      if c < x_desc_num (xfers s t) then finish e t TRANSFER_STATE_FAILED c s
      else finish e t TRANSFER_STATE_COMPLETED (x_desc_num (xfers s t)) s)"
  using assms
  by (auto simp: engine_service_final_transfer_def Let_def transfer_del_def finish_def
      engine_transfer_completion_eq upd_eng_def upd_xfer_def)

lemma resume_effect:
  obtains ns where "xfers (snd (engine_service_resume K (Some e) s)) = xfers s"
    and "e_transfer_list (engs (snd (engine_service_resume K (Some e) s)) e) = e_transfer_list (engs s e)"
    and "e_running (engs (snd (engine_service_resume K (Some e) s)) e) \<longleftrightarrow> e_transfer_list (engs s e) \<noteq> []"
    and "notices (snd (engine_service_resume K (Some e) s)) = notices s @ ns"
    and "ns = [] \<or> ns = [Wake_shutdown e]"
    and "\<And>e'. e' \<noteq> e \<Longrightarrow> engs (snd (engine_service_resume K (Some e) s)) e' = engs s e'"
proof -
  consider "e_running (engs s e)" "e_transfer_list (engs s e) = []"
    | "e_running (engs s e)" "e_transfer_list (engs s e) \<noteq> []"
    | "\<not> e_running (engs s e)" "e_transfer_list (engs s e) = []"
    | t ts where "\<not> e_running (engs s e)" "e_transfer_list (engs s e) = t # ts"
    by (cases "e_transfer_list (engs s e)") auto
  then show ?thesis
  proof cases
    case 1
    then show ?thesis
      by (intro that [of "[Wake_shutdown e]"]) (auto simp: engine_service_resume_def)
  next
    case 2
    then show ?thesis
      by (intro that [of "[]"]) (auto simp: engine_service_resume_def)
  next
    case 3
    then show ?thesis
      by (cases "e_shutdown (engs s e) AND ENGINE_SHUTDOWN_REQUEST \<noteq> 0")
        (auto intro: that [of "[]"] that [of "[Wake_shutdown e]"] simp: engine_service_resume_def)
  next
    case 4
    have eq: "snd (engine_service_resume K (Some e) s) = snd (engine_start K (Some e) s)"
      using 4 by (simp add: engine_service_resume_def Let_def case_prod_unfold split: option.split)
    obtain w where "engs (snd (engine_start K (Some e) s)) =
       (engs s)(e := (engs s e)\<lparr>e_shutdown := ENGINE_SHUTDOWN_NONE, e_desc_dequeued := 0,
                             e_status := w, e_running := True\<rparr>)"
      using engine_start_idle(2) [OF 4] by blast
    then show ?thesis using 4 by (intro that [of "[]"]) (simp_all add: eq)
  qed
qed

subsection \<open>Refinement\<close>

fun wakes :: "notice list \<Rightarrow> xid list" where
  "wakes [] = []"
| "wakes (Wake_xfer x # ns) = x # wakes ns"
| "wakes (_ # ns) = wakes ns"

lemma wakes_append [simp]: "wakes (ms @ ns) = wakes ms @ wakes ns"
  by (induction ms rule: wakes.induct) auto

lemma wakes_completion [simp]: "wakes (completion_notices x t) = [t]"
  by (simp add: completion_notices_def split: option.split)

lemma wakes_completions: "wakes (concat (map (\<lambda>x. completion_notices (f x) x) ts)) = ts"
  by (induction ts) auto

lemma retire_fields [simp]:
  "xfers (retire e ts s) x = (if x \<in> set ts then (xfers s x)\<lparr>x_state := TRANSFER_STATE_COMPLETED\<rparr> else xfers s x)"
  "e_transfer_list (engs (retire e ts s) e) = drop (length ts) (e_transfer_list (engs s e))"
  "e_eop_flush (engs (retire e ts s) e) = e_eop_flush (engs s e)"
  "e_running (engs (retire e ts s) e) = e_running (engs s e)"
  "status_error (engs (retire e ts s) e) = status_error (engs s e)"
  "e' \<noteq> e \<Longrightarrow> engs (retire e ts s) e' = engs s e'"
  "notices (retire e ts s) = notices s @ concat (map (\<lambda>x. completion_notices (xfers s x) x) ts)"
  by (simp_all add: retire_def status_error_def)

lemma finish_fields [simp]:
  "xfers (finish e t st c s) = (xfers s)(t := (xfers s t)\<lparr>x_state := st, x_desc_cmpl := c\<rparr>)"
  "e_transfer_list (engs (finish e t st c s) e) = tl (e_transfer_list (engs s e))"
  "e_eop_flush (engs (finish e t st c s) e) = e_eop_flush (engs s e)"
  "e' \<noteq> e \<Longrightarrow> engs (finish e t st c s) e' = engs s e'"
  "notices (finish e t st c s) = notices s @ completion_notices (xfers s t) t"
  by (simp_all add: finish_def)

text \<open>
  What servicing the queue does to the transfers: the outcome list \<open>r\<close> has one entry per
  transfer that leaves the queue.
\<close>

definition serviced :: "eng_id \<Rightarrow> xid list \<Rightarrow> transfer_state list \<Rightarrow> drv \<Rightarrow> drv \<Rightarrow> bool" where
  "serviced e q r s s' \<longleftrightarrow>
     e_transfer_list (engs s' e) = drop (length r) q \<and>
     map (\<lambda>x. x_state (xfers s' x)) (take (length r) q) = r \<and>
     (\<forall>x. x \<notin> set (take (length r) q) \<longrightarrow> xfers s' x = xfers s x) \<and>
     (\<exists>ns. notices s' = notices s @ ns \<and> wakes ns = take (length r) q)"

definition service_queue :: "'k kenv_scheme \<Rightarrow> eng_id \<Rightarrow> u32 \<Rightarrow> drv \<Rightarrow> drv" where
  "service_queue K e c s =
     (let (t, p, s) = engine_service_transfer_list (Some e) (list_head (e_transfer_list (engs s e)))
                        (Some c) s
      in snd (engine_service_final_transfer K (Some e) t p s))"

lemma service_queue_refines:
  assumes "e_transfer_list (engs s e) = q" and "distinct q"
    and "\<forall>x\<in>set q. \<not> x_cyclic (xfers s x)"
    and "\<not> status_error (engs s e)" and "\<not> e_eop_flush (engs s e)"
  shows "serviced e q (service_spec (desc_nums s q) (unat c)) s (service_queue K e c s)"
    and "\<not> e_eop_flush (engs (service_queue K e c s) e)"
proof -
  let ?ns = "desc_nums s q"
  define k where "k = retired ?ns (unat c)"
  have lenns: "length ?ns = length q" by (simp add: desc_nums_def)
  then have kle: "k \<le> length q" using retired_le [of ?ns "unat c"] by (simp add: k_def)
  define s1 where "s1 = retire e (take k q) s"
  define c1 where "c1 = c - of_nat (sum_list (desc_nums s (take k q)))"
  have loop: "service_queue K e c s =
      snd (engine_service_final_transfer K (Some e) (list_head (drop k q)) (Some c1) s1)"
    using service_list_loop_retire [OF assms(1,3), of c]
    by (cases q) (simp_all add: service_queue_def engine_service_transfer_list_def assms(1) Let_def
        k_def s1_def c1_def engine_service_final_transfer_def desc_nums_def)
  have sum: "sum_list (desc_nums s (take k q)) = sum_list (take k ?ns)"
    by (simp add: desc_nums_def take_map)
  have sum_le: "sum_list (take k ?ns) \<le> unat c" unfolding k_def by (rule retired_sum)
  have c1: "unat c1 = unat c - sum_list (take k ?ns)"
  proof -
    have "unat (of_nat (sum_list (take k ?ns)) :: u32) = sum_list (take k ?ns)"
      using sum_le unat_bound [of c] by (intro unat_of_nat_small) simp
    then show ?thesis using sum_le by (simp add: c1_def sum unat_sub word_le_nat_alt)
  qed
  show "serviced e q (service_spec ?ns (unat c)) s (service_queue K e c s)"
    and "\<not> e_eop_flush (engs (service_queue K e c s) e)"
  proof (atomize (full), cases "k < length q")
    case False
    then have "service_queue K e c s = retire e q s"
      using kle by (simp add: loop s1_def engine_service_final_transfer_def)
    moreover have "service_spec ?ns (unat c) = replicate (length q) TRANSFER_STATE_COMPLETED"
      using False kle lenns by (simp add: service_spec_retired k_def [symmetric])
    ultimately show "serviced e q (service_spec ?ns (unat c)) s (service_queue K e c s) \<and>
        \<not> e_eop_flush (engs (service_queue K e c s) e)"
      using assms by (auto simp: serviced_def wakes_completions map_replicate_const [symmetric]
          intro!: map_cong)
  next
    case True
    then obtain t ts where drop: "drop k q = t # ts" by (cases "drop k q") auto
    then have t: "t = q ! k" using True by (metis Cons_nth_drop_Suc list.inject)
    have tk: "take (Suc k) q = take k q @ [t]" using True t by (simp add: take_Suc_conv_app_nth)
    have notin: "t \<notin> set (take k q)"
      using assms(2) tk by (metis distinct_append distinct_take disjoint_insert(1) list.simps(15))
    define st where "st = (if c1 < x_desc_num (xfers s t) then TRANSFER_STATE_FAILED else TRANSFER_STATE_COMPLETED)"
    have "?ns ! k = unat (x_desc_num (xfers s t))" using True t by (simp add: desc_nums_def)
    then have spec: "service_spec ?ns (unat c) = replicate k TRANSFER_STATE_COMPLETED @ [st]"
      using True lenns c1
      by (simp add: service_spec_retired k_def [symmetric] st_def word_less_nat_alt)
    define d where "d = (if c1 < x_desc_num (xfers s t) then c1 else x_desc_num (xfers s t))"
    have "service_queue K e c s = finish e t st d s1"
      using assms(4,5) notin by (simp add: loop drop final_transfer_plain s1_def st_def d_def)
    then show "serviced e q (service_spec ?ns (unat c)) s (service_queue K e c s) \<and>
        \<not> e_eop_flush (engs (service_queue K e c s) e)"
      using assms notin True kle
      by (auto simp: serviced_def spec tk s1_def wakes_completions drop_Suc tl_drop
          intro!: map_const_on)
  qed
qed

lemma engine_service_running:
  assumes "e_running (engs s e)" and "service_entry K e wb s = (rv, cnt, s1)" and "cnt \<noteq> 0"
  shows "snd (engine_service K (Some e) wb s) =
     (let s' = service_queue K e (cnt - e_desc_dequeued (engs s1 e)) s1
      in if e_eop_flush (engs s' e) then s' else snd (engine_service_resume K (Some e) s'))"
proof -
  have "rv = 0" using assms(2) by (rule service_entry_effect)
  then show ?thesis using assms
    by (cases "e_transfer_list (engs s1 e)")
      (simp_all add: engine_service_def service_queue_def Let_def case_prod_unfold
        engine_service_perf_def)
qed

lemma engine_service_result:
  assumes "e_running (engs s e)" and "service_entry K e wb s = (rv, cnt, s1)" and "cnt \<noteq> 0"
  shows "fst (engine_service K (Some e) wb s) = (if wb AND WB_ERR_MASK \<noteq> 0 then -1 else 0)"
proof -
  have "rv = 0" using assms(2) by (rule service_entry_effect)
  then show ?thesis using assms
    by (cases "e_transfer_list (engs s1 e)")
      (simp_all add: engine_service_def Let_def case_prod_unfold engine_service_perf_def)
qed

lemma engine_service_refines:
  assumes "e_running (engs s e)" and "\<not> e_eop_flush (engs s e)"
    and "distinct (e_transfer_list (engs s e))"
    and "\<forall>x\<in>set (e_transfer_list (engs s e)). \<not> x_cyclic (xfers s x)"
    and "service_entry K e wb s = (rv, cnt, s1)" and "cnt \<noteq> 0"
    and "\<not> status_error (engs s1 e)"
  shows "serviced e (e_transfer_list (engs s e))
      (service_spec (desc_nums s (e_transfer_list (engs s e)))
         (unat (cnt - e_desc_dequeued (engs s e))))
      s (snd (engine_service K (Some e) wb s)) \<and>
    (e_running (engs (snd (engine_service K (Some e) wb s)) e) \<longleftrightarrow>
       e_transfer_list (engs (snd (engine_service K (Some e) wb s)) e) \<noteq> [])"
proof -
  let ?q = "e_transfer_list (engs s e)"
  obtain st r ns1 where entry:
      "engs s1 = (engs s)(e := (engs s e)\<lparr>e_status := st, e_running := r\<rparr>)"
      "xfers s1 = xfers s" "notices s1 = notices s @ ns1" "wakes ns1 = []"
    using service_entry_effect [OF assms(5)] by (metis wakes.simps(1,3))
  define c where "c = cnt - e_desc_dequeued (engs s e)"
  define s2 where "s2 = service_queue K e c s1"
  have nums: "desc_nums s1 ?q = desc_nums s ?q" by (simp add: desc_nums_def entry)
  have ref: "serviced e ?q (service_spec (desc_nums s ?q) (unat c)) s1 s2"
      "\<not> e_eop_flush (engs s2 e)"
    using service_queue_refines [where s = s1 and e = e and q = "?q" and c = c and K = K] assms(2,3,4,7)
    by (auto simp: s2_def nums entry)
  obtain ns3 where resume:
      "xfers (snd (engine_service_resume K (Some e) s2)) = xfers s2"
      "e_transfer_list (engs (snd (engine_service_resume K (Some e) s2)) e) = e_transfer_list (engs s2 e)"
      "e_running (engs (snd (engine_service_resume K (Some e) s2)) e) \<longleftrightarrow> e_transfer_list (engs s2 e) \<noteq> []"
      "notices (snd (engine_service_resume K (Some e) s2)) = notices s2 @ ns3" "wakes ns3 = []"
    by (rule resume_effect [of K e s2]) auto
  have eq: "snd (engine_service K (Some e) wb s) = snd (engine_service_resume K (Some e) s2)"
    using engine_service_running [OF assms(1,5,6)] ref(2)
    by (simp add: Let_def s2_def c_def entry)
  show ?thesis
    using ref(1) resume entry unfolding eq c_def [symmetric]
    by (auto simp: serviced_def)
qed

text \<open>
  C2: Servicing a running engine refines the abstract specification. Whatever the hardware
  reports as the number of completed descriptors (from the writeback word or, when that is
  zero, from the register), if it reports no error and the engine is not in EOP-flush mode,
  then exactly the transfers \<open>service_spec\<close> lists leave the queue, from its head, each in
  the state the specification gives (completed, or failed when the hardware stopped half
  way through it); every other transfer is untouched; each transfer that leaves is woken
  exactly once and in queue order; and afterwards the engine runs if and only if
  transfers are still queued.
\<close>

theorem engine_service_refines_spec:
  assumes "e_running (engs s e)" and "\<not> e_eop_flush (engs s e)"
    and "distinct (e_transfer_list (engs s e))"
    and "\<forall>x\<in>set (e_transfer_list (engs s e)). \<not> x_cyclic (xfers s x)"
    and "service_entry K e wb s = (rv, cnt, s1)" and "cnt \<noteq> 0"
    and "\<not> status_error (engs s1 e)"
  shows "serviced e (e_transfer_list (engs s e))
      (service_spec (desc_nums s (e_transfer_list (engs s e)))
         (unat (cnt - e_desc_dequeued (engs s e))))
      s (snd (engine_service K (Some e) wb s)) \<and>
    (e_running (engs (snd (engine_service K (Some e) wb s)) e) \<longleftrightarrow>
       e_transfer_list (engs (snd (engine_service K (Some e) wb s)) e) \<noteq> [])"
  using assms by (rule engine_service_refines)

text \<open>Two queued transfers of two descriptors each; the hardware reports three completed.\<close>

definition sample_busy :: drv where
  "sample_busy = sample_drv
     \<lparr>engs := (\<lambda>_. sample_engine\<lparr>e_running := True, e_transfer_list := [1, 2]\<rparr>),
      xfers := (\<lambda>_. zero_transfer\<lparr>x_desc_num := 2, x_state := TRANSFER_STATE_SUBMITTED\<rparr>)\<rparr>"

theorem engine_service_refines_spec_witness:
  "serviced (0, H2C, 0) [1, 2] [TRANSFER_STATE_COMPLETED, TRANSFER_STATE_FAILED] sample_busy
     (snd (engine_service (sample_env 3) (Some (0, H2C, 0)) 0 sample_busy))"
proof -
  let ?e = "(0, H2C, 0) :: eng_id"
  let ?r = "service_entry (sample_env 3) ?e 0 sample_busy"
  have env: "poll_mode (sample_env 3) = 0" "enable_st_c2h_credit (sample_env 3) = 0"
    "ioread32 (sample_env 3) = (\<lambda>l a. if a = 0x48 then 3 else 0)" by (simp_all add: sample_env_def)
  have q: "e_transfer_list (engs sample_busy ?e) = [1, 2]" "e_running (engs sample_busy ?e)"
    "\<not> e_eop_flush (engs sample_busy ?e)" "e_desc_dequeued (engs sample_busy ?e) = 0"
    "desc_nums sample_busy [1, 2] = [2, 2]" "\<forall>x. \<not> x_cyclic (xfers sample_busy x)"
    by (simp_all add: sample_busy_def desc_nums_def)
  have entry: "fst (snd ?r) = 3" "\<not> status_error (engs (snd (snd ?r)) ?e)"
    by (simp_all add: service_entry_def Let_def case_prod_unfold sample_busy_def env status_error_def
        engine_service_shutdown_def xdma_engine_stop_def engine_status_read_def st_c2h_credit_def
        read_register_def write_register_def upd_eng_def tell_def)
  show ?thesis
    using engine_service_refines_spec [where e = ?e, OF _ _ _ _ triple_collapse [of ?r]] q entry by simp
qed

end
