(* ===== verification/Xdma_Transfer.thy ===== *)
theory Xdma_Transfer
  imports Xdma_Service
begin

text \<open>
  Building transfers out of software descriptors, queueing, aborting and destroying them
  (\<open>transfer_init\<close>, \<open>transfer_build\<close>, \<open>transfer_queue\<close>, \<open>transfer_abort\<close>,
  \<open>transfer_destroy\<close> of src/src/libxdma.c), and the shape of the descriptor chain that
  the hardware is handed.
\<close>

subsection \<open>Operations\<close>

text \<open>
  \<open>transfer_build\<close>: the loop over the software descriptors. It fills the descriptors from
  index \<open>j\<close> on, adds up the length, advances the end point address unless the engine
  uses non-incremental addressing and, for a streaming C2H engine, clears the result
  entry and points the descriptor's source at it.
\<close>

fun build_loop ::
  "bool \<Rightarrow> bool \<Rightarrow> dma_dir \<Rightarrow> sw_desc list \<Rightarrow> nat \<Rightarrow> u64 \<Rightarrow> u64 \<Rightarrow> u32 \<Rightarrow> xdma_desc list \<Rightarrow>
   xdma_result list \<Rightarrow> u64 \<times> u32 \<times> xdma_desc list \<times> xdma_result list" where
  "build_loop non_incr st_c2h dir [] j bus ep len ds rs = (ep, len, ds, rs)"
| "build_loop non_incr st_c2h dir (sd # sds) j bus ep len ds rs =
     (let d = xdma_desc_set (ds ! j) (sd_addr sd) ep (sd_len sd) dir;
          len = len + sd_len sd;
          ep = (if non_incr then ep else ep + ucast (sd_len sd))
      in if st_c2h
         then build_loop non_incr st_c2h dir sds (Suc j) (bus + of_nat sizeof_xdma_result) ep len
                (ds[j := d\<lparr>src_addr_lo := PCI_DMA_L bus, src_addr_hi := PCI_DMA_H bus\<rparr>])
                (rs[j := zero_result])
         else build_loop non_incr st_c2h dir sds (Suc j) bus ep len (ds[j := d]) rs)"

definition transfer_build ::
  "eng_id \<Rightarrow> xdma_request_cb \<Rightarrow> xid \<Rightarrow> u32 \<Rightarrow> drv \<Rightarrow> int \<times> xdma_request_cb \<times> drv" where
  "transfer_build e req t desc_max s =
     (let g = engs s e; x = xfers s t;
          sds = take (unat desc_max) (drop (unat (rq_sw_desc_idx req)) (rq_sdesc req));
          st_c2h = (e_streaming g \<and> e_dir g = DMA_FROM_DEVICE);
          (ep, len, ds, rs) =
            build_loop (e_non_incr_addr g) st_c2h (x_dir x) sds (snd (x_desc_virt x)) (x_res_bus x)
              (rq_ep_addr req) (x_len x) (the (e_desc g))
              (case e_cyclic_result g of None \<Rightarrow> [] | Some rs \<Rightarrow> rs);
          s = upd_eng e (\<lambda>g. g\<lparr>e_desc := Some ds,
                e_cyclic_result := (if e_cyclic_result g = None then None else Some rs)\<rparr>) s;
          s = upd_xfer t (\<lambda>x. x\<lparr>x_len := len\<rparr>) s;
          req = req\<lparr>rq_ep_addr := ep, rq_sw_desc_idx := rq_sw_desc_idx req + desc_max\<rparr>
      in (0, req, s))"

text \<open>In EOP-flush mode every descriptor but the last reports its completion.\<close>

primrec control_loop :: "nat \<Rightarrow> nat \<Rightarrow> xdma_desc list \<Rightarrow> xdma_desc list" where
  "control_loop virt 0 ds = ds"
| "control_loop virt (Suc n) ds =
     control_loop (Suc virt) n
       (ds[virt := snd (xdma_desc_control_set (ds ! virt) XDMA_DESC_COMPLETED)])"

definition transfer_init ::
  "eng_id \<Rightarrow> xdma_request_cb \<Rightarrow> xid \<Rightarrow> drv \<Rightarrow> int \<times> xdma_request_cb \<times> drv" where
  "transfer_init e req t s =
     (let g = engs s e;
          desc_max = min (rq_sw_desc_cnt req - rq_sw_desc_idx req) (e_desc_max g);
          virt = unat (e_desc_idx g);
          s = upd_xfer t (\<lambda>_. zero_transfer
                \<lparr>x_dir := e_dir g, x_desc_virt := (e, virt), x_res_virt := (e, virt),
                 x_desc_bus := e_desc_bus g + of_nat (sizeof_xdma_desc * virt),
                 x_res_bus := e_cyclic_result_bus g + of_nat (sizeof_xdma_result * virt),
                 x_desc_index := e_desc_idx g\<rparr>) s;
          desc_max = (if e_desc_max g \<le> e_desc_idx g + desc_max
                      then e_desc_max g - e_desc_idx g else desc_max);
          s = upd_eng e (\<lambda>g. g\<lparr>e_desc := Some (transfer_desc_init virt (x_desc_bus (xfers s t))
                                             (unat desc_max) (the (e_desc g)))\<rparr>) s;
          (rv, req, s) = transfer_build e req t desc_max s;
          s = upd_xfer t (\<lambda>x. x\<lparr>x_desc_adjacent := desc_max\<rparr>) s;
          last = unat desc_max - 1;
          ctl = XDMA_DESC_STOPPED OR XDMA_DESC_EOP OR XDMA_DESC_COMPLETED;
          s = upd_eng e (\<lambda>g. g\<lparr>e_desc := map_option (\<lambda>ds. ds[virt + last :=
                snd (xdma_desc_control_set (ds ! (virt + last)) ctl)]) (e_desc g)\<rparr>) s;
          s = (if e_eop_flush (engs s e)
               then upd_xfer t (\<lambda>x. x\<lparr>x_desc_cmpl_th := 1\<rparr>)
                      (upd_eng e (\<lambda>g. g\<lparr>e_desc := map_option (control_loop virt last) (e_desc g)\<rparr>) s)
               else upd_xfer t (\<lambda>x. x\<lparr>x_desc_cmpl_th := desc_max\<rparr>) s);
          s = upd_xfer t (\<lambda>x. x\<lparr>x_desc_num := desc_max\<rparr>) s;
          s = upd_eng e (\<lambda>g. g\<lparr>e_desc_idx := (e_desc_idx g + desc_max) mod e_desc_max g,
                              e_desc_used := e_desc_used g + desc_max\<rparr>) s;
          s = upd_eng e (\<lambda>g. g\<lparr>e_desc := map_option (adjacent_loop virt (unat desc_max)) (e_desc g)\<rparr>) s
      in (0, req, s))"

definition transfer_abort :: "eng_id option \<Rightarrow> xid option \<Rightarrow> drv \<Rightarrow> int \<times> drv" where
  "transfer_abort engine transfer s =
     (case engine of None \<Rightarrow> (- EINVAL, s)
      | Some e \<Rightarrow>
        (case transfer of None \<Rightarrow> (- EINVAL, s)
         | Some t \<Rightarrow>
           if x_desc_num (xfers s t) = 0 then (- EINVAL, s)
           else let s = (if list_head (e_transfer_list (engs s e)) = Some t
                         then upd_eng e (\<lambda>g. g\<lparr>e_transfer_list := tl (e_transfer_list g)\<rparr>) s
                         else s);
                    s = (if x_state (xfers s t) = TRANSFER_STATE_SUBMITTED
                         then upd_xfer t (\<lambda>x. x\<lparr>x_state := TRANSFER_STATE_ABORTED\<rparr>) s else s)
                in (0, s)))"

definition transfer_queue :: "'k kenv_scheme \<Rightarrow> eng_id option \<Rightarrow> xid option \<Rightarrow> drv \<Rightarrow> int \<times> drv" where
  "transfer_queue K engine transfer s =
     (case engine of None \<Rightarrow> (- EINVAL, s)
      | Some e \<Rightarrow>
        (case e_xdev (engs s e) of None \<Rightarrow> (- EINVAL, s)
         | Some d \<Rightarrow>
           (case transfer of None \<Rightarrow> (- EINVAL, s)
            | Some t \<Rightarrow>
              if x_desc_num (xfers s t) = 0 then (- EINVAL, s)
              else if xdma_device_flag_check d XDEV_FLAG_OFFLINE s \<noteq> 0 then (- EBUSY, s)
              else let s = upd_eng e (\<lambda>g. g\<lparr>e_prev_cpu := get_cpu K\<rparr>) s
              in if e_shutdown (engs s e) AND ENGINE_SHUTDOWN_REQUEST \<noteq> 0 then (- EBUSY, s)
              else let s = upd_xfer t (\<lambda>x. x\<lparr>x_state := TRANSFER_STATE_SUBMITTED\<rparr>) s;
                       s = upd_eng e (\<lambda>g. g\<lparr>e_transfer_list := e_transfer_list g @ [t]\<rparr>) s
              in if \<not> e_running (engs s e) then (0, snd (engine_start K (Some e) s)) else (0, s))))"

definition transfer_destroy :: "xid \<Rightarrow> drv \<Rightarrow> drv" where
  "transfer_destroy t s =
     (let x = xfers s t; p = x_desc_virt x;
          s = upd_eng (fst p) (\<lambda>g. g\<lparr>e_desc := map_option (xdma_desc_done (snd p) (unat (x_desc_num x)))
                                          (e_desc g)\<rparr>) s
      in if x_last_in_request x \<and> x_flags x AND XFER_FLAG_NEED_UNMAP \<noteq> 0
         then (case x_sgt x of None \<Rightarrow> s
               | Some sg \<Rightarrow>
                   if nents (sgts s sg) \<noteq> 0
                   then upd_sgt sg (\<lambda>g. g\<lparr>nents := 0\<rparr>) (tell (Unmap_sg sg) s)
                   else s)
         else s)"

subsection \<open>The descriptors \<open>transfer_build\<close> writes\<close>

lemma length_build_loop [simp]:
  "length (fst (snd (snd (build_loop ni st dir sds j bus ep len ds rs)))) = length ds"
  "length (snd (snd (snd (build_loop ni st dir sds j bus ep len ds rs)))) = length rs"
  by (induction ni st dir sds j bus ep len ds rs rule: build_loop.induct) (auto simp: Let_def)

definition ep_at :: "bool \<Rightarrow> sw_desc list \<Rightarrow> nat \<Rightarrow> u64 \<Rightarrow> u64" where
  "ep_at ni sds i ep = (if ni then ep else ep + sum_list (map (\<lambda>sd. ucast (sd_len sd)) (take i sds)))"

definition built_desc ::
  "bool \<Rightarrow> bool \<Rightarrow> dma_dir \<Rightarrow> sw_desc list \<Rightarrow> u64 \<Rightarrow> u64 \<Rightarrow> nat \<Rightarrow> xdma_desc \<Rightarrow> xdma_desc" where
  "built_desc ni st dir sds bus ep i d =
     (let d = xdma_desc_set d (sd_addr (sds ! i)) (ep_at ni sds i ep) (sd_len (sds ! i)) dir;
          b = bus + of_nat (sizeof_xdma_result * i)
      in if st then d\<lparr>src_addr_lo := PCI_DMA_L b, src_addr_hi := PCI_DMA_H b\<rparr> else d)"

lemma build_loop_ep:
  "fst (build_loop ni st dir sds j bus ep len ds rs) = ep_at ni sds (length sds) ep"
  "fst (snd (build_loop ni st dir sds j bus ep len ds rs)) = len + sum_list (map sd_len sds)"
  by (induction ni st dir sds j bus ep len ds rs rule: build_loop.induct)
    (auto simp: Let_def ep_at_def algebra_simps)

lemma nth_build_loop:
  "j + length sds \<le> length ds \<Longrightarrow>
   fst (snd (snd (build_loop ni st dir sds j bus ep len ds rs))) ! k =
     (if j \<le> k \<and> k < j + length sds then built_desc ni st dir sds bus ep (k - j) (ds ! k) else ds ! k)"
proof (induction ni st dir sds j bus ep len ds rs rule: build_loop.induct)
  case (1 ni st dir j bus ep len ds rs)
  then show ?case by auto
next
  case (2 ni st dir sd sds j bus ep len ds rs)
  consider "k = j" | "k < j" | "j < k" by linarith
  then show ?case
  proof cases
    case 3
    then have "k - j = Suc (k - Suc j)" by simp
    then show ?thesis using 2 3
      by (auto simp: Let_def built_desc_def ep_at_def algebra_simps)
  qed (use 2 in \<open>auto simp: Let_def built_desc_def ep_at_def\<close>)
qed

lemma length_control_loop [simp]: "length (control_loop virt n ds) = length ds"
  by (induction n arbitrary: virt ds) auto

lemma nth_control_loop:
  "virt + n \<le> length ds \<Longrightarrow>
   control_loop virt n ds ! k =
     (if virt \<le> k \<and> k < virt + n then snd (xdma_desc_control_set (ds ! k) XDMA_DESC_COMPLETED)
      else ds ! k)"
  by (induction n arbitrary: virt ds) (auto simp: nth_list_update)

lemma built_desc_keeps [simp]:
  "next_addr (built_desc ni st dir sds bus ep i d) = next_addr d"
  "next_lo (built_desc ni st dir sds bus ep i d) = next_lo d"
  "control (built_desc ni st dir sds bus ep i d) = control d"
  "bytes (built_desc ni st dir sds bus ep i d) = sd_len (sds ! i)"
  by (simp_all add: built_desc_def Let_def next_addr_def) (simp_all add: xdma_desc_set_def Let_def)


lemma built_desc_ends:
  "dst_addr (built_desc ni st DMA_FROM_DEVICE sds bus ep i d) = sd_addr (sds ! i)"
  "src_addr (built_desc ni st DMA_FROM_DEVICE sds bus ep i d) =
     (if st then bus + of_nat (sizeof_xdma_result * i) else ep_at ni sds i ep)"
  "src_addr (built_desc ni False DMA_TO_DEVICE sds bus ep i d) = sd_addr (sds ! i)"
  "dst_addr (built_desc ni False DMA_TO_DEVICE sds bus ep i d) = ep_at ni sds i ep"
  by (auto simp: built_desc_def Let_def xdma_desc_set_def src_addr_def dst_addr_def)

subsection \<open>What \<open>transfer_init\<close> leaves behind\<close>

text \<open>
  An engine is ready when its descriptor array is allocated with \<open>desc_max\<close> entries, the
  next free index lies inside it, and sums of two such indices do not wrap. A request is
  ready when it has software descriptors left. How many of them fit between the next free
  index and the end of the array is \<open>fit\<close>.
\<close>

definition engine_ready :: "xdma_engine \<Rightarrow> bool" where
  "engine_ready g \<longleftrightarrow>
     (case e_desc g of None \<Rightarrow> False | Some ds \<Rightarrow> length ds = unat (e_desc_max g)) \<and>
     e_desc_idx g < e_desc_max g \<and> unat (e_desc_max g) < 2 ^ 31"

definition request_ready :: "xdma_request_cb \<Rightarrow> bool" where
  "request_ready req \<longleftrightarrow>
     rq_sw_desc_idx req < rq_sw_desc_cnt req \<and> length (rq_sdesc req) = unat (rq_sw_desc_cnt req)"

definition fit :: "xdma_engine \<Rightarrow> xdma_request_cb \<Rightarrow> nat" where
  "fit g req = min (unat (rq_sw_desc_cnt req) - unat (rq_sw_desc_idx req))
                   (unat (e_desc_max g) - unat (e_desc_idx g))"

definition fit_word :: "xdma_engine \<Rightarrow> xdma_request_cb \<Rightarrow> u32" where
  "fit_word g req =
     (let desc_max = min (rq_sw_desc_cnt req - rq_sw_desc_idx req) (e_desc_max g)
      in if e_desc_max g \<le> e_desc_idx g + desc_max then e_desc_max g - e_desc_idx g else desc_max)"

lemma unat_min: "unat (min a b) = min (unat a) (unat (b :: 'a::len word))"
  by (simp add: min_def word_le_nat_alt)

lemma unat_fit_word:
  assumes "engine_ready g" and "request_ready req"
  shows "unat (fit_word g req) = fit g req"
proof -
  let ?m = "min (rq_sw_desc_cnt req - rq_sw_desc_idx req) (e_desc_max g)"
  have idx: "unat (e_desc_idx g) < unat (e_desc_max g)" "unat (e_desc_max g) < 2 ^ 31"
    using assms(1) by (simp_all add: engine_ready_def word_less_nat_alt)
  have m: "unat ?m = min (unat (rq_sw_desc_cnt req) - unat (rq_sw_desc_idx req)) (unat (e_desc_max g))"
    using assms(2) by (simp add: request_ready_def unat_min unat_sub order_less_imp_le)
  have sum: "unat (e_desc_idx g + ?m) = unat (e_desc_idx g) + unat ?m"
    using idx m by (intro unat_add_small) simp
  show ?thesis
  proof (cases "e_desc_max g \<le> e_desc_idx g + ?m")
    case True
    then have "unat (e_desc_max g) \<le> unat (e_desc_idx g) + unat ?m"
      using sum by (simp add: word_le_nat_alt)
    moreover have "unat (fit_word g req) = unat (e_desc_max g) - unat (e_desc_idx g)"
      using True idx by (simp add: fit_word_def Let_def unat_sub word_le_nat_alt)
    ultimately show ?thesis using m idx by (simp add: fit_def)
  next
    case False
    then have "unat (e_desc_idx g) + unat ?m < unat (e_desc_max g)"
      using sum by (simp add: word_le_nat_alt)
    moreover have "unat (fit_word g req) = unat ?m" using False by (simp add: fit_word_def Let_def)
    ultimately show ?thesis using m by (simp add: fit_def)
  qed
qed

lemma fit_bounds:
  assumes "engine_ready g" and "request_ready req"
  shows "0 < fit g req" and "unat (e_desc_idx g) + fit g req \<le> unat (e_desc_max g)"
    and "unat (rq_sw_desc_idx req) + fit g req \<le> length (rq_sdesc req)"
  using assms by (auto simp: fit_def engine_ready_def request_ready_def word_less_nat_alt)

definition fit_descs :: "xdma_engine \<Rightarrow> xdma_request_cb \<Rightarrow> sw_desc list" where
  "fit_descs g req = take (fit g req) (drop (unat (rq_sw_desc_idx req)) (rq_sdesc req))"

lemma length_fit_descs:
  "engine_ready g \<Longrightarrow> request_ready req \<Longrightarrow> length (fit_descs g req) = fit g req"
  using fit_bounds(3) [of g req] by (simp add: fit_descs_def)

text \<open>The descriptor array after \<open>transfer_init\<close>, as a function of the one before.\<close>

definition init_array :: "xdma_engine \<Rightarrow> xdma_request_cb \<Rightarrow> xdma_desc list \<Rightarrow> xdma_desc list" where
  "init_array g req ds =
     (let virt = unat (e_desc_idx g); n = fit g req;
          st = (e_streaming g \<and> e_dir g = DMA_FROM_DEVICE);
          ds = transfer_desc_init virt (e_desc_bus g + of_nat (sizeof_xdma_desc * virt)) n ds;
          ds = fst (snd (snd (build_loop (e_non_incr_addr g) st (e_dir g) (fit_descs g req) virt
                 (e_cyclic_result_bus g + of_nat (sizeof_xdma_result * virt)) (rq_ep_addr req) 0 ds
                 (case e_cyclic_result g of None \<Rightarrow> [] | Some rs \<Rightarrow> rs))));
          ds = ds[virt + (n - 1) := snd (xdma_desc_control_set (ds ! (virt + (n - 1)))
                 (XDMA_DESC_STOPPED OR XDMA_DESC_EOP OR XDMA_DESC_COMPLETED))];
          ds = (if e_eop_flush g then control_loop virt (n - 1) ds else ds)
      in adjacent_loop virt n ds)"

lemma length_init_array [simp]: "length (init_array g req ds) = length ds"
  by (simp add: init_array_def Let_def)

definition init_results :: "xdma_engine \<Rightarrow> xdma_request_cb \<Rightarrow> xdma_result list \<Rightarrow> xdma_result list" where
  "init_results g req rs =
     snd (snd (snd (build_loop (e_non_incr_addr g) (e_streaming g \<and> e_dir g = DMA_FROM_DEVICE) (e_dir g)
       (fit_descs g req) (unat (e_desc_idx g))
       (e_cyclic_result_bus g + of_nat (sizeof_xdma_result * unat (e_desc_idx g))) (rq_ep_addr req) 0
       (transfer_desc_init (unat (e_desc_idx g))
          (e_desc_bus g + of_nat (sizeof_xdma_desc * unat (e_desc_idx g))) (fit g req) (the (e_desc g)))
       rs)))"

text \<open>The transfer and the engine after \<open>transfer_init\<close>.\<close>

definition init_transfer :: "eng_id \<Rightarrow> xdma_engine \<Rightarrow> xdma_request_cb \<Rightarrow> xdma_transfer" where
  "init_transfer e g req =
     (let virt = unat (e_desc_idx g); n = fit_word g req
      in zero_transfer
       \<lparr>x_dir := e_dir g, x_desc_virt := (e, virt), x_res_virt := (e, virt),
        x_desc_bus := e_desc_bus g + of_nat (sizeof_xdma_desc * virt),
        x_res_bus := e_cyclic_result_bus g + of_nat (sizeof_xdma_result * virt),
        x_desc_index := e_desc_idx g, x_len := sum_list (map sd_len (fit_descs g req)),
        x_desc_adjacent := n, x_desc_cmpl_th := (if e_eop_flush g then 1 else n), x_desc_num := n\<rparr>)"

definition init_engine :: "xdma_engine \<Rightarrow> xdma_request_cb \<Rightarrow> xdma_engine" where
  "init_engine g req =
     g\<lparr>e_cyclic_result := map_option (init_results g req) (e_cyclic_result g),
       e_desc_idx := (e_desc_idx g + fit_word g req) mod e_desc_max g,
       e_desc_used := e_desc_used g + fit_word g req,
       e_desc := Some (init_array g req (the (e_desc g)))\<rparr>"

lemma transfer_init_eq:
  assumes ready: "engine_ready (engs s e)" "request_ready req"
  shows "transfer_init e req t s =
     (0, req\<lparr>rq_ep_addr := ep_at (e_non_incr_addr (engs s e)) (fit_descs (engs s e) req)
                              (fit (engs s e) req) (rq_ep_addr req),
             rq_sw_desc_idx := rq_sw_desc_idx req + fit_word (engs s e) req\<rparr>,
      s\<lparr>xfers := (xfers s)(t := init_transfer e (engs s e) req),
        engs := (engs s)(e := init_engine (engs s e) req)\<rparr>)"
  unfolding transfer_init_def transfer_build_def Let_def case_prod_unfold
    fit_word_def [unfolded Let_def, symmetric]
  by (cases "e_eop_flush (engs s e)"; cases "e_cyclic_result (engs s e)")
    (simp_all add: unat_fit_word [OF ready] length_fit_descs [OF ready] build_loop_ep
      fit_descs_def [symmetric] init_engine_def init_transfer_def init_array_def init_results_def
      Let_def zero_transfer_def upd_eng_def upd_xfer_def)

subsection \<open>The descriptor chain\<close>

definition next_of :: "xdma_engine \<Rightarrow> nat \<Rightarrow> nat \<Rightarrow> u64" where
  "next_of g n i = (if i = n - 1 then 0
     else e_desc_bus g + of_nat (sizeof_xdma_desc * unat (e_desc_idx g)) + of_nat (sizeof_xdma_desc * (i + 1)))"

definition mark_of :: "bool \<Rightarrow> bool \<Rightarrow> xdma_desc \<Rightarrow> xdma_desc" where
  "mark_of is_last flush d =
     (if is_last then snd (xdma_desc_control_set d (XDMA_DESC_STOPPED OR XDMA_DESC_EOP OR XDMA_DESC_COMPLETED))
      else if flush then snd (xdma_desc_control_set d XDMA_DESC_COMPLETED) else d)"

definition chain_desc :: "xdma_engine \<Rightarrow> xdma_request_cb \<Rightarrow> nat \<Rightarrow> xdma_desc \<Rightarrow> xdma_desc" where
  "chain_desc g req i d =
     (let n = fit g req;
          d = desc_link_body (next_of g n i) d;
          d = built_desc (e_non_incr_addr g) (e_streaming g \<and> e_dir g = DMA_FROM_DEVICE) (e_dir g)
                (fit_descs g req) (e_cyclic_result_bus g + of_nat (sizeof_xdma_result * unat (e_desc_idx g)))
                (rq_ep_addr req) i d;
          d = mark_of (i = n - 1) (e_eop_flush g) d
      in xdma_desc_adjacent d (xdma_get_next_adj (of_nat n - of_nat i - 1) (PCI_DMA_L (next_of g n i))))"

lemma mark_of_keeps [simp]:
  "next_addr (mark_of l f d) = next_addr d" "next_lo (mark_of l f d) = next_lo d"
  "bytes (mark_of l f d) = bytes d" "src_addr (mark_of l f d) = src_addr d"
  "dst_addr (mark_of l f d) = dst_addr d" "adj_field (mark_of l f d) = adj_field d"
  by (simp_all add: mark_of_def)

lemma nth_init_array:
  assumes ready: "engine_ready g" "request_ready req" and ds: "e_desc g = Some ds"
  shows "init_array g req ds ! k =
     (if unat (e_desc_idx g) \<le> k \<and> k < unat (e_desc_idx g) + fit g req
      then chain_desc g req (k - unat (e_desc_idx g)) (ds ! k) else ds ! k)"
proof -
  let ?v = "unat (e_desc_idx g)" and ?n = "fit g req"
  have n: "0 < ?n" "?v + ?n \<le> length ds"
    using fit_bounds [OF ready] ready(1) ds by (simp_all add: engine_ready_def)
  define a1 where "a1 = transfer_desc_init ?v (e_desc_bus g + of_nat (sizeof_xdma_desc * ?v)) ?n ds"
  define a2 where "a2 = fst (snd (snd (build_loop (e_non_incr_addr g)
     (e_streaming g \<and> e_dir g = DMA_FROM_DEVICE) (e_dir g) (fit_descs g req) ?v
     (e_cyclic_result_bus g + of_nat (sizeof_xdma_result * ?v)) (rq_ep_addr req) 0 a1
     (case e_cyclic_result g of None \<Rightarrow> [] | Some rs \<Rightarrow> rs))))"
  define a3 where "a3 = a2[?v + (?n - 1) := snd (xdma_desc_control_set (a2 ! (?v + (?n - 1)))
                 (XDMA_DESC_STOPPED OR XDMA_DESC_EOP OR XDMA_DESC_COMPLETED))]"
  define a4 where "a4 = (if e_eop_flush g then control_loop ?v (?n - 1) a3 else a3)"
  have len: "length a1 = length ds" "length a2 = length ds" "length a3 = length ds" "length a4 = length ds"
    by (simp_all add: a1_def a2_def a3_def a4_def)
  have arr: "init_array g req ds = adjacent_loop ?v ?n a4"
    by (simp add: init_array_def Let_def a1_def a2_def a3_def a4_def)
  have a1: "a1 ! k = (if ?v \<le> k \<and> k < ?v + ?n then desc_link_body (next_of g ?n (k - ?v)) (ds ! k) else ds ! k)" for k
    using nth_transfer_desc_init [OF n] n by (auto simp: a1_def next_of_def)
  have a2: "a2 ! k = (if ?v \<le> k \<and> k < ?v + ?n then built_desc (e_non_incr_addr g)
        (e_streaming g \<and> e_dir g = DMA_FROM_DEVICE) (e_dir g) (fit_descs g req)
        (e_cyclic_result_bus g + of_nat (sizeof_xdma_result * ?v)) (rq_ep_addr req) (k - ?v) (a1 ! k)
      else a1 ! k)" for k
    unfolding a2_def by (subst nth_build_loop) (use n len in \<open>simp_all add: length_fit_descs [OF ready]\<close>)
  have a4: "a4 ! k = (if ?v \<le> k \<and> k < ?v + ?n then mark_of (k - ?v = ?n - 1) (e_eop_flush g) (a2 ! k) else a2 ! k)" for k
    using n len by (auto simp: a4_def a3_def mark_of_def nth_control_loop nth_list_update)
  show ?thesis
    using n len by (auto simp: arr nth_adjacent_loop a4 a2 a1 chain_desc_def Let_def)
qed

lemma chain_desc_fields:
  assumes "i < fit g req"
  shows "bytes (chain_desc g req i d) = sd_len (fit_descs g req ! i)"
    and "next_addr (chain_desc g req i d) = next_of g (fit g req) i"
    and "magic_field (chain_desc g req i d) = 0xAD4B"
    and "adj_field (chain_desc g req i d) =
           xdma_get_next_adj (of_nat (fit g req) - of_nat i - 1) (PCI_DMA_L (next_of g (fit g req) i))"
    and "ctl_field (chain_desc g req i d) =
           (if i = fit g req - 1 then XDMA_DESC_STOPPED OR XDMA_DESC_EOP OR XDMA_DESC_COMPLETED
            else if e_eop_flush g then XDMA_DESC_COMPLETED else 0)"
proof -
  have fresh: "adj_field (built_desc a b c ds bs ep j (desc_link_body x y)) = 0" for a b c ds bs ep j x y
    by (simp add: adj_field_def xdma_const)
  have ctl0: "ctl_field (built_desc a b c ds bs ep j (desc_link_body x y)) = 0" for a b c ds bs ep j x y
    by (simp add: ctl_field_def xdma_const)
  show "bytes (chain_desc g req i d) = sd_len (fit_descs g req ! i)"
    "next_addr (chain_desc g req i d) = next_of g (fit g req) i"
    "magic_field (chain_desc g req i d) = 0xAD4B"
    "adj_field (chain_desc g req i d) =
           xdma_get_next_adj (of_nat (fit g req) - of_nat i - 1) (PCI_DMA_L (next_of g (fit g req) i))"
    by (simp_all add: chain_desc_def Let_def magic_field_adjacent adj_field_adjacent fresh
        xdma_get_next_adj_less)
  show "ctl_field (chain_desc g req i d) =
           (if i = fit g req - 1 then XDMA_DESC_STOPPED OR XDMA_DESC_EOP OR XDMA_DESC_COMPLETED
            else if e_eop_flush g then XDMA_DESC_COMPLETED else 0)"
    by (simp add: chain_desc_def Let_def mark_of_def ctl0)
      (simp add: control_set_ctl xdma_const)
qed

lemma chain_desc_ends:
  "e_dir g = DMA_TO_DEVICE \<Longrightarrow> src_addr (chain_desc g req i d) = sd_addr (fit_descs g req ! i)
     \<and> dst_addr (chain_desc g req i d) = ep_at (e_non_incr_addr g) (fit_descs g req) i (rq_ep_addr req)"
  "e_dir g = DMA_FROM_DEVICE \<Longrightarrow> dst_addr (chain_desc g req i d) = sd_addr (fit_descs g req ! i)
     \<and> src_addr (chain_desc g req i d) =
         (if e_streaming g then e_cyclic_result_bus g + of_nat (sizeof_xdma_result * (unat (e_desc_idx g) + i))
          else ep_at (e_non_incr_addr g) (fit_descs g req) i (rq_ep_addr req))"
  by (simp_all add: chain_desc_def Let_def built_desc_ends algebra_simps)

text \<open>
  What an engine does with a chain, as the descriptor format prescribes: it copies
  \<open>bytes\<close> bytes from the source to the destination address and goes on at the next address
  until a descriptor has the stop bit. \<open>base\<close> is the bus address of the array.
\<close>

primrec hw_walk :: "nat \<Rightarrow> u64 \<Rightarrow> xdma_desc list \<Rightarrow> u64 \<Rightarrow> (u64 \<times> u64 \<times> u32) list" where
  "hw_walk 0 base ds a = []"
| "hw_walk (Suc fuel) base ds a =
     (let d = ds ! (unat (a - base) div sizeof_xdma_desc)
      in (src_addr d, dst_addr d, bytes d) #
         (if ctl_field d AND XDMA_DESC_STOPPED \<noteq> 0 then [] else hw_walk fuel base ds (next_addr d)))"

text \<open>What a request asks for: host and end point addresses of each software descriptor.\<close>

definition wanted :: "xdma_engine \<Rightarrow> xdma_request_cb \<Rightarrow> nat \<Rightarrow> u64 \<times> u64 \<times> u32" where
  "wanted g req i =
     (let sd = fit_descs g req ! i;
          ep = ep_at (e_non_incr_addr g) (fit_descs g req) i (rq_ep_addr req)
      in if e_dir g = DMA_TO_DEVICE then (sd_addr sd, ep, sd_len sd)
         else if e_streaming g
         then (e_cyclic_result_bus g + of_nat (sizeof_xdma_result * (unat (e_desc_idx g) + i)),
               sd_addr sd, sd_len sd)
         else (ep, sd_addr sd, sd_len sd))"

lemma chain_desc_wanted:
  assumes "i < fit g req" and "e_dir g = DMA_TO_DEVICE \<or> e_dir g = DMA_FROM_DEVICE"
  shows "(src_addr (chain_desc g req i d), dst_addr (chain_desc g req i d), bytes (chain_desc g req i d))
           = wanted g req i"
  using assms(2) chain_desc_fields(1) [OF assms(1)]
  by (auto simp: wanted_def Let_def chain_desc_ends)

lemma chain_desc_stops:
  assumes "i < fit g req"
  shows "ctl_field (chain_desc g req i d) AND XDMA_DESC_STOPPED \<noteq> 0 \<longleftrightarrow> i = fit g req - 1"
  using chain_desc_fields(5) [OF assms] by (simp add: xdma_const)

lemma slot_of_bus:
  assumes "k < 2 ^ 31"
  shows "unat (base + of_nat (sizeof_xdma_desc * k) - base :: u64) div sizeof_xdma_desc = k"
proof -
  have "unat (of_nat (32 * k) :: u64) = 32 * k" using assms by (intro unat_of_nat_small) simp
  then show ?thesis by (simp add: sizeof_xdma_desc_def)
qed

text \<open>
  A block of \<open>n\<close> descriptors from index \<open>v\<close> on that is linked by bus addresses and of which
  only the last has the stop bit is visited in order.
\<close>

definition desc_move :: "xdma_desc \<Rightarrow> u64 \<times> u64 \<times> u32" where
  "desc_move d = (src_addr d, dst_addr d, bytes d)"

definition linked :: "u64 \<Rightarrow> xdma_desc list \<Rightarrow> nat \<Rightarrow> nat \<Rightarrow> bool" where
  "linked base ds v n \<longleftrightarrow> v + n \<le> 2 ^ 31 \<and>
     (\<forall>i<n. (ctl_field (ds ! (v + i)) AND XDMA_DESC_STOPPED \<noteq> 0 \<longleftrightarrow> i = n - 1) \<and>
           (i \<noteq> n - 1 \<longrightarrow> next_addr (ds ! (v + i)) = base + of_nat (sizeof_xdma_desc * (v + Suc i))))"

lemma hw_walk_linked:
  assumes "linked base ds v n"
  shows "i < n \<Longrightarrow> n - i \<le> fuel \<Longrightarrow>
    hw_walk fuel base ds (base + of_nat (sizeof_xdma_desc * (v + i)))
      = map (\<lambda>i. desc_move (ds ! (v + i))) [i..<n]"
proof (induction fuel arbitrary: i)
  case 0
  then show ?case by simp
next
  case (Suc fuel)
  have "v + i < 2 ^ 31" using assms Suc.prems by (simp add: linked_def)
  note slot = slot_of_bus [OF this, of base]
  have stop: "ctl_field (ds ! (v + i)) AND XDMA_DESC_STOPPED \<noteq> 0 \<longleftrightarrow> i = n - 1"
    and nx: "i \<noteq> n - 1 \<Longrightarrow> next_addr (ds ! (v + i)) = base + of_nat (sizeof_xdma_desc * (v + Suc i))"
    using assms Suc.prems by (simp_all add: linked_def)
  have "map f [i..<n] = f i # map f [Suc i..<n]" for f :: "nat \<Rightarrow> u64 \<times> u64 \<times> u32"
    using Suc.prems by (simp add: upt_conv_Cons)
  then show ?case
    using Suc.IH [of "Suc i"] Suc.prems nx slot stop
    by (cases "i = n - 1") (simp_all add: Let_def desc_move_def del: of_nat_mult of_nat_add)
qed

lemma hw_walk_init_array:
  assumes ready: "engine_ready g" "request_ready req" and ds: "e_desc g = Some ds"
    and dir: "e_dir g = DMA_TO_DEVICE \<or> e_dir g = DMA_FROM_DEVICE"
    and fuel: "fit g req \<le> fuel"
  shows "hw_walk fuel (e_desc_bus g) (init_array g req ds)
      (e_desc_bus g + of_nat (sizeof_xdma_desc * unat (e_desc_idx g)))
      = map (wanted g req) [0..<fit g req]"
proof -
  let ?v = "unat (e_desc_idx g)"
  have d: "init_array g req ds ! (?v + i) = chain_desc g req i (ds ! (?v + i))" if "i < fit g req" for i
    using nth_init_array [OF ready ds] that by simp
  have "next_addr (chain_desc g req i x) = e_desc_bus g + of_nat (sizeof_xdma_desc * (?v + Suc i))"
    if "i < fit g req" "i \<noteq> fit g req - 1" for i x
    using that by (simp add: chain_desc_fields next_of_def algebra_simps)
  then have "linked (e_desc_bus g) (init_array g req ds) ?v (fit g req)"
    using fit_bounds(2) [OF ready] ready(1)
    by (simp add: linked_def engine_ready_def d chain_desc_stops del: of_nat_mult of_nat_add)
  from hw_walk_linked [OF this, of 0] fit_bounds(1) [OF ready] fuel show ?thesis
    by (simp add: d desc_move_def chain_desc_wanted [OF _ dir] del: of_nat_mult)
qed

text \<open>
  C3: The chain a transfer hands to the hardware does what the request asks. After
  \<open>transfer_init\<close>, walking the descriptor array from the transfer's bus address, as the
  engine does, visits one descriptor per software descriptor that fits before the end of
  the array, copies exactly the wanted byte counts between the wanted host and end point
  addresses, in order, and then stops.
\<close>

theorem transfer_init_chain:
  assumes "engine_ready (engs s e)" and "request_ready req"
    and "e_dir (engs s e) = DMA_TO_DEVICE \<or> e_dir (engs s e) = DMA_FROM_DEVICE"
    and "transfer_init e req t s = (rv, req', s')"
  shows "hw_walk (unat (e_desc_max (engs s e))) (e_desc_bus (engs s e)) (the (e_desc (engs s' e)))
           (x_desc_bus (xfers s' t))
         = map (wanted (engs s e) req) [0..<fit (engs s e) req]"
proof -
  obtain ds where ds: "e_desc (engs s e) = Some ds"
    using assms(1) by (auto simp: engine_ready_def split: option.splits)
  have "fit (engs s e) req \<le> unat (e_desc_max (engs s e))"
    using fit_bounds(2) [OF assms(1,2)] by simp
  from hw_walk_init_array [OF assms(1,2) ds assms(3) this]
  show ?thesis
    using assms(4) ds
    by (auto simp: transfer_init_eq [OF assms(1,2)] init_engine_def init_transfer_def Let_def
        simp del: of_nat_mult)
qed

text \<open>
  C34: \<open>transfer_init\<close> stays inside the descriptor array and makes progress. It uses at
  least one descriptor, none beyond the end of the array and none beyond the request's;
  it changes no descriptor outside the block it allocates, no other engine and no other
  transfer; the request's position and the engine's next free index advance by the number
  used, and the engine is ready for the next call.
\<close>

theorem transfer_init_in_bounds:
  assumes "engine_ready (engs s e)" and "request_ready req"
    and "transfer_init e req t s = (rv, req', s')"
  shows "rv = 0 \<and> x_state (xfers s' t) = TRANSFER_STATE_NEW \<and>
    0 < unat (x_desc_num (xfers s' t)) \<and>
    unat (e_desc_idx (engs s e)) + unat (x_desc_num (xfers s' t)) \<le> unat (e_desc_max (engs s e)) \<and>
    unat (rq_sw_desc_idx req') = unat (rq_sw_desc_idx req) + unat (x_desc_num (xfers s' t)) \<and>
    rq_sw_desc_idx req' \<le> rq_sw_desc_cnt req' \<and> rq_sdesc req' = rq_sdesc req \<and>
    engine_ready (engs s' e) \<and>
    unat (e_desc_idx (engs s' e)) =
      (unat (e_desc_idx (engs s e)) + unat (x_desc_num (xfers s' t))) mod unat (e_desc_max (engs s e)) \<and>
    (\<forall>k. k < unat (e_desc_idx (engs s e)) \<or>
         unat (e_desc_idx (engs s e)) + unat (x_desc_num (xfers s' t)) \<le> k \<longrightarrow>
         the (e_desc (engs s' e)) ! k = the (e_desc (engs s e)) ! k) \<and>
    (\<forall>e'. e' \<noteq> e \<longrightarrow> engs s' e' = engs s e') \<and> (\<forall>t'. t' \<noteq> t \<longrightarrow> xfers s' t' = xfers s t')"
proof -
  let ?g = "engs s e" and ?n = "fit_word (engs s e) req"
  obtain ds where ds: "e_desc ?g = Some ds"
    using assms(1) by (auto simp: engine_ready_def split: option.splits)
  note n = unat_fit_word [OF assms(1,2)]
  note b = fit_bounds [OF assms(1,2)]
  have max: "unat (e_desc_max ?g) < 2 ^ 31" and idx: "unat (e_desc_idx ?g) < unat (e_desc_max ?g)"
    using assms(1) by (simp_all add: engine_ready_def word_less_nat_alt)
  have cnt: "length (rq_sdesc req) = unat (rq_sw_desc_cnt req)"
    using assms(2) by (simp add: request_ready_def)
  have rq: "unat (rq_sw_desc_idx req + ?n) = unat (rq_sw_desc_idx req) + fit ?g req"
    using b(3) cnt unat_bound [of "rq_sw_desc_cnt req"] by (subst unat_add_small) (simp_all add: n)
  have ix: "unat ((e_desc_idx ?g + ?n) mod e_desc_max ?g)
            = (unat (e_desc_idx ?g) + fit ?g req) mod unat (e_desc_max ?g)"
    using b(2) max by (simp add: unat_mod_distrib unat_add_small n)
  have ready': "engine_ready (init_engine ?g req)"
    using assms(1) ds ix idx by (simp add: engine_ready_def init_engine_def word_less_nat_alt)
  have frame: "\<forall>k. k < unat (e_desc_idx ?g) \<or> unat (e_desc_idx ?g) + fit ?g req \<le> k \<longrightarrow>
      the (e_desc (init_engine ?g req)) ! k = the (e_desc ?g) ! k"
    using nth_init_array [OF assms(1,2) ds] by (simp add: init_engine_def ds)
  show ?thesis
    using assms(3) ready' frame b rq cnt ix
    unfolding transfer_init_eq [OF assms(1,2)]
    by (auto simp: n init_transfer_def Let_def zero_transfer_def word_le_nat_alt)
      (simp_all add: init_engine_def)
qed

lemma next_lo_chain_desc [simp]: "next_lo (chain_desc g req i d) = PCI_DMA_L (next_of g (fit g req) i)"
  by (simp add: chain_desc_def Let_def)

lemma aligned_bus:
  assumes "unat (PCI_DMA_L base) mod 32 = 0"
  shows "unat (PCI_DMA_L (base + of_nat (32 * k))) mod 32 = 0"
proof -
  have "unat (PCI_DMA_L a) mod 32 = unat a mod 32" for a
    by (simp add: unat_PCI_DMA_L mod_mod_cancel)
  moreover have "unat (base + of_nat (32 * k)) mod 32 = (unat base + 32 * k) mod 32"
    by (simp add: unat_word_ariths unat_of_nat mod_mod_cancel mod_add_right_eq del: of_nat_mult)
  ultimately show ?thesis using assms by simp
qed

lemma adjacent_block:
  fixes nlo r a :: nat
  assumes "nlo mod 32 = 0" and "0 < r"
    and a: "a = (if r \<le> 1 then 0 else min (63 - (nlo div 32) mod 64) (r - 1))"
  shows "a < r" and "nlo mod 4096 + 32 * Suc a \<le> 4096"
    and "Suc a = r \<or> (nlo + 32 * Suc a) mod 2048 = 0"
proof -
  obtain q where q: "nlo = 32 * q" using assms(1) by auto
  have m: "nlo mod 4096 = 32 * (q mod 128)" by (simp add: q mult_mod_right)
  have half: "q mod 128 \<le> 64 + q mod 64" using mod_mult2_eq [of q 64 2] by simp
  have le: "a \<le> 63 - q mod 64" using a by (simp add: q)
  have "a \<le> r - 1" using a by (cases "r \<le> 1") simp_all
  then show "a < r" using assms(2) by linarith
  have "q mod 64 < 64" by simp
  then have "q mod 128 + Suc a \<le> 128" using half le by linarith
  then show "nlo mod 4096 + 32 * Suc a \<le> 4096" by (simp add: m)
  show "Suc a = r \<or> (nlo + 32 * Suc a) mod 2048 = 0"
  proof (cases "Suc a = r")
    case False
    then have "a = 63 - q mod 64" using a assms(2) by (simp add: q min_def split: if_splits)
    moreover have "x + Suc (63 - r) = 64 * Suc m" if "x = 64 * m + r" "r < 64" for x m r :: nat
      using that by simp
    from this [of q "q div 64" "q mod 64"] have "q + Suc (63 - q mod 64) = 64 * Suc (q div 64)" by simp
    ultimately have "q + Suc a = 64 * Suc (q div 64)" by (simp only:)
    then have "nlo + 32 * Suc a = 2048 * Suc k" if "k = q div 64" for k
      using that unfolding q by simp
    then show ?thesis by (metis mod_mult_self1_is_0)
  qed simp
qed

text \<open>
  C35: The adjacent counts are safe to prefetch with. A descriptor of the chain built by
  \<open>transfer_init\<close> announces, for the block that starts at its successor, no more
  descriptors than the chain still has; with a descriptor array aligned to the size of a
  descriptor the announced block does not cross a page; and the count is the largest with
  that property or the block reaches the end of its 64-descriptor group.
\<close>

theorem transfer_init_adjacent:
  assumes "engine_ready (engs s e)" and "request_ready req"
    and "transfer_init e req t s = (rv, req', s')"
    and "Suc i < unat (x_desc_num (xfers s' t))"
    and "d = the (e_desc (engs s' e)) ! (unat (e_desc_idx (engs s e)) + i)"
    and "unat (PCI_DMA_L (e_desc_bus (engs s e))) mod sizeof_xdma_desc = 0"
  shows "Suc i + unat (adj_field d) < unat (x_desc_num (xfers s' t)) \<and>
    unat (next_lo d) mod 4096 + sizeof_xdma_desc * Suc (unat (adj_field d)) \<le> 4096 \<and>
    (Suc i + Suc (unat (adj_field d)) = unat (x_desc_num (xfers s' t)) \<or>
     (unat (next_lo d) + sizeof_xdma_desc * Suc (unat (adj_field d))) mod (64 * sizeof_xdma_desc) = 0)"
proof -
  let ?g = "engs s e" and ?n = "fit (engs s e) req"
  let ?nx = "next_of ?g ?n i"
  obtain ds where ds: "e_desc ?g = Some ds"
    using assms(1) by (auto simp: engine_ready_def split: option.splits)
  have num: "unat (x_desc_num (xfers s' t)) = ?n"
    using assms(3) by (auto simp: transfer_init_eq [OF assms(1,2)] init_transfer_def Let_def
        unat_fit_word [OF assms(1,2)])
  then have i: "Suc i < ?n" using assms(4) by simp
  have n: "?n < 2 ^ 31" using fit_bounds(2) [OF assms(1,2)] assms(1) by (simp add: engine_ready_def)
  have d: "d = chain_desc ?g req i (ds ! (unat (e_desc_idx ?g) + i))"
    using assms(3,5) i nth_init_array [OF assms(1,2) ds]
    by (auto simp: transfer_init_eq [OF assms(1,2)] init_engine_def ds)
  have rem: "unat (of_nat ?n - of_nat i - 1 :: u32) = ?n - i - 1"
  proof -
    have "(of_nat ?n - of_nat i - 1 :: u32) = of_nat (?n - i - 1)" using i by (simp add: of_nat_diff)
    then show ?thesis using n by (simp only:) (intro unat_of_nat_small, simp)
  qed
  have adj: "unat (adj_field d) = (if ?n - i - 1 \<le> 1 then 0
      else min (63 - (unat (PCI_DMA_L ?nx) div 32) mod 64) (?n - i - 1 - 1))"
    using i by (simp add: d chain_desc_fields unat_xdma_get_next_adj rem)
  have "?nx = e_desc_bus ?g + of_nat (32 * (unat (e_desc_idx ?g) + i + 1))"
    using i by (auto simp: next_of_def sizeof_xdma_desc_def algebra_simps)
  then have "unat (PCI_DMA_L ?nx) mod 32 = 0"
    using aligned_bus assms(6) by (simp only: sizeof_xdma_desc_def)
  note block = adjacent_block [OF this _ adj]
  then show ?thesis using i by (auto simp: num d sizeof_xdma_desc_def)
qed

subsection \<open>Queueing\<close>

text \<open>
  The value \<open>engine_start_mode_config\<close> writes to the control register, and the register
  accesses that hand the transfer \<open>x\<close> to the idle engine \<open>g\<close>.
\<close>

definition start_control :: "'k kenv_scheme \<Rightarrow> xdma_engine \<Rightarrow> u32" where
  "start_control K g =
     (let w = XDMA_CTRL_RUN_STOP OR XDMA_CTRL_IE_READ_ERROR OR XDMA_CTRL_IE_DESC_ERROR OR
              XDMA_CTRL_IE_DESC_ALIGN_MISMATCH OR XDMA_CTRL_IE_MAGIC_STOPPED;
          w = (if poll_mode K \<noteq> 0 then w OR XDMA_CTRL_POLL_MODE_WB
               else w OR XDMA_CTRL_IE_DESC_STOPPED OR XDMA_CTRL_IE_DESC_COMPLETED)
      in if e_non_incr_addr g then w OR XDMA_CTRL_NON_INCR_ADDR else w)"

definition start_events :: "'k kenv_scheme \<Rightarrow> xdma_engine \<Rightarrow> xdma_transfer \<Rightarrow> io_log" where
  "start_events K g x =
     (if st_c2h_credit K g then [IoWrite (e_sgdma_regs g + sg_credits) (e_desc_used g)] else []) @
     [IoWrite (e_sgdma_regs g + sg_first_desc_lo) (PCI_DMA_L (x_desc_bus x)),
      IoWrite (e_sgdma_regs g + sg_first_desc_hi) (PCI_DMA_H (x_desc_bus x)),
      IoWrite (e_sgdma_regs g + sg_first_desc_adjacent)
        (xdma_get_next_adj (x_desc_adjacent x) (PCI_DMA_L (x_desc_bus x)))] @
     (if e_xdma_perf g
      then [IoWrite (e_regs g + er_interrupt_enable_mask)
              (XDMA_CTRL_IE_DESC_STOPPED OR XDMA_CTRL_IE_DESC_COMPLETED OR
               XDMA_CTRL_IE_DESC_ALIGN_MISMATCH OR XDMA_CTRL_IE_MAGIC_STOPPED OR
               XDMA_CTRL_IE_IDLE_STOPPED OR XDMA_CTRL_IE_READ_ERROR OR XDMA_CTRL_IE_DESC_ERROR)]
      else []) @
     [IoWrite (e_regs g + er_control) (start_control K g),
      IoRead (e_regs g + er_status), IoRead (e_regs g + er_status)]"

lemma start_control_run: "start_control K g AND XDMA_CTRL_RUN_STOP \<noteq> 0"
  by (simp add: start_control_def xdma_const)

lemma engine_start_events:
  assumes "\<not> e_running (engs s e)" and "e_transfer_list (engs s e) = t # ts"
  shows "iolog (snd (engine_start K (Some e) s)) = iolog s @ start_events K (engs s e) (xfers s t)"
  using assms
  by (simp add: engine_start_def start_events_def start_control_def engine_start_mode_config_def
      engine_status_read_def Let_def case_prod_unfold st_c2h_credit_def or.assoc)

text \<open>
  C33: Queueing a transfer. If the device is offline or the engine is being shut down the
  call returns \<open>-EBUSY\<close> and neither the transfers, the queue nor the hardware change.
  Otherwise it returns 0, the transfer is submitted and last in the queue, and the engine
  runs: one that was idle has been given the head of the queue, its bus address and
  adjacent count written before the run bit is set; one that was already running is not
  touched.
\<close>

theorem transfer_queue_effect:
  assumes "transfer_queue K (Some e) (Some t) s = (rv, s')"
    and "e_xdev (engs s e) = Some d" and "x_desc_num (xfers s t) \<noteq> 0"
    and "refuse \<longleftrightarrow> xdma_device_flag_check d XDEV_FLAG_OFFLINE s \<noteq> 0 \<or>
                  e_shutdown (engs s e) AND ENGINE_SHUTDOWN_REQUEST \<noteq> 0"
  shows "(refuse \<longrightarrow> rv = - EBUSY \<and> xfers s' = xfers s \<and> iolog s' = iolog s \<and>
            e_transfer_list (engs s' e) = e_transfer_list (engs s e) \<and>
            e_running (engs s' e) = e_running (engs s e)) \<and>
         (\<not> refuse \<longrightarrow> rv = 0 \<and> e_transfer_list (engs s' e) = e_transfer_list (engs s e) @ [t] \<and>
            xfers s' = (xfers s)(t := (xfers s t)\<lparr>x_state := TRANSFER_STATE_SUBMITTED\<rparr>) \<and>
            e_running (engs s' e) \<and>
            (e_running (engs s e) \<longrightarrow> iolog s' = iolog s) \<and>
            (\<not> e_running (engs s e) \<longrightarrow>
               start_control K (engs s e) AND XDMA_CTRL_RUN_STOP \<noteq> 0 \<and>
               iolog s' = iolog s @ start_events K (engs s e)
                 (xfers s (hd (e_transfer_list (engs s e) @ [t]))))) \<and>
         (\<forall>e'. e' \<noteq> e \<longrightarrow> engs s' e' = engs s e') \<and> devs s' = devs s \<and> notices s' = notices s"
proof (cases "refuse")
  case True
  then show ?thesis using assms by (auto simp: transfer_queue_def Let_def split: if_splits)
next
  case False
  define s1 where "s1 = upd_eng e (\<lambda>g. g\<lparr>e_prev_cpu := get_cpu K\<rparr>) s"
  define s2 where "s2 = upd_eng e (\<lambda>g. g\<lparr>e_transfer_list := e_transfer_list g @ [t]\<rparr>)
    (upd_xfer t (\<lambda>x. x\<lparr>x_state := TRANSFER_STATE_SUBMITTED\<rparr>) s1)"
  have s': "(rv, s') = (0, if e_running (engs s2 e) then s2 else snd (engine_start K (Some e) s2))"
    using assms False by (simp add: transfer_queue_def Let_def s2_def s1_def split: if_splits)
  have s2: "e_transfer_list (engs s2 e) = e_transfer_list (engs s e) @ [t]"
    "xfers s2 = (xfers s)(t := (xfers s t)\<lparr>x_state := TRANSFER_STATE_SUBMITTED\<rparr>)"
    "e_running (engs s2 e) = e_running (engs s e)" "iolog s2 = iolog s" "devs s2 = devs s"
    "notices s2 = notices s" "\<And>e'. e' \<noteq> e \<Longrightarrow> engs s2 e' = engs s e'"
    by (simp_all add: s2_def s1_def)
  show ?thesis
  proof (cases "e_running (engs s e)")
    case True
    then show ?thesis using s' s2 False by simp
  next
    case idle: False
    obtain h hs where q: "e_transfer_list (engs s e) @ [t] = h # hs"
      by (cases "e_transfer_list (engs s e) @ [t]") auto
    obtain w where run: "engs (snd (engine_start K (Some e) s2)) =
        (engs s2)(e := (engs s2 e)\<lparr>e_shutdown := ENGINE_SHUTDOWN_NONE, e_desc_dequeued := 0,
                                  e_status := w, e_running := True\<rparr>)"
      using engine_start_idle(2) [of s2 e h hs K] idle s2(1,3) q by (metis (no_types, lifting))
    have "start_events K (engs s2 e) (xfers s2 h) = start_events K (engs s e) (xfers s h)"
      by (simp add: start_events_def start_control_def st_c2h_credit_def s2_def s1_def)
    then have "iolog (snd (engine_start K (Some e) s2)) = iolog s @ start_events K (engs s e) (xfers s h)"
      using engine_start_events [of s2 e h hs K] idle s2(1,3,4) q by simp
    then show ?thesis using s' s2 False idle run q by (simp add: start_control_run)
  qed
qed

subsection \<open>Examples\<close>

definition sample_request :: xdma_request_cb where
  "sample_request = zero_request\<lparr>rq_ep_addr := 0x80, rq_sw_desc_cnt := 2,
     rq_sdesc := [\<lparr>sd_addr = 0x1000, sd_len = 256\<rparr>, \<lparr>sd_addr = 0x3000, sd_len = 16\<rparr>]\<rparr>"

lemma sample_request_fields [simp]:
  "rq_ep_addr sample_request = 0x80" "rq_sw_desc_cnt sample_request = 2" "rq_sw_desc_idx sample_request = 0"
  "rq_sdesc sample_request = [\<lparr>sd_addr = 0x1000, sd_len = 256\<rparr>, \<lparr>sd_addr = 0x3000, sd_len = 16\<rparr>]"
  by (simp_all add: sample_request_def zero_request_def)

lemma sample_ready [simp]:
  "engine_ready sample_engine" "request_ready sample_request"
  "fit sample_engine sample_request = 2" "fit_word sample_engine sample_request = 2"
  by (simp_all add: engine_ready_def request_ready_def fit_def fit_word_def)

lemma sample_transfer [simp]:
  "x_desc_num (xfers (snd (snd (transfer_init e sample_request t sample_drv))) t) = 2"
  "x_desc_bus (xfers (snd (snd (transfer_init e sample_request t sample_drv))) t) = 0x10000"
  by (simp_all add: transfer_init_eq init_transfer_def)

theorem transfer_init_chain_witness:
  "hw_walk 4 0x10000
     (the (e_desc (engs (snd (snd (transfer_init (0, H2C, 0) sample_request 7 sample_drv))) (0, H2C, 0))))
     0x10000
   = [(0x1000, 0x80, 256), (0x3000, 0x180, 16)]"
  using transfer_init_chain [OF _ _ _ triple_collapse, of sample_drv "(0, H2C, 0)" sample_request 7]
  by (simp add: upt_rec wanted_def fit_descs_def ep_at_def)

theorem transfer_init_in_bounds_witness:
  "engine_ready (engs (snd (snd (transfer_init (0, H2C, 0) sample_request 7 sample_drv))) (0, H2C, 0)) \<and>
   unat (e_desc_idx (engs (snd (snd (transfer_init (0, H2C, 0) sample_request 7 sample_drv))) (0, H2C, 0))) = 2"
  using transfer_init_in_bounds [OF _ _ triple_collapse, of sample_drv "(0, H2C, 0)" sample_request 7]
  by simp

theorem transfer_init_adjacent_witness:
  "adj_field (the (e_desc (engs (snd (snd (transfer_init (0, H2C, 0) sample_request 7 sample_drv)))
      (0, H2C, 0))) ! 0) = 0"
proof -
  let ?r = "transfer_init (0, H2C, 0) sample_request 7 sample_drv"
  have "Suc 0 + unat (adj_field (the (e_desc (engs (snd (snd ?r)) (0, H2C, 0))) ! 0))
        < unat (x_desc_num (xfers (snd (snd ?r)) 7))"
    by (rule transfer_init_adjacent [where s = sample_drv and e = "(0, H2C, 0)"
          and req = sample_request and t = 7 and i = 0, OF _ _ triple_collapse, THEN conjunct1])
      (simp_all add: PCI_DMA_L_def sizeof_xdma_desc_def)
  then show ?thesis by (simp add: unat_eq_0)
qed

theorem transfer_queue_effect_witness:
  "e_transfer_list (engs (snd (transfer_queue (sample_env 0) (Some (0, H2C, 0)) (Some 7)
       (upd_xfer 7 (\<lambda>x. x\<lparr>x_desc_num := 2\<rparr>) sample_drv))) (0, H2C, 0)) = [7]"
  using transfer_queue_effect [OF pair_collapse, where e = "(0, H2C, 0)" and t = 7 and d = 0
      and s = "upd_xfer 7 (\<lambda>x. x\<lparr>x_desc_num := 2\<rparr>) sample_drv" and refuse = False
      and K = "sample_env 0"]
  by (simp add: xdma_device_flag_check_def)

end
