(* ===== verification/Xdma_Submit.thy ===== *)
theory Xdma_Submit
  imports Xdma_Transfer
begin

text \<open>
  Submitting a request (\<open>xdma_xfer_submit\<close>, \<open>xdma_xfer_submit_nowait\<close>,
  \<open>xdma_xfer_completion\<close> of src/src/libxdma.c).

  While the submitting thread waits for a transfer, interrupts and other threads run.
  What they do to the driver's state in the \<open>n\<close>-th wait is the parameter \<open>meanwhile\<close>.
  \<open>USE_WAKE_UP\<close> is 0 in this driver, so the wait is the busy loop
  \<open>while (xfer->state == TRANSFER_STATE_NEW);\<close>. The kernel's DMA mapping and allocator are
  parameters too. A call that does not return (a trap, a write past the end of an array,
  an endless loop) is \<open>None\<close>.
\<close>

subsection \<open>Parameters\<close>

record xenv = kenv +
  map_sg :: "sg_table \<Rightarrow> scatterlist list \<times> nat"
  req_alloc :: "u32 \<Rightarrow> bool"
  sizeof_cb :: nat
  meanwhile :: "nat \<Rightarrow> drv \<Rightarrow> drv"

subsection \<open>Looking up the device\<close>

text \<open>A \<open>NULL\<close> PCI device is 0.\<close>

definition xdev_find_by_pdev :: "nat \<Rightarrow> drv \<Rightarrow> nat option" where
  "xdev_find_by_pdev pdev s = find (\<lambda>d. dv_pdev (devs s d) = pdev) (xdev_list s)"

definition debug_check_dev_hndl :: "nat \<Rightarrow> nat \<Rightarrow> drv \<Rightarrow> int" where
  "debug_check_dev_hndl pdev hndl s =
     (if pdev = 0 then - EINVAL
      else case xdev_find_by_pdev pdev s of
             None \<Rightarrow> - EINVAL
           | Some d \<Rightarrow> if d \<noteq> hndl then - EINVAL else 0)"

subsection \<open>Operations\<close>

text \<open>The checks and the mapping both submitting functions start with.\<close>

definition submit_checks :: "nat option \<Rightarrow> nat \<Rightarrow> bool \<Rightarrow> drv \<Rightarrow> int + eng_id" where
  "submit_checks dev_hndl channel write s =
     (case dev_hndl of None \<Rightarrow> Inl (- EINVAL)
      | Some d \<Rightarrow>
        if debug_check_dev_hndl (dv_pdev (devs s d)) d s < 0 then Inl (- EINVAL)
        else if write \<and> dv_h2c_channel_max (devs s d) \<le> channel then Inl (- EINVAL)
        else if \<not> write \<and> dv_c2h_channel_max (devs s d) \<le> channel then Inl (- EINVAL)
        else let e = (d, if write then H2C else C2H, channel)
        in if e_magic (engs s e) \<noteq> MAGIC_ENGINE then Inl (- EINVAL)
        else if xdma_device_flag_check (the (e_xdev (engs s e))) XDEV_FLAG_OFFLINE s \<noteq> 0 then Inl (- EBUSY)
        else if e_dir (engs s e) \<noteq> (if write then DMA_TO_DEVICE else DMA_FROM_DEVICE) then Inl (- EINVAL)
        else Inr e)"

definition submit_map :: "'k xenv_scheme \<Rightarrow> nat \<Rightarrow> bool \<Rightarrow> drv \<Rightarrow> int \<times> drv" where
  "submit_map K g dma_mapped s =
     (if \<not> dma_mapped
      then let (es, n) = map_sg K (sgts s g)
           in if n = 0 then (- EIO, s)
              else (0, upd_sgt g (\<lambda>t. t\<lparr>sgl := es, nents := n\<rparr>) (tell (Map_sg g) s))
      else if nents (sgts s g) = 0 then (- EIO, s) else (0, s))"

text \<open>The label \<open>unmap_sgl\<close>.\<close>

definition unmap_sgl :: "nat \<Rightarrow> bool \<Rightarrow> drv \<Rightarrow> drv" where
  "unmap_sgl g dma_mapped s =
     (if \<not> dma_mapped \<and> nents (sgts s g) \<noteq> 0
      then upd_sgt g (\<lambda>t. t\<lparr>nents := 0\<rparr>) (tell (Unmap_sg g) s) else s)"

definition streaming_done :: "drv \<Rightarrow> xid \<Rightarrow> u32 \<Rightarrow> int" where
  "streaming_done s t n =
     sum_list (map (\<lambda>i. int (unat (r_length (result_at s (x_res_virt (xfers s t)) i)))) [0..<unat n])"

text \<open>The \<open>switch\<close> on the transfer's state after the wait: result, bytes done, what is left.\<close>

definition submit_settle ::
  "'k xenv_scheme \<Rightarrow> eng_id \<Rightarrow> xid \<Rightarrow> int \<Rightarrow> u32 \<Rightarrow> drv \<Rightarrow> int \<times> int \<times> u32 \<times> drv" where
  "submit_settle K e t done left s =
     (case x_state (xfers s t) of
        TRANSFER_STATE_COMPLETED \<Rightarrow>
          if e_streaming (engs s e) \<and> e_dir (engs s e) = DMA_FROM_DEVICE
          then (0, done + streaming_done s t (x_desc_cmpl (xfers s t)),
                if e_eop_flush (engs s e) then 0 else left, s)
          else (0, done + int (unat (x_len (xfers s t))), left, s)
      | TRANSFER_STATE_FAILED \<Rightarrow> (- EIO, done, left, s)
      | _ \<Rightarrow>
          let (rv, s) = engine_status_read K (Some e) False True s;
              s = (if rv = 0
                   then let (rv, s) = transfer_abort (Some e) (Some t) s
                        in if rv = 0 then snd (xdma_engine_stop K (Some e) s) else s
                   else s)
          in (- ERESTARTSYS, done, left, s))"

text \<open>What \<open>xdma_xfer_submit\<close> and \<open>xdma_xfer_submit_nowait\<close> do to a transfer before queueing it.\<close>

definition mark_transfer :: "nat \<Rightarrow> bool \<Rightarrow> xid \<Rightarrow> u32 \<Rightarrow> drv \<Rightarrow> drv" where
  "mark_transfer g dma_mapped t left s =
     (let s = (if \<not> dma_mapped then upd_xfer t (\<lambda>x. x\<lparr>x_flags := XFER_FLAG_NEED_UNMAP\<rparr>) s else s)
      in if left = 0 then upd_xfer t (\<lambda>x. x\<lparr>x_last_in_request := True, x_sgt := Some g\<rparr>) s else s)"

text \<open>
  One round of the loop of \<open>xdma_xfer_submit\<close>, with its single transfer \<open>req->tfer[0]\<close> named
  \<open>t\<close>: it leaves the loop with a result (\<open>Inl\<close>) or goes on (\<open>Inr\<close>).
\<close>

definition submit_round ::
  "'k xenv_scheme \<Rightarrow> eng_id \<Rightarrow> nat \<Rightarrow> bool \<Rightarrow> xid \<Rightarrow> nat \<Rightarrow> xdma_request_cb \<Rightarrow> u32 \<Rightarrow> int \<Rightarrow> drv \<Rightarrow>
   (int \<times> int \<times> drv + xdma_request_cb \<times> u32 \<times> int \<times> drv) option" where
  "submit_round K e g dma_mapped t n req left done s =
     (let (rv, req, s) = transfer_init e req t s
      in if rv < 0 then Some (Inl (rv, done, s))
      else let left = left - x_desc_num (xfers s t);
               s = mark_transfer g dma_mapped t left s;
               (rv, s) = transfer_queue K (Some e) (Some t) s
      in if rv < 0 then Some (Inl (rv, done, s))
      else let s = (case e_cmplthp (engs s e) of Some th \<Rightarrow> xdma_kthread_wakeup th s | None \<Rightarrow> s);
               s = meanwhile K n s
      in if x_state (xfers s t) = TRANSFER_STATE_NEW then None
      else let (rv, done, left, s) = submit_settle K e t done left s;
               s = upd_eng e (\<lambda>g. g\<lparr>e_desc_used := e_desc_used g - x_desc_num (xfers s t)\<rparr>) s;
               s = transfer_destroy t s
      in if rv < 0 then Some (Inl (rv, done, s)) else Some (Inr (req, left, done, s)))"

text \<open>The loop; the fuel bounds the number of transfers.\<close>

primrec submit_loop ::
  "nat \<Rightarrow> 'k xenv_scheme \<Rightarrow> eng_id \<Rightarrow> nat \<Rightarrow> bool \<Rightarrow> xid \<Rightarrow> nat \<Rightarrow> xdma_request_cb \<Rightarrow> u32 \<Rightarrow> int \<Rightarrow> drv \<Rightarrow>
   (int \<times> int \<times> drv) option" where
  "submit_loop 0 K e g dma_mapped t n req left done s = None"
| "submit_loop (Suc fuel) K e g dma_mapped t n req left done s =
     (if left = 0 then Some (0, done, s)
      else case submit_round K e g dma_mapped t n req left done s of
             None \<Rightarrow> None
           | Some (Inl r) \<Rightarrow> Some r
           | Some (Inr (req, left, done, s)) \<Rightarrow> submit_loop fuel K e g dma_mapped t (Suc n) req left done s)"

definition xdma_xfer_submit ::
  "'k xenv_scheme \<Rightarrow> nat option \<Rightarrow> nat \<Rightarrow> bool \<Rightarrow> u64 \<Rightarrow> nat \<Rightarrow> bool \<Rightarrow> xid \<Rightarrow> drv \<Rightarrow> (int \<times> drv) option" where
  "xdma_xfer_submit K dev_hndl channel write ep_addr g dma_mapped t s =
     (case submit_checks dev_hndl channel write s of
        Inl rv \<Rightarrow> Some (rv, s)
      | Inr e \<Rightarrow>
        (let (rv, s) = submit_map K g dma_mapped s
         in if rv \<noteq> 0 then Some (rv, s)
         else case xdma_init_request (sizeof_cb K) (req_alloc K) (desc_blen_max K) (sgts s g) ep_addr of
                Null \<Rightarrow> Some (- ENOMEM, unmap_sgl g dma_mapped s)
              | Request req \<Rightarrow>
                  (case submit_loop (Suc (unat (rq_sw_desc_cnt req))) K e g dma_mapped t 0 req
                          (rq_sw_desc_cnt req) 0 s of
                     None \<Rightarrow> None
                   | Some (rv, done, s) \<Rightarrow>
                       Some (if done \<noteq> 0 then done else rv, unmap_sgl g dma_mapped s))
              | _ \<Rightarrow> None))"

text \<open>
  \<open>xdma_xfer_submit_nowait\<close> builds and queues every transfer without waiting, the \<open>i\<close>-th in
  \<open>req->tfer[i]\<close>, whose name is \<open>tf i\<close>. The array has two elements: a third transfer is
  written past its end (\<open>None\<close>).
\<close>

primrec nowait_loop ::
  "nat \<Rightarrow> 'k xenv_scheme \<Rightarrow> eng_id \<Rightarrow> nat \<Rightarrow> bool \<Rightarrow> nat option \<Rightarrow> (nat \<Rightarrow> xid) \<Rightarrow> nat \<Rightarrow> xdma_request_cb \<Rightarrow>
   u32 \<Rightarrow> drv \<Rightarrow> (int \<times> drv) option" where
  "nowait_loop 0 K e g dma_mapped cb tf i req left s = None"
| "nowait_loop (Suc fuel) K e g dma_mapped cb tf i req left s =
     (if left = 0 then Some (- EIOCBQUEUED, s)
      else if 2 \<le> i then None
      else let t = tf i; (rv, req, s) = transfer_init e req t s
      in if rv < 0
      then let s = unmap_sgl g dma_mapped s
           in Some (rv, case cb of Some c \<Rightarrow> tell (Io_done c (- EBUSY)) s | None \<Rightarrow> s)
      else let s = upd_xfer t (\<lambda>x. x\<lparr>x_cb := cb\<rparr>) s;
               left = left - x_desc_num (xfers s t);
               s = mark_transfer g dma_mapped t left s;
               (rv, s) = transfer_queue K (Some e) (Some t) s
      in if rv < 0 then Some (rv, unmap_sgl g dma_mapped s)
      else nowait_loop fuel K e g dma_mapped cb tf (Suc i) req left s)"

definition xdma_xfer_submit_nowait ::
  "'k xenv_scheme \<Rightarrow> nat option \<Rightarrow> nat option \<Rightarrow> nat \<Rightarrow> bool \<Rightarrow> u64 \<Rightarrow> nat \<Rightarrow> bool \<Rightarrow> (nat \<Rightarrow> xid) \<Rightarrow> drv \<Rightarrow>
   (int \<times> drv) option" where
  "xdma_xfer_submit_nowait K cb dev_hndl channel write ep_addr g dma_mapped tf s =
     (case submit_checks dev_hndl channel write s of
        Inl rv \<Rightarrow> Some (rv, s)
      | Inr e \<Rightarrow>
        (let (rv, s) = submit_map K g dma_mapped s
         in if rv \<noteq> 0 then Some (rv, s)
         else case xdma_init_request (sizeof_cb K) (req_alloc K) (desc_blen_max K) (sgts s g) ep_addr of
                Null \<Rightarrow> Some (- ENOMEM, unmap_sgl g dma_mapped s)
              | Request req \<Rightarrow>
                  nowait_loop (Suc (unat (rq_sw_desc_cnt req))) K e g dma_mapped cb tf 0 req
                    (rq_sw_desc_cnt req) s
              | _ \<Rightarrow> None))"

text \<open>\<open>xdma_xfer_completion\<close>: collect the results of a request queued without waiting.\<close>

primrec completion_loop ::
  "nat \<Rightarrow> 'k xenv_scheme \<Rightarrow> eng_id \<Rightarrow> (nat \<Rightarrow> xid) \<Rightarrow> nat \<Rightarrow> u32 \<Rightarrow> int \<Rightarrow> drv \<Rightarrow> (int \<times> drv) option" where
  "completion_loop 0 K e tf i left done s = None"
| "completion_loop (Suc fuel) K e tf i left done s =
     (if left = 0 then Some (done, s)
      else if 2 \<le> i then None
      else let t = tf i; left = left - x_desc_num (xfers s t);
               (rv, done, s) =
                 (case x_state (xfers s t) of
                    TRANSFER_STATE_COMPLETED \<Rightarrow>
                      (0, done + (if e_streaming (engs s e) \<and> e_dir (engs s e) = DMA_FROM_DEVICE
                                  then streaming_done s t (x_desc_num (xfers s t))
                                  else int (unat (x_len (xfers s t)))), s)
                  | TRANSFER_STATE_FAILED \<Rightarrow> (- EIO, done, s)
                  | _ \<Rightarrow>
                      let s = snd (engine_status_read K (Some e) False True s);
                          s = snd (transfer_abort (Some e) (Some t) s);
                          s = snd (xdma_engine_stop K (Some e) s)
                      in (- ERESTARTSYS, done, s));
               s = transfer_destroy t s;
               s = upd_eng e (\<lambda>g. g\<lparr>e_desc_used := e_desc_used g - x_desc_num (xfers s t)\<rparr>) s
      in if rv < 0 then Some (done, s) else completion_loop fuel K e tf (Suc i) left done s)"

definition xdma_xfer_completion ::
  "'k xenv_scheme \<Rightarrow> nat \<Rightarrow> nat \<Rightarrow> bool \<Rightarrow> xdma_request_cb \<Rightarrow> nat \<Rightarrow> bool \<Rightarrow> (nat \<Rightarrow> xid) \<Rightarrow> drv \<Rightarrow> (int \<times> drv) option" where
  "xdma_xfer_completion K d channel write req g dma_mapped tf s =
     (if write \<and> dv_h2c_channel_max (devs s d) \<le> channel then Some (- EINVAL, s)
      else if \<not> write \<and> dv_c2h_channel_max (devs s d) \<le> channel then Some (- EINVAL, s)
      else let e = (d, if write then H2C else C2H, channel)
      in if e_magic (engs s e) \<noteq> MAGIC_ENGINE then Some (- EINVAL, s)
      else case completion_loop (Suc (unat (rq_sw_desc_cnt req))) K e tf 0 (rq_sw_desc_cnt req) 0 s of
             None \<Rightarrow> None
           | Some (done, s) \<Rightarrow> Some (done, unmap_sgl g dma_mapped s))"

subsection \<open>What the steps leave alone\<close>

lemma transfer_init_keeps [simp]:
  "sgts (snd (snd (transfer_init e req t s))) = sgts s"
  "notices (snd (snd (transfer_init e req t s))) = notices s"
  "devs (snd (snd (transfer_init e req t s))) = devs s"
  by (simp_all add: transfer_init_def transfer_build_def Let_def case_prod_unfold)

lemma mark_transfer_keeps [simp]:
  "sgts (mark_transfer g m t n s) = sgts s" "notices (mark_transfer g m t n s) = notices s"
  "devs (mark_transfer g m t n s) = devs s" "engs (mark_transfer g m t n s) = engs s"
  by (simp_all add: mark_transfer_def Let_def)

lemma transfer_queue_keeps [simp]:
  "sgts (snd (transfer_queue K eo t s)) = sgts s" "notices (snd (transfer_queue K eo t s)) = notices s"
  "devs (snd (transfer_queue K eo t s)) = devs s"
  by (auto simp: transfer_queue_def Let_def split: option.splits)

lemma transfer_abort_keeps [simp]:
  "sgts (snd (transfer_abort eo t s)) = sgts s" "notices (snd (transfer_abort eo t s)) = notices s"
  "devs (snd (transfer_abort eo t s)) = devs s"
  by (auto simp: transfer_abort_def Let_def split: option.splits)

lemma submit_settle_keeps [simp]:
  "sgts (snd (snd (snd (submit_settle K e t done left s)))) = sgts s"
  "notices (snd (snd (snd (submit_settle K e t done left s)))) = notices s"
  by (auto simp: submit_settle_def Let_def case_prod_unfold split: transfer_state.split)

subsection \<open>Every mapping is undone once\<close>

definition map_balance :: "nat \<Rightarrow> drv \<Rightarrow> int" where
  "map_balance g s = int (count_list (notices s) (Map_sg g)) - int (count_list (notices s) (Unmap_sg g))"

definition owed :: "nat \<Rightarrow> drv \<Rightarrow> int" where
  "owed g s = map_balance g s - (if nents (sgts s g) = 0 then 0 else 1)"

lemma owed_cong: "sgts s' g = sgts s g \<Longrightarrow> notices s' = notices s \<Longrightarrow> owed g s' = owed g s"
  by (simp add: owed_def map_balance_def)

lemma owed_wakeup [simp]: "owed g (xdma_kthread_wakeup i s) = owed g s"
  by (simp add: owed_def map_balance_def)

lemma owed_tell: "n \<noteq> Map_sg g \<Longrightarrow> n \<noteq> Unmap_sg g \<Longrightarrow> owed g (tell n s) = owed g s"
  by (simp add: owed_def map_balance_def)

lemma owed_destroy: "owed g (transfer_destroy t s) = owed g s"
  by (auto simp: transfer_destroy_def Let_def owed_def map_balance_def split: option.split)

lemma owed_unmap [simp]:
  "owed g (unmap_sgl g m s) = owed g s" "\<not> m \<Longrightarrow> nents (sgts (unmap_sgl g m s) g) = 0"
  by (auto simp: unmap_sgl_def owed_def map_balance_def)

text \<open>Whatever runs during the waits does not map or unmap this table.\<close>

definition leaves_table :: "'k xenv_scheme \<Rightarrow> nat \<Rightarrow> bool" where
  "leaves_table K g \<longleftrightarrow> (\<forall>n s. sgts (meanwhile K n s) g = sgts s g \<and>
     map_balance g (meanwhile K n s) = map_balance g s)"

lemma owed_meanwhile: "leaves_table K g \<Longrightarrow> owed g (meanwhile K n s) = owed g s"
  by (simp add: leaves_table_def owed_def)

definition queued :: "'k xenv_scheme \<Rightarrow> eng_id \<Rightarrow> nat \<Rightarrow> bool \<Rightarrow> xid \<Rightarrow> xdma_request_cb \<Rightarrow> u32 \<Rightarrow> drv \<Rightarrow> int \<times> drv" where
  "queued K e g m t req left s =
     (let s1 = snd (snd (transfer_init e req t s))
      in transfer_queue K (Some e) (Some t) (mark_transfer g m t (left - x_desc_num (xfers s1 t)) s1))"

definition waited :: "'k xenv_scheme \<Rightarrow> eng_id \<Rightarrow> nat \<Rightarrow> drv \<Rightarrow> drv" where
  "waited K e n s = meanwhile K n
     (case e_cmplthp (engs s e) of Some th \<Rightarrow> xdma_kthread_wakeup th s | None \<Rightarrow> s)"

definition recycled :: "eng_id \<Rightarrow> xid \<Rightarrow> drv \<Rightarrow> drv" where
  "recycled e t s = transfer_destroy t
     (upd_eng e (\<lambda>g. g\<lparr>e_desc_used := e_desc_used g - x_desc_num (xfers s t)\<rparr>) s)"

lemma submit_round_eq:
  "submit_round K e g m t n req left done s =
     (let r1 = transfer_init e req t s; s1 = snd (snd r1); left' = left - x_desc_num (xfers s1 t);
          r2 = queued K e g m t req left s; s4 = waited K e n (snd r2);
          r5 = submit_settle K e t done left' s4; s6 = recycled e t (snd (snd (snd r5)))
      in if fst r1 < 0 then Some (Inl (fst r1, done, s1))
         else if fst r2 < 0 then Some (Inl (fst r2, done, snd r2))
         else if x_state (xfers s4 t) = TRANSFER_STATE_NEW then None
         else if fst r5 < 0 then Some (Inl (fst r5, fst (snd r5), s6))
         else Some (Inr (fst (snd r1), fst (snd (snd r5)), fst (snd r5), s6)))"
  unfolding submit_round_def queued_def waited_def recycled_def Let_def case_prod_unfold by (rule refl)

lemma owed_steps:
  "owed g (snd (queued K e g' m t req left s)) = owed g s"
  "leaves_table K g \<Longrightarrow> owed g (waited K e n s) = owed g s"
  "owed g (recycled e t s) = owed g s"
  "owed g (snd (snd (snd (submit_settle K e t done left s)))) = owed g s"
  "owed g (snd (snd (transfer_init e req t s))) = owed g s"
proof -
  show "owed g (snd (queued K e g' m t req left s)) = owed g s"
    by (rule owed_cong) (simp_all add: queued_def Let_def)
  show "leaves_table K g \<Longrightarrow> owed g (waited K e n s) = owed g s"
    by (simp add: waited_def owed_meanwhile owed_tell split: option.split)
  have "owed g (upd_eng e f s) = owed g s" for f by (rule owed_cong) simp_all
  then show "owed g (recycled e t s) = owed g s" by (simp add: recycled_def owed_destroy)
qed (rule owed_cong, simp_all)+

lemma submit_loop_owed:
  "leaves_table K g \<Longrightarrow> submit_loop fuel K e g m t n req left done s = Some (rv, dn, s') \<Longrightarrow>
   owed g s' = owed g s"
proof (induction fuel arbitrary: n req left "done" s)
  case 0
  then show ?case by simp
next
  case (Suc fuel)
  define r2 where "r2 = queued K e g m t req left s"
  define s4 where "s4 = waited K e n (snd r2)"
  define r5 where "r5 = submit_settle K e t done (left - x_desc_num (xfers (snd (snd (transfer_init e req t s))) t)) s4"
  define s6 where "s6 = recycled e t (snd (snd (snd r5)))"
  have o2: "owed g (snd r2) = owed g s" by (simp add: r2_def owed_steps)
  have o4: "owed g s4 = owed g s" using o2 Suc.prems(1) by (simp add: s4_def owed_steps)
  have o6: "owed g s6 = owed g s" using o4 by (simp add: s6_def r5_def owed_steps)
  have o1: "owed g (snd (snd (transfer_init e req t s))) = owed g s" by (rule owed_steps)
  show ?case
    using Suc.prems Suc.IH [of "Suc n"] o1 o2 o6
    by (auto simp: submit_round_eq Let_def r2_def [symmetric] s4_def [symmetric] r5_def [symmetric]
        s6_def [symmetric] split: if_splits)
qed

text \<open>The mapping at the beginning and the label at the end of a submission.\<close>

lemma submit_map_cases:
  obtains "submit_map K g False s = (- EIO, s)"
  | s1 where "submit_map K g False s = (0, s1)" and "owed g s1 = map_balance g s"
  by (cases "snd (map_sg K (sgts s g)) = 0")
    (auto simp: submit_map_def Let_def case_prod_unfold owed_def map_balance_def)

lemma unmap_settles: "owed g x = b \<Longrightarrow> map_balance g (unmap_sgl g False x) = b"
  using owed_unmap(1) [of g False x] owed_unmap(2) [of False g x] by (simp add: owed_def)

text \<open>
  C8: Every DMA mapping a submission makes is undone exactly once, whatever its outcome:
  when \<open>xdma_xfer_submit\<close> returns, on success, on failure of a transfer, on a refused
  queue or on a missing allocation, it has unmapped the table as often as it mapped it;
  the unmapping by the last transfer's destruction and the one at the label
  \<open>unmap_sgl\<close> never both happen.
\<close>

theorem submit_unmaps_once:
  assumes "xdma_xfer_submit K hndl ch wr ep g False t s = Some (rv, s')" and "leaves_table K g"
  shows "map_balance g s' = map_balance g s"
proof (cases "submit_checks hndl ch wr s")
  case (Inl r)
  then show ?thesis using assms(1) by (simp add: xdma_xfer_submit_def)
next
  case (Inr e)
  show ?thesis
  proof (cases rule: submit_map_cases [of K g s])
    case 1
    then show ?thesis using assms(1) Inr by (simp add: xdma_xfer_submit_def EIO_def)
  next
    case (2 s1)
    show ?thesis
    proof (cases "xdma_init_request (sizeof_cb K) (req_alloc K) (desc_blen_max K) (sgts s1 g) ep")
      case (Request req)
      then obtain rv' dn x where x: "submit_loop (Suc (unat (rq_sw_desc_cnt req))) K e g False t 0 req
            (rq_sw_desc_cnt req) 0 s1 = Some (rv', dn, x)" "s' = unmap_sgl g False x"
        using assms(1) Inr 2 by (auto simp: xdma_xfer_submit_def split: option.splits)
      show ?thesis using unmap_settles submit_loop_owed [OF assms(2) x(1)] x(2) 2(2) by simp
    qed (use assms(1) Inr 2 unmap_settles in \<open>auto simp: xdma_xfer_submit_def\<close>)
  qed
qed

subsection \<open>A request that completes\<close>

text \<open>
  What completing a transfer during the wait looks like from the submitting thread: the
  transfer is completed and otherwise as it was, and of the engine only the queue, the
  running flag, the status and the dequeue count may have changed.
\<close>

definition completing :: "eng_id \<Rightarrow> xid \<Rightarrow> drv \<Rightarrow> drv \<Rightarrow> bool" where
  "completing e t s s' \<longleftrightarrow>
     xfers s' t = (xfers s t)\<lparr>x_state := TRANSFER_STATE_COMPLETED, x_desc_cmpl := x_desc_num (xfers s t)\<rparr> \<and>
     (\<exists>st r n q. engs s' e = (engs s e)\<lparr>e_status := st, e_running := r, e_desc_dequeued := n,
                                      e_transfer_list := q\<rparr>) \<and>
     devs s' = devs s"

definition open_for :: "eng_id \<Rightarrow> drv \<Rightarrow> bool" where
  "open_for e s \<longleftrightarrow> engine_ready (engs s e) \<and> \<not> e_streaming (engs s e) \<and>
     e_shutdown (engs s e) AND ENGINE_SHUTDOWN_REQUEST = 0 \<and>
     e_xdev (engs s e) \<noteq> None \<and> dv_flags (devs s (the (e_xdev (engs s e)))) AND XDEV_FLAG_OFFLINE = 0"

lemma init_transfer_num [simp]:
  "x_desc_num (init_transfer e g req) = fit_word g req"
  "x_desc_virt (init_transfer e g req) = (e, unat (e_desc_idx g))"
  "x_len (init_transfer e g req) = sum_list (map sd_len (fit_descs g req))"
  "x_last_in_request (init_transfer e g req) = False" "x_state (init_transfer e g req) = TRANSFER_STATE_NEW"
  by (simp_all add: init_transfer_def Let_def zero_transfer_def)

lemma open_for_cong:
  assumes "open_for e s" and "devs s' = devs s" and "e_desc_idx (engs s' e) = e_desc_idx (engs s e)"
    and "e_desc_max (engs s' e) = e_desc_max (engs s e)"
    and "map_option length (e_desc (engs s' e)) = map_option length (e_desc (engs s e))"
    and "e_streaming (engs s' e) = e_streaming (engs s e)" and "e_xdev (engs s' e) = e_xdev (engs s e)"
    and "e_shutdown (engs s' e) AND ENGINE_SHUTDOWN_REQUEST = 0"
  shows "open_for e s'"
  using assms
  by (cases "e_desc (engs s e)"; cases "e_desc (engs s' e)") (auto simp: open_for_def engine_ready_def)

lemma open_for_init:
  assumes "open_for e s" and "request_ready req"
  shows "open_for e (snd (snd (transfer_init e req t s)))"
    and "xfers (snd (snd (transfer_init e req t s))) t = init_transfer e (engs s e) req"
    and "fst (transfer_init e req t s) = 0"
proof -
  have ready: "engine_ready (engs s e)" using assms(1) by (simp add: open_for_def)
  have "engine_ready (engs (snd (snd (transfer_init e req t s))) e)"
  proof -
    let ?g = "engs s e"
    have "unat ((e_desc_idx ?g + fit_word ?g req) mod e_desc_max ?g) < unat (e_desc_max ?g)"
      using ready by (simp add: engine_ready_def word_less_nat_alt unat_mod_distrib)
    then show ?thesis using ready
      by (auto simp: transfer_init_eq [OF ready assms(2)] init_engine_def engine_ready_def
          word_less_nat_alt split: option.splits)
  qed
  then show "open_for e (snd (snd (transfer_init e req t s)))"
    using assms(1) by (simp add: transfer_init_eq [OF ready assms(2)] open_for_def init_engine_def)
  show "xfers (snd (snd (transfer_init e req t s))) t = init_transfer e (engs s e) req"
    "fst (transfer_init e req t s) = 0"
    by (simp_all add: transfer_init_eq [OF ready assms(2)])
qed

lemma mark_transfer_fields [simp]:
  "x_desc_num (xfers (mark_transfer g m t n s) t) = x_desc_num (xfers s t)"
  "x_len (xfers (mark_transfer g m t n s) t) = x_len (xfers s t)"
  "x_desc_virt (xfers (mark_transfer g m t n s) t) = x_desc_virt (xfers s t)"
  "open_for e (mark_transfer g m t n s) = open_for e s"
  by (simp_all add: mark_transfer_def Let_def open_for_def)

lemma open_for_queue:
  assumes "open_for e s" and "x_desc_num (xfers s t) \<noteq> 0"
  shows "fst (transfer_queue K (Some e) (Some t) s) = 0"
    and "open_for e (snd (transfer_queue K (Some e) (Some t) s))"
    and "xfers (snd (transfer_queue K (Some e) (Some t) s)) t = (xfers s t)\<lparr>x_state := TRANSFER_STATE_SUBMITTED\<rparr>"
    and "e_running (engs (snd (transfer_queue K (Some e) (Some t) s)) e)"
proof -
  obtain d where d: "e_xdev (engs s e) = Some d" "dv_flags (devs s d) AND XDEV_FLAG_OFFLINE = 0"
    using assms(1) by (auto simp: open_for_def split: option.splits)
  define s2 where "s2 = upd_eng e (\<lambda>g. g\<lparr>e_transfer_list := e_transfer_list g @ [t]\<rparr>)
    (upd_xfer t (\<lambda>x. x\<lparr>x_state := TRANSFER_STATE_SUBMITTED\<rparr>)
      (upd_eng e (\<lambda>g. g\<lparr>e_prev_cpu := get_cpu K\<rparr>) s))"
  have eq: "transfer_queue K (Some e) (Some t) s =
      (0, if e_running (engs s2 e) then s2 else snd (engine_start K (Some e) s2))"
    using assms d by (simp add: transfer_queue_def Let_def s2_def open_for_def xdma_device_flag_check_def)
  have s2: "open_for e s2" using assms(1) by (rule open_for_cong) (use assms(1) in \<open>simp_all add: s2_def open_for_def\<close>)
  obtain h hs where q: "e_transfer_list (engs s2 e) = h # hs"
    by (cases "e_transfer_list (engs s2 e)") (auto simp: s2_def)
  have start: "open_for e (snd (engine_start K (Some e) s2)) \<and> e_running (engs (snd (engine_start K (Some e) s2)) e)"
    if idle: "\<not> e_running (engs s2 e)"
  proof -
    obtain w where w: "engs (snd (engine_start K (Some e) s2)) = (engs s2)(e := (engs s2 e)
        \<lparr>e_shutdown := ENGINE_SHUTDOWN_NONE, e_desc_dequeued := 0, e_status := w, e_running := True\<rparr>)"
      using engine_start_idle(2) [OF idle q, of K] by blast
    then have "open_for e (snd (engine_start K (Some e) s2))"
      using s2 by (elim open_for_cong) (simp_all add: ENGINE_SHUTDOWN_NONE_def)
    then show ?thesis using w by simp
  qed
  show "fst (transfer_queue K (Some e) (Some t) s) = 0"
    "open_for e (snd (transfer_queue K (Some e) (Some t) s))"
    "xfers (snd (transfer_queue K (Some e) (Some t) s)) t = (xfers s t)\<lparr>x_state := TRANSFER_STATE_SUBMITTED\<rparr>"
    "e_running (engs (snd (transfer_queue K (Some e) (Some t) s)) e)"
    using start s2 by (auto simp: eq) (simp_all add: s2_def)
qed

lemma open_for_recycled: "open_for e s \<Longrightarrow> open_for e (recycled e t s)"
proof (rule open_for_cong)
  assume o: "open_for e s"
  have e: "engs (recycled e t s) = engs (upd_eng (fst (x_desc_virt (xfers s t)))
      (\<lambda>g. g\<lparr>e_desc := map_option (xdma_desc_done (snd (x_desc_virt (xfers s t))) (unat (x_desc_num (xfers s t)))) (e_desc g)\<rparr>)
      (upd_eng e (\<lambda>g. g\<lparr>e_desc_used := e_desc_used g - x_desc_num (xfers s t)\<rparr>) s))"
    by (simp add: recycled_def transfer_destroy_def Let_def split: option.split)
  show "e_desc_idx (engs (recycled e t s) e) = e_desc_idx (engs s e)"
    "e_desc_max (engs (recycled e t s) e) = e_desc_max (engs s e)"
    "e_streaming (engs (recycled e t s) e) = e_streaming (engs s e)"
    "e_xdev (engs (recycled e t s) e) = e_xdev (engs s e)"
    "e_shutdown (engs (recycled e t s) e) AND ENGINE_SHUTDOWN_REQUEST = 0"
    using o by (auto simp: e open_for_def)
  show "map_option length (e_desc (engs (recycled e t s) e)) = map_option length (e_desc (engs s e))"
    by (simp add: e option.map_comp comp_def)
  show "devs (recycled e t s) = devs s"
    by (simp add: recycled_def transfer_destroy_def Let_def split: option.split)
qed

text \<open>Queueing a transfer that is completed during the wait.\<close>

lemma queue_completes:
  assumes op: "open_for e s" and num: "x_desc_num (xfers s t) \<noteq> 0"
    and comp: "\<forall>n s. x_state (xfers s t) = TRANSFER_STATE_SUBMITTED \<and> e_running (engs s e) \<longrightarrow>
                 completing e t s (meanwhile K n s)"
    and w: "w = waited K e n (snd (transfer_queue K (Some e) (Some t) s))"
  shows "fst (transfer_queue K (Some e) (Some t) s) = 0" and "open_for e w"
    and "x_state (xfers w t) = TRANSFER_STATE_COMPLETED" and "x_len (xfers w t) = x_len (xfers s t)"
proof -
  define s2 where "s2 = snd (transfer_queue K (Some e) (Some t) s)"
  note q = open_for_queue [OF op num, of K, folded s2_def]
  show "fst (transfer_queue K (Some e) (Some t) s) = 0" by (rule q(1))
  define s3 where "s3 = (case e_cmplthp (engs s2 e) of Some th \<Rightarrow> xdma_kthread_wakeup th s2 | None \<Rightarrow> s2)"
  have s3: "engs s3 = engs s2" "xfers s3 = xfers s2" "devs s3 = devs s2" by (simp_all add: s3_def split: option.split)
  have c: "completing e t s3 w"
    using comp q(3,4) s3 by (simp add: w waited_def s3_def [symmetric] s2_def [symmetric])
  show "open_for e w"
    using q(2) by (rule open_for_cong) (use c q(2) in \<open>auto simp: completing_def s3 open_for_def\<close>)
  show "x_state (xfers w t) = TRANSFER_STATE_COMPLETED" "x_len (xfers w t) = x_len (xfers s t)"
    using c q(3) by (auto simp: completing_def s3)
qed

text \<open>One round in which the transfer completes adds its length and goes on.\<close>

lemma submit_round_completes:
  assumes op: "open_for e s" and rdy: "request_ready req"
    and comp: "\<forall>n s. x_state (xfers s t) = TRANSFER_STATE_SUBMITTED \<and> e_running (engs s e) \<longrightarrow>
                 completing e t s (meanwhile K n s)"
  obtains s' where "submit_round K e g m t n req left done s =
      Some (Inr (req\<lparr>rq_ep_addr := ep_at (e_non_incr_addr (engs s e)) (fit_descs (engs s e) req)
                              (fit (engs s e) req) (rq_ep_addr req),
                    rq_sw_desc_idx := rq_sw_desc_idx req + fit_word (engs s e) req\<rparr>,
                 left - fit_word (engs s e) req,
                 done + int (unat (sum_list (map sd_len (fit_descs (engs s e) req)))), s'))"
    and "open_for e s'"
proof -
  have ready: "engine_ready (engs s e)" using op by (simp add: open_for_def)
  let ?fw = "fit_word (engs s e) req"
  have fw: "?fw \<noteq> 0"
    using fit_bounds(1) [OF ready rdy] unat_fit_word [OF ready rdy] by (metis unat_0 less_numeral_extra(3))
  define s1 where "s1 = snd (snd (transfer_init e req t s))"
  define sq where "sq = mark_transfer g m t (left - ?fw) s1"
  define s2 where "s2 = snd (transfer_queue K (Some e) (Some t) sq)"
  note init = open_for_init [OF op rdy, of t]
  have sq: "open_for e sq" "x_desc_num (xfers sq t) = ?fw"
      "x_len (xfers sq t) = sum_list (map sd_len (fit_descs (engs s e) req))"
    using init by (simp_all add: sq_def s1_def)
  have q: "queued K e g m t req left s = (0, s2)"
    using open_for_queue(1) [OF sq(1), of t K] sq(2) fw init
    by (simp add: queued_def Let_def s2_def sq_def s1_def prod_eq_iff)
  note w = queue_completes [OF sq(1) _ comp, of "waited K e n s2" n, folded s2_def]
  have o4: "open_for e (waited K e n s2)" and x4: "x_state (xfers (waited K e n s2) t) = TRANSFER_STATE_COMPLETED"
      "x_len (xfers (waited K e n s2) t) = x_len (xfers sq t)" "\<not> e_streaming (engs (waited K e n s2) e)"
    using w(2-4) sq(2) fw by (auto simp: open_for_def)
  have settle: "submit_settle K e t done l (waited K e n s2) =
      (0, done + int (unat (x_len (xfers sq t))), l, waited K e n s2)" for l
    using x4 by (simp add: submit_settle_def)
  show ?thesis
  proof (rule that)
    show "open_for e (recycled e t (waited K e n s2))" using o4 by (rule open_for_recycled)
    show "submit_round K e g m t n req left done s =
      Some (Inr (req\<lparr>rq_ep_addr := ep_at (e_non_incr_addr (engs s e)) (fit_descs (engs s e) req)
                              (fit (engs s e) req) (rq_ep_addr req),
                    rq_sw_desc_idx := rq_sw_desc_idx req + ?fw\<rparr>,
                 left - ?fw, done + int (unat (sum_list (map sd_len (fit_descs (engs s e) req)))),
                 recycled e t (waited K e n s2)))"
      using init x4 by (simp add: submit_round_eq q settle sq(3) transfer_init_eq [OF ready rdy])
  qed
qed

lemma sum_unat_wrap:
  "sum_list (map (\<lambda>x. unat (f x)) xs) < 2 ^ 32 \<Longrightarrow>
   unat (sum_list (map f xs) :: u32) = sum_list (map (\<lambda>x. unat (f x)) xs)"
  by (induction xs) (simp_all add: unat_add_small)

lemma submit_loop_completes:
  assumes comp: "\<forall>n s. x_state (xfers s t) = TRANSFER_STATE_SUBMITTED \<and> e_running (engs s e) \<longrightarrow>
                 completing e t s (meanwhile K n s)"
  shows "open_for e s \<Longrightarrow> rq_sw_desc_idx req \<le> rq_sw_desc_cnt req \<Longrightarrow>
    length (rq_sdesc req) = unat (rq_sw_desc_cnt req) \<Longrightarrow> left = rq_sw_desc_cnt req - rq_sw_desc_idx req \<Longrightarrow>
    unat left < fuel \<Longrightarrow> sum_list (map (\<lambda>c. unat (sd_len c)) (rq_sdesc req)) < 2 ^ 32 \<Longrightarrow>
    \<exists>s'. submit_loop fuel K e g m t n req left done s =
      Some (0, done + int (sum_list (map (\<lambda>c. unat (sd_len c)) (drop (unat (rq_sw_desc_idx req)) (rq_sdesc req)))), s')"
proof (induction fuel arbitrary: n req left "done" s)
  case 0
  then show ?case by simp
next
  case (Suc fuel)
  let ?lens = "\<lambda>cs. sum_list (map (\<lambda>c. unat (sd_len c)) cs)"
  let ?i = "unat (rq_sw_desc_idx req)"
  show ?case
  proof (cases "left = 0")
    case True
    then have "rq_sw_desc_idx req = rq_sw_desc_cnt req" using Suc.prems(4) by simp
    then show ?thesis using True Suc.prems(3) by simp
  next
    case False
    then have rdy: "request_ready req"
      using Suc.prems(2,3,4) by (auto simp: request_ready_def order_less_le)
    have ready: "engine_ready (engs s e)" using Suc.prems(1) by (simp add: open_for_def)
    let ?f = "fit (engs s e) req" and ?fw = "fit_word (engs s e) req"
    note b = fit_bounds [OF ready rdy]
    note n = unat_fit_word [OF ready rdy]
    obtain ep s1 where round: "submit_round K e g m t n req left done s =
        Some (Inr (req\<lparr>rq_ep_addr := ep, rq_sw_desc_idx := rq_sw_desc_idx req + ?fw\<rparr>, left - ?fw,
                   done + int (unat (sum_list (map sd_len (fit_descs (engs s e) req)))), s1))"
      and s1: "open_for e s1"
      by (rule submit_round_completes [OF Suc.prems(1) rdy comp]) blast
    let ?req = "req\<lparr>rq_ep_addr := ep, rq_sw_desc_idx := rq_sw_desc_idx req + ?fw\<rparr>"
    have idx: "unat (rq_sw_desc_idx req + ?fw) = ?i + ?f"
      using b(3) Suc.prems(3) unat_bound [of "rq_sw_desc_cnt req"] by (subst unat_add_small) (simp_all add: n)
    have sum: "?lens (drop ?i (rq_sdesc req)) = ?lens (fit_descs (engs s e) req) + ?lens (drop (?i + ?f) (rq_sdesc req))"
      using sum_list_take_drop [of "\<lambda>c. unat (sd_len c)" ?f "drop ?i (rq_sdesc req)"]
      by (simp add: fit_descs_def add.commute)
    have "?lens (fit_descs (engs s e) req) < 2 ^ 32"
      using Suc.prems(6) sum sum_list_take_drop [of "\<lambda>c. unat (sd_len c)" ?i "rq_sdesc req"] by linarith
    then have len: "unat (sum_list (map sd_len (fit_descs (engs s e) req))) = ?lens (fit_descs (engs s e) req)"
      by (rule sum_unat_wrap)
    have "\<exists>s'. submit_loop fuel K e g m t (Suc n) ?req (left - ?fw)
        (done + int (unat (sum_list (map sd_len (fit_descs (engs s e) req))))) s1 =
      Some (0, done + int (unat (sum_list (map sd_len (fit_descs (engs s e) req)))) +
               int (?lens (drop (unat (rq_sw_desc_idx ?req)) (rq_sdesc ?req))), s')"
    proof (rule Suc.IH)
      show "rq_sw_desc_idx ?req \<le> rq_sw_desc_cnt ?req"
        using idx b(3) Suc.prems(3) by (simp add: word_le_nat_alt)
      have "?fw \<le> left"
        using b(3) Suc.prems(2,3,4) by (simp add: word_le_nat_alt n unat_sub)
      then show "unat (left - ?fw) < fuel"
        using Suc.prems(5) b(1) n by (simp add: unat_sub word_le_nat_alt)
    qed (use s1 Suc.prems in simp_all)
    then show ?thesis using round False by (auto simp: idx sum len)
  qed
qed

text \<open>A submission that gets as far as its loop: what the checks, the mapping and the allocator did.\<close>

definition prepared ::
  "'k xenv_scheme \<Rightarrow> nat option \<Rightarrow> nat \<Rightarrow> bool \<Rightarrow> nat \<Rightarrow> eng_id \<Rightarrow> scatterlist list \<Rightarrow> drv \<Rightarrow> bool" where
  "prepared K hndl ch wr g e es s \<longleftrightarrow>
     submit_checks hndl ch wr s = Inr e \<and> open_for e s \<and>
     map_sg K (sgts s g) = (es, length es) \<and> es \<noteq> [] \<and>
     sum_list (map (\<lambda>x. unat (sg_dma_len x)) es) < 2 ^ 32 \<and>
     sum_list (map (\<lambda>x. unat (sg_dma_len x)) es) \<noteq> 0 \<and>
     desc_blen_max K \<noteq> 0 \<and> (\<forall>x\<in>set es. unat (sg_dma_len x) + unat (desc_blen_max K) \<le> 2 ^ 32) \<and>
     sizeof_cb K + (length es + sum_list (map (\<lambda>x. extra_of (desc_blen_max K) (sg_dma_len x)) es)) * sizeof_sw_desc < 2 ^ 32 \<and>
     req_alloc K (of_nat (sizeof_cb K + (length es +
        sum_list (map (\<lambda>x. extra_of (desc_blen_max K) (sg_dma_len x)) es)) * sizeof_sw_desc))"

lemma prepared_submit:
  assumes "prepared K hndl ch wr g e es s"
  obtains r s1 where "open_for e s1" and "length (rq_sdesc r) = unat (rq_sw_desc_cnt r)"
    and "rq_sw_desc_idx r = 0"
    and "sum_list (map (\<lambda>c. unat (sd_len c)) (rq_sdesc r)) = sum_list (map (\<lambda>x. unat (sg_dma_len x)) es)"
    and "xdma_xfer_submit K hndl ch wr ep g False t s =
      (case submit_loop (Suc (unat (rq_sw_desc_cnt r))) K e g False t 0 r (rq_sw_desc_cnt r) 0 s1 of
         None \<Rightarrow> None
       | Some (rv, done, s) \<Rightarrow> Some (if done \<noteq> 0 then done else rv, unmap_sgl g False s))"
proof -
  define s1 where "s1 = upd_sgt g (\<lambda>t. t\<lparr>sgl := es, nents := length es\<rparr>) (tell (Map_sg g) s)"
  have map: "submit_map K g False s = (0, s1)"
    using assms by (simp add: prepared_def submit_map_def s1_def)
  have ent: "sg_entries (sgts s1 g) = es" "nents (sgts s1 g) = length es"
    by (simp_all add: s1_def sg_entries_def)
  obtain r where r: "xdma_init_request (sizeof_cb K) (req_alloc K) (desc_blen_max K) (sgts s1 g) ep = Request r"
    using request_made [where sgt = "sgts s1 g" and ep = ep and cb = "sizeof_cb K" and alloc = "req_alloc K"
        and blen = "desc_blen_max K", OF _ _ refl] assms
    unfolding prepared_def ent by blast
  have op: "open_for e s1"
    by (rule open_for_cong [of e s]) (use assms in \<open>simp_all add: prepared_def s1_def open_for_def\<close>)
  have sub: "xdma_xfer_submit K hndl ch wr ep g False t s =
      (case submit_loop (Suc (unat (rq_sw_desc_cnt r))) K e g False t 0 r (rq_sw_desc_cnt r) 0 s1 of
         None \<Rightarrow> None
       | Some (rv, done, s) \<Rightarrow> Some (if done \<noteq> 0 then done else rv, unmap_sgl g False s))"
    using assms by (simp add: prepared_def xdma_xfer_submit_def map r)
  show ?thesis
    by (rule that [OF op _ _ _ sub]) (use request_exact [OF r] request_total [OF r] in \<open>simp_all add: ent\<close>)
qed

text \<open>
  C7: A submission whose transfers complete returns the number of bytes asked for. If the
  handle, the channel and the direction check out, the table is mapped, memory is there
  and during each wait the queued transfer is completed, then \<open>xdma_xfer_submit\<close> returns,
  after as many transfers as the descriptor array makes necessary, with the total length
  of the mapped table. The engine is not a streaming one: for a stream towards the host the
  code returns the sum of the lengths the hardware reports in the results instead.
\<close>

theorem submit_returns_length:
  assumes "prepared K hndl ch wr g e es s"
    and "\<forall>n s. x_state (xfers s t) = TRANSFER_STATE_SUBMITTED \<and> e_running (engs s e) \<longrightarrow>
                 completing e t s (meanwhile K n s)"
  shows "\<exists>s'. xdma_xfer_submit K hndl ch wr ep g False t s
           = Some (int (sum_list (map (\<lambda>x. unat (sg_dma_len x)) es)), s')"
proof -
  obtain r s1 where r: "open_for e s1" "length (rq_sdesc r) = unat (rq_sw_desc_cnt r)" "rq_sw_desc_idx r = 0"
      "sum_list (map (\<lambda>c. unat (sd_len c)) (rq_sdesc r)) = sum_list (map (\<lambda>x. unat (sg_dma_len x)) es)"
    and sub: "xdma_xfer_submit K hndl ch wr ep g False t s =
      (case submit_loop (Suc (unat (rq_sw_desc_cnt r))) K e g False t 0 r (rq_sw_desc_cnt r) 0 s1 of
         None \<Rightarrow> None
       | Some (rv, done, s) \<Rightarrow> Some (if done \<noteq> 0 then done else rv, unmap_sgl g False s))"
    using prepared_submit [OF assms(1)] .
  have "\<exists>s2. submit_loop (Suc (unat (rq_sw_desc_cnt r))) K e g False t 0 r (rq_sw_desc_cnt r) 0 s1
      = Some (0, 0 + int (sum_list (map (\<lambda>c. unat (sd_len c)) (drop (unat (rq_sw_desc_idx r)) (rq_sdesc r)))), s2)"
    by (rule submit_loop_completes [OF assms(2)]) (use r assms(1) in \<open>simp_all add: prepared_def\<close>)
  then show ?thesis using r assms(1) by (auto simp: sub prepared_def)
qed

lemma gives_up:
  assumes "prepared K hndl ch wr g e es s" and "meanwhile K 0 = id"
  shows "\<exists>s'. xdma_xfer_submit K hndl ch wr ep g False t s = Some (- ERESTARTSYS, s')"
proof -
  obtain r s1 where r: "open_for e s1" "length (rq_sdesc r) = unat (rq_sw_desc_cnt r)" "rq_sw_desc_idx r = 0"
      "sum_list (map (\<lambda>c. unat (sd_len c)) (rq_sdesc r)) = sum_list (map (\<lambda>x. unat (sg_dma_len x)) es)"
    and sub: "xdma_xfer_submit K hndl ch wr ep g False t s =
      (case submit_loop (Suc (unat (rq_sw_desc_cnt r))) K e g False t 0 r (rq_sw_desc_cnt r) 0 s1 of
         None \<Rightarrow> None
       | Some (rv, done, s) \<Rightarrow> Some (if done \<noteq> 0 then done else rv, unmap_sgl g False s))"
    using prepared_submit [OF assms(1)] .
  have "sum_list (map (\<lambda>c. unat (sd_len c)) (rq_sdesc r)) \<noteq> 0" using r(4) assms(1) by (simp add: prepared_def)
  then have cnt: "rq_sw_desc_cnt r \<noteq> 0" using r(2) by (intro notI) simp
  then have rdy: "request_ready r" using r(2,3) by (simp add: request_ready_def word_neq_0_conv)
  have ready: "engine_ready (engs s1 e)" using r(1) by (simp add: open_for_def)
  let ?fw = "fit_word (engs s1 e) r"
  have fw: "?fw \<noteq> 0"
    using fit_bounds(1) [OF ready rdy] unat_fit_word [OF ready rdy] by (metis unat_0 less_numeral_extra(3))
  note init = open_for_init [OF r(1) rdy, of t]
  define sq where "sq = mark_transfer g False t (rq_sw_desc_cnt r - ?fw) (snd (snd (transfer_init e r t s1)))"
  define s2 where "s2 = snd (transfer_queue K (Some e) (Some t) sq)"
  have "open_for e sq" "x_desc_num (xfers sq t) \<noteq> 0" using init fw by (simp_all add: sq_def)
  note q = open_for_queue [OF this, of K]
  have queued: "queued K e g False t r (rq_sw_desc_cnt r) s1 = (0, s2)"
    using q(1) init by (simp add: queued_def Let_def s2_def sq_def prod_eq_iff)
  have wait: "waited K e 0 s2 = (case e_cmplthp (engs s2 e) of Some th \<Rightarrow> xdma_kthread_wakeup th s2 | None \<Rightarrow> s2)"
    using assms(2) by (simp add: waited_def)
  then have st: "x_state (xfers (waited K e 0 s2) t) = TRANSFER_STATE_SUBMITTED"
    using q(3) by (simp add: s2_def split: option.split)
  then have settle: "\<exists>l s3. submit_settle K e t 0 left (waited K e 0 s2) = (- ERESTARTSYS, 0, l, s3)" for left
    by (simp add: submit_settle_def Let_def case_prod_unfold)
  then obtain l s3 where s3: "submit_settle K e t 0 (rq_sw_desc_cnt r - ?fw) (waited K e 0 s2) = (- ERESTARTSYS, 0, l, s3)"
    by blast
  have "submit_round K e g False t 0 r (rq_sw_desc_cnt r) 0 s1 = Some (Inl (- ERESTARTSYS, 0, recycled e t s3))"
    using init st s3 by (simp add: submit_round_eq queued Let_def ERESTARTSYS_def)
  then show ?thesis using cnt by (simp add: sub ERESTARTSYS_def)
qed

text \<open>
  C9: The wait does not wait. \<open>USE_WAKE_UP\<close> being 0, the thread spins while the transfer is
  \<open>NEW\<close>, but queueing has just made it \<open>SUBMITTED\<close>: unless the completion slips in between
  those two statements, the transfer is given up at once. With nothing happening
  meanwhile every submission ends with \<open>-ERESTARTSYS\<close>, however long the hardware would
  need and whatever the timeout.
\<close>

theorem submit_gives_up_at_once:
  assumes "prepared K hndl ch wr g e es s" and "meanwhile K 0 = id"
  shows "\<exists>s'. xdma_xfer_submit K hndl ch wr ep g False t s = Some (- ERESTARTSYS, s')"
  using gives_up [OF assms] .

subsection \<open>Examples\<close>

definition sample_xenv :: "(nat \<Rightarrow> drv \<Rightarrow> drv) \<Rightarrow> xenv" where
  "sample_xenv mw = \<lparr>poll_mode = 0, interrupt_mode = 0, enable_st_c2h_credit = 0, desc_blen_max = 256,
     ioread32 = (\<lambda>l a. 0), get_cpu = 0,
     map_sg = (\<lambda>_. ([\<lparr>sg_dma_address = 0x1000, sg_dma_len = 300\<rparr>], 1)), req_alloc = (\<lambda>_. True),
     sizeof_cb = 64, meanwhile = mw\<rparr>"

text \<open>The hardware finishes the transfer while the thread waits.\<close>

definition sample_complete :: "nat \<Rightarrow> drv \<Rightarrow> drv" where
  "sample_complete n s =
     upd_xfer 7 (\<lambda>x. x\<lparr>x_state := TRANSFER_STATE_COMPLETED, x_desc_cmpl := x_desc_num x\<rparr>)
       (upd_eng (0, H2C, 0) (\<lambda>g. g\<lparr>e_running := False, e_transfer_list := []\<rparr>) s)"

lemma sample_prepared:
  "prepared (sample_xenv mw) (Some 0) 0 True 3 (0, H2C, 0) [\<lparr>sg_dma_address = 0x1000, sg_dma_len = 300\<rparr>] sample_drv"
proof -
  have "submit_checks (Some 0) 0 True sample_drv = Inr (0, H2C, 0)"
    by (simp add: submit_checks_def debug_check_dev_hndl_def xdev_find_by_pdev_def xdma_device_flag_check_def)
  moreover have "open_for (0, H2C, 0) sample_drv" by (simp add: open_for_def)
  ultimately show ?thesis
    by (simp add: prepared_def sample_xenv_def extra_of_def sizeof_sw_desc_def)
qed

lemma sample_complete_completing:
  "completing (0, H2C, 0) 7 s (meanwhile (sample_xenv sample_complete) n s)"
proof -
  have "\<exists>st r n' q. (engs s (0, H2C, 0))\<lparr>e_running := False, e_transfer_list := []\<rparr> =
     (engs s (0, H2C, 0))\<lparr>e_status := st, e_running := r, e_desc_dequeued := n', e_transfer_list := q\<rparr>"
    by (rule exI [of _ "e_status (engs s (0, H2C, 0))"], rule exI [of _ False],
        rule exI [of _ "e_desc_dequeued (engs s (0, H2C, 0))"], rule exI [of _ "[]"]) simp
  then show ?thesis by (simp add: completing_def sample_xenv_def sample_complete_def)
qed

theorem submit_returns_length_witness:
  "\<exists>s'. xdma_xfer_submit (sample_xenv sample_complete) (Some 0) 0 True 0 3 False 7 sample_drv = Some (300, s')"
  using submit_returns_length [OF sample_prepared [of sample_complete], of 7 0] sample_complete_completing
  by simp

theorem submit_gives_up_at_once_witness:
  "\<exists>s'. xdma_xfer_submit (sample_xenv (\<lambda>_. id)) (Some 0) 0 True 0 3 False 7 sample_drv = Some (- 512, s')"
  using submit_gives_up_at_once [OF sample_prepared [of "\<lambda>_. id"], of 0 7]
  by (simp add: sample_xenv_def ERESTARTSYS_def)

theorem submit_unmaps_once_witness:
  "\<exists>rv s'. xdma_xfer_submit (sample_xenv (\<lambda>_. id)) (Some 0) 0 True 0 3 False 7 sample_drv = Some (rv, s') \<and>
     map_balance 3 s' = 0"
proof -
  have "meanwhile (sample_xenv (\<lambda>_. id)) 0 = id" by (simp add: sample_xenv_def)
  then obtain s' where "xdma_xfer_submit (sample_xenv (\<lambda>_. id)) (Some 0) 0 True 0 3 False 7 sample_drv
      = Some (- ERESTARTSYS, s')"
    using gives_up [OF sample_prepared [of "\<lambda>_. id"]] by blast
  moreover have "leaves_table (sample_xenv (\<lambda>_. id)) 3" by (simp add: leaves_table_def sample_xenv_def)
  moreover have "map_balance 3 sample_drv = 0" by (simp add: map_balance_def)
  ultimately show ?thesis using submit_unmaps_once by (metis (no_types, lifting))
qed

end
