(* ===== verification/Nupa_Ring.thy ===== *)
theory Nupa_Ring
  imports Xdma_Prelude "HOL-Library.Signed_Division" "HOL-Library.Sublist"
begin

text \<open>
  The packet ring of src/src/nupanet_main.c. Every host owns an area of the shared user
  BAR: a \<open>packets_info\<close> header and \<open>MAX_DESC_NUM\<close> packet descriptors. A host that sends
  takes a descriptor of the destination's ring (\<open>fetch_packet_desc\<close>), moves the frame into
  the descriptor's slot of the DMA memory and marks it settled; the destination polls its
  ring (\<open>nupa_data_available\<close>), moves the frame out and releases the descriptor.

  The C integers of the shared structures are \<open>int\<close>; additions wrap through \<open>c_int\<close>.
\<close>

subsection \<open>Constants and data\<close>

definition TOTAL_DMA_SIZE :: int where [xdma_const]: "TOTAL_DMA_SIZE = push_bit 12 64"
definition USR_BAR_SHARING_SIZE :: int where [xdma_const]: "USR_BAR_SHARING_SIZE = push_bit 12 1"
definition MAX_AGENT_NUM :: int where [xdma_const]: "MAX_AGENT_NUM = 2"
definition INFO_SIZE :: int where [xdma_const]: "INFO_SIZE = USR_BAR_SHARING_SIZE div MAX_AGENT_NUM"
definition MAX_DESC_NUM :: int where [xdma_const]: "MAX_DESC_NUM = 64"
definition AGENT_TOTAL_DMA_SIZE :: int where
  [xdma_const]: "AGENT_TOTAL_DMA_SIZE = TOTAL_DMA_SIZE div MAX_AGENT_NUM"
definition DESC_MAX_DMA_SIZE :: int where
  [xdma_const]: "DESC_MAX_DMA_SIZE = AGENT_TOTAL_DMA_SIZE div MAX_DESC_NUM"

datatype packet_desc_status = PACKET_INIT | PACKET_FREEZING | PACKET_SETTLED | PACKET_RELEASED

record packet_desc =
  pd_pos :: int
  pd_offset :: int
  pd_length :: int
  pd_status :: packet_desc_status

record packets_info =
  pi_host_id :: int
  pi_head :: int
  pi_tail :: int
  pi_total_len :: int
  pi_ready :: bool

text \<open>The sizes the compiler gives them: four ints and a bool, padded; four ints.\<close>

definition sizeof_packets_info :: int where "sizeof_packets_info = 4 + 4 + 4 + 4 + (1 + 3)"
definition sizeof_packet_desc :: int where "sizeof_packet_desc = 4 + 4 + 4 + 4"

record area =
  a_info :: packets_info
  a_desc :: "packet_desc list"

type_synonym shm = "int \<Rightarrow> area"

definition c_int :: "int \<Rightarrow> int" where "c_int x = signed_take_bit 31 x"

definition zero_packet_desc :: packet_desc where
  "zero_packet_desc = \<lparr>pd_pos = 0, pd_offset = 0, pd_length = 0, pd_status = PACKET_INIT\<rparr>"
definition zero_packets_info :: packets_info where
  "zero_packets_info = \<lparr>pi_host_id = 0, pi_head = 0, pi_tail = 0, pi_total_len = 0, pi_ready = False\<rparr>"

text \<open>
  What a call can come to besides returning: a failed \<open>BUG_ON\<close>, an access outside the
  area, or a busy wait that only another host can end.
\<close>

datatype 'a outcome = Returns 'a | Bug_on | Out_of_range | Spins

subsection \<open>Operations\<close>

definition upd_info :: "int \<Rightarrow> (packets_info \<Rightarrow> packets_info) \<Rightarrow> shm \<Rightarrow> shm" where
  "upd_info d f m = m(d := (m d)\<lparr>a_info := f (a_info (m d))\<rparr>)"

definition upd_pdesc :: "int \<Rightarrow> int \<Rightarrow> (packet_desc \<Rightarrow> packet_desc) \<Rightarrow> shm \<Rightarrow> shm" where
  "upd_pdesc d i f m = m(d := (m d)\<lparr>a_desc := (a_desc (m d))[nat i := f (a_desc (m d) ! nat i)]\<rparr>)"

definition in_ring :: "int \<Rightarrow> bool" where "in_ring i \<longleftrightarrow> 0 \<le> i \<and> i < MAX_DESC_NUM"

text \<open>The place of a descriptor's frame in the DMA memory.\<close>

definition desc_offset :: "int \<Rightarrow> int \<Rightarrow> int" where
  "desc_offset dst_id pos = c_int (AGENT_TOTAL_DMA_SIZE * dst_id + pos * DESC_MAX_DMA_SIZE)"

text \<open>
  \<open>fetch_packet_desc\<close> reads its local \<open>total_len\<close> before it is set; \<open>junk\<close> is what the
  variable holds.
\<close>

definition fetch_packet_desc :: "int \<Rightarrow> int \<Rightarrow> int \<Rightarrow> shm \<Rightarrow> (int option \<times> shm) outcome" where
  "fetch_packet_desc junk dst_id len m =
     (if MAX_AGENT_NUM \<le> dst_id then Bug_on
      else if dst_id < 0 then Out_of_range
      else let info = a_info (m dst_id); hd = pi_head info; tl = pi_tail info
      in if \<not> pi_ready info then Returns (None, m)
      else let total_len = c_int (junk + DESC_MAX_DMA_SIZE)
      in if total_len \<le> AGENT_TOTAL_DMA_SIZE
      then if c_int (hd + 1) AND (MAX_DESC_NUM - 1) = tl then Returns (None, m)
           else if \<not> in_ring hd then Out_of_range
           else let m = upd_info dst_id (\<lambda>i. i\<lparr>pi_total_len := c_int (pi_total_len i + len)\<rparr>) m;
                    m = upd_pdesc dst_id hd (\<lambda>p. p\<lparr>pd_status := PACKET_FREEZING\<rparr>) m;
                    m = upd_pdesc dst_id hd (\<lambda>p. p\<lparr>pd_length := len\<rparr>) m;
                    m = upd_info dst_id (\<lambda>i. i\<lparr>pi_head := c_int (hd + 1) smod MAX_DESC_NUM\<rparr>) m;
                    m = upd_pdesc dst_id hd (\<lambda>p. p\<lparr>pd_offset := desc_offset dst_id (pd_pos p)\<rparr>) m
                in Returns (Some hd, m)
      else Returns (None, m))"

definition nupa_data_available :: "int \<Rightarrow> shm \<Rightarrow> (int option \<times> shm) outcome" where
  "nupa_data_available host_id m =
     (if MAX_AGENT_NUM \<le> host_id then Bug_on
      else if host_id < 0 then Out_of_range
      else let info = a_info (m host_id); hd = pi_head info; tl = pi_tail info
      in if hd = tl then Returns (None, m)
      else if \<not> in_ring tl then Out_of_range
      else case pd_status (a_desc (m host_id) ! nat tl) of
             PACKET_FREEZING \<Rightarrow> Spins
           | PACKET_SETTLED \<Rightarrow>
               let m = upd_info host_id (\<lambda>i. i\<lparr>pi_tail := c_int (tl + 1) smod MAX_DESC_NUM\<rparr>) m;
                   m = upd_info host_id (\<lambda>i. i\<lparr>pi_total_len := c_int (pi_total_len i - DESC_MAX_DMA_SIZE)\<rparr>) m
               in Returns (Some tl, m)
           | PACKET_INIT \<Rightarrow> Returns (None, m)
           | PACKET_RELEASED \<Rightarrow> Returns (None, m))"

text \<open>The loop that numbers the descriptors.\<close>

primrec number_descs :: "nat \<Rightarrow> packet_desc list \<Rightarrow> packet_desc list" where
  "number_descs 0 ds = ds"
| "number_descs (Suc n) ds = (number_descs n ds)[n := (number_descs n ds ! n)\<lparr>pd_pos := int n\<rparr>]"

definition adapter_info_init :: "int \<Rightarrow> shm \<Rightarrow> shm outcome" where
  "adapter_info_init host_id m =
     (if MAX_AGENT_NUM \<le> host_id then Bug_on
      else if host_id < 0 then Out_of_range
      else let m = m(host_id := \<lparr>a_info = zero_packets_info,
                                a_desc = replicate (nat MAX_DESC_NUM) zero_packet_desc\<rparr>);
               m = upd_info host_id (\<lambda>i. i\<lparr>pi_head := 0, pi_tail := 0\<rparr>) m;
               m = upd_info host_id (\<lambda>i. i\<lparr>pi_ready := True\<rparr>) m;
               m = upd_info host_id (\<lambda>i. i\<lparr>pi_host_id := host_id\<rparr>) m;
               m = m(host_id := (m host_id)\<lparr>a_desc := replicate (nat MAX_DESC_NUM) zero_packet_desc\<rparr>)
           in Returns (m(host_id := (m host_id)\<lparr>a_desc :=
                 number_descs (nat MAX_DESC_NUM) (a_desc (m host_id))\<rparr>)))"

subsection \<open>DMA memory\<close>

definition mem_write :: "int \<Rightarrow> u8 list \<Rightarrow> (int \<Rightarrow> u8) \<Rightarrow> int \<Rightarrow> u8" where
  "mem_write off bs m = (\<lambda>a. if off \<le> a \<and> a < off + int (length bs) then bs ! nat (a - off) else m a)"

definition mem_read :: "int \<Rightarrow> int \<Rightarrow> (int \<Rightarrow> u8) \<Rightarrow> u8 list" where
  "mem_read off n m = map (\<lambda>i. m (off + int i)) [0..<nat n]"

lemma mem_read_write_same [simp]: "mem_read off (int (length bs)) (mem_write off bs m) = bs"
  by (rule nth_equalityI) (auto simp: mem_read_def mem_write_def)

lemma mem_read_write_other:
  "off + n \<le> off' \<or> off' + int (length bs) \<le> off \<Longrightarrow> mem_read off n (mem_write off' bs m) = mem_read off n m"
  by (auto simp: mem_read_def mem_write_def)

subsection \<open>The interleaving of sender and receiver\<close>

text \<open>
  One ring, its sender and its receiver, with every shared access a step of its own. The
  counter \<open>total_len\<close>, which both sides update and nobody reads, is left out.

  The code looks at neither DMA result: \<open>nupanet_xmit_frame\<close> settles the descriptor whatever
  \<open>xdma_send_data\<close> returned, and \<open>xdma_receive_data\<close> hands its buffer on whatever the DMA
  put there. A send that fails leaves any bytes in the slot, at once (\<open>Send_failed\<close>) and, as
  an aborted transfer may still be under way, at any later time (\<open>Stray\<close>); a receive that
  fails delivers any bytes of the descriptor's length (\<open>Receive_failed\<close>); and when the
  receiver has no memory the frame is dropped although the tail has passed it (\<open>Drop\<close>). A
  host that oopses, for want of a send buffer or of a socket buffer, takes no further step.

  Three ghost lists record what happened: \<open>rs_sent\<close> the frames whose descriptor the sender
  has published, \<open>rs_got\<close> what became of them at the receiver, and \<open>rs_fail\<close> the numbers of
  the frames whose send failed.
\<close>

datatype sender =
    S_Idle
  | S_Fetched "u8 list" int
  | S_Frozen "u8 list" int
  | S_Sized "u8 list" int
  | S_Published "u8 list" int
  | S_Placed "u8 list" int
  | S_Sent "u8 list" int

datatype receiver = R_Idle | R_Looking int | R_Ready int | R_Holding int | R_Read int

text \<open>\<open>Delivered bs ok\<close>: the bytes handed to the network stack, and whether the DMA had succeeded.\<close>

datatype receipt = Delivered "u8 list" bool | Dropped

record ring_sys =
  rs_area :: area
  rs_mem :: "int \<Rightarrow> u8"
  rs_snd :: sender
  rs_rcv :: receiver
  rs_sent :: "u8 list list"
  rs_got :: "receipt list"
  rs_fail :: "nat list"

datatype act = Fetch "u8 list" | Freeze | Set_length | Publish | Place
  | Send | Send_failed "u8 list" | Stray nat "u8 list" | Settle
  | Look | Await | Advance | Receive | Receive_failed "u8 list" | Drop | Release

definition set_pd :: "int \<Rightarrow> (packet_desc \<Rightarrow> packet_desc) \<Rightarrow> area \<Rightarrow> area" where
  "set_pd i f a = a\<lparr>a_desc := (a_desc a)[nat i := f (a_desc a ! nat i)]\<rparr>"

text \<open>The accesses of \<open>fetch_packet_desc\<close>.\<close>

fun fetch_act :: "int \<Rightarrow> act \<Rightarrow> ring_sys \<Rightarrow> ring_sys option" where
  "fetch_act d (Fetch p) s =
     (if rs_snd s = S_Idle \<and>
         c_int (pi_head (a_info (rs_area s)) + 1) AND (MAX_DESC_NUM - 1) \<noteq> pi_tail (a_info (rs_area s))
      then Some (s\<lparr>rs_snd := S_Fetched p (pi_head (a_info (rs_area s)))\<rparr>) else None)"
| "fetch_act d Freeze s =
     (case rs_snd s of S_Fetched p h \<Rightarrow>
        Some (s\<lparr>rs_area := set_pd h (\<lambda>x. x\<lparr>pd_status := PACKET_FREEZING\<rparr>) (rs_area s),
                rs_snd := S_Frozen p h\<rparr>)
      | _ \<Rightarrow> None)"
| "fetch_act d Set_length s =
     (case rs_snd s of S_Frozen p h \<Rightarrow>
        Some (s\<lparr>rs_area := set_pd h (\<lambda>x. x\<lparr>pd_length := int (length p)\<rparr>) (rs_area s),
                rs_snd := S_Sized p h\<rparr>)
      | _ \<Rightarrow> None)"
| "fetch_act d Publish s =
     (case rs_snd s of S_Sized p h \<Rightarrow>
        Some (s\<lparr>rs_area := (rs_area s)\<lparr>a_info := (a_info (rs_area s))
                  \<lparr>pi_head := c_int (h + 1) smod MAX_DESC_NUM\<rparr>\<rparr>,
                rs_sent := rs_sent s @ [p], rs_snd := S_Published p h\<rparr>)
      | _ \<Rightarrow> None)"
| "fetch_act d Place s =
     (case rs_snd s of S_Published p h \<Rightarrow>
        Some (s\<lparr>rs_area := set_pd h (\<lambda>x. x\<lparr>pd_offset := desc_offset d (pd_pos x)\<rparr>) (rs_area s),
                rs_snd := S_Placed p h\<rparr>)
      | _ \<Rightarrow> None)"
| "fetch_act d _ s = None"

text \<open>The DMA of \<open>xdma_send_data\<close>.\<close>

fun send_act :: "act \<Rightarrow> ring_sys \<Rightarrow> ring_sys option" where
  "send_act Send s =
     (case rs_snd s of S_Placed p h \<Rightarrow>
        Some (s\<lparr>rs_mem := mem_write (pd_offset (a_desc (rs_area s) ! nat h)) p (rs_mem s),
                rs_snd := S_Sent p h\<rparr>)
      | _ \<Rightarrow> None)"
| "send_act (Send_failed bs) s =
     (case rs_snd s of S_Placed p h \<Rightarrow>
        (if length bs \<le> length p
         then Some (s\<lparr>rs_mem := mem_write (pd_offset (a_desc (rs_area s) ! nat h)) bs (rs_mem s),
                      rs_fail := (length (rs_sent s) - 1) # rs_fail s, rs_snd := S_Sent p h\<rparr>)
         else None)
      | _ \<Rightarrow> None)"
| "send_act _ s = None"

text \<open>
  The hardware still at work for a frame whose send failed: it writes to the slot that send
  was given.
\<close>

definition stray_act :: "int \<Rightarrow> nat \<Rightarrow> u8 list \<Rightarrow> ring_sys \<Rightarrow> ring_sys option" where
  "stray_act d k bs s =
     (if k \<in> set (rs_fail s) \<and> length bs \<le> length (rs_sent s ! k)
      then Some (s\<lparr>rs_mem := mem_write (desc_offset d (int (k mod nat MAX_DESC_NUM))) bs (rs_mem s)\<rparr>)
      else None)"

text \<open>\<open>nupanet_xmit_frame\<close> after the call of \<open>xdma_send_data\<close>, whose result it ignores.\<close>

fun settle_act :: "act \<Rightarrow> ring_sys \<Rightarrow> ring_sys option" where
  "settle_act Settle s =
     (case rs_snd s of S_Sent p h \<Rightarrow>
        Some (s\<lparr>rs_area := set_pd h (\<lambda>x. x\<lparr>pd_status := PACKET_SETTLED\<rparr>) (rs_area s), rs_snd := S_Idle\<rparr>)
      | _ \<Rightarrow> None)"
| "settle_act _ s = None"

text \<open>The accesses of \<open>nupa_data_available\<close>.\<close>

fun avail_act :: "act \<Rightarrow> ring_sys \<Rightarrow> ring_sys option" where
  "avail_act Look s =
     (if rs_rcv s = R_Idle \<and> pi_head (a_info (rs_area s)) \<noteq> pi_tail (a_info (rs_area s))
      then Some (s\<lparr>rs_rcv := R_Looking (pi_tail (a_info (rs_area s)))\<rparr>) else None)"
| "avail_act Await s =
     (case rs_rcv s of R_Looking t \<Rightarrow>
        (case pd_status (a_desc (rs_area s) ! nat t) of
           PACKET_FREEZING \<Rightarrow> Some s
         | PACKET_SETTLED \<Rightarrow> Some (s\<lparr>rs_rcv := R_Ready t\<rparr>)
         | _ \<Rightarrow> Some (s\<lparr>rs_rcv := R_Idle\<rparr>))
      | _ \<Rightarrow> None)"
| "avail_act Advance s =
     (case rs_rcv s of R_Ready t \<Rightarrow>
        Some (s\<lparr>rs_area := (rs_area s)\<lparr>a_info := (a_info (rs_area s))
                  \<lparr>pi_tail := c_int (t + 1) smod MAX_DESC_NUM\<rparr>\<rparr>,
                rs_rcv := R_Holding t\<rparr>)
      | _ \<Rightarrow> None)"
| "avail_act _ s = None"

text \<open>
  \<open>xdma_receive_data\<close>: the DMA of the frame, with and without success, and the return without
  a buffer, after which \<open>nupanet_poll\<close> leaves its loop and the descriptor as it is.
\<close>

fun receive_act :: "act \<Rightarrow> ring_sys \<Rightarrow> ring_sys option" where
  "receive_act Receive s =
     (case rs_rcv s of R_Holding t \<Rightarrow>
        (let x = a_desc (rs_area s) ! nat t
         in Some (s\<lparr>rs_got := rs_got s @ [Delivered (mem_read (pd_offset x) (pd_length x) (rs_mem s)) True],
                    rs_rcv := R_Read t\<rparr>))
      | _ \<Rightarrow> None)"
| "receive_act (Receive_failed bs) s =
     (case rs_rcv s of R_Holding t \<Rightarrow>
        (if int (length bs) = pd_length (a_desc (rs_area s) ! nat t)
         then Some (s\<lparr>rs_got := rs_got s @ [Delivered bs False], rs_rcv := R_Read t\<rparr>) else None)
      | _ \<Rightarrow> None)"
| "receive_act Drop s =
     (case rs_rcv s of R_Holding t \<Rightarrow> Some (s\<lparr>rs_got := rs_got s @ [Dropped], rs_rcv := R_Idle\<rparr>)
      | _ \<Rightarrow> None)"
| "receive_act _ s = None"

text \<open>\<open>nupanet_poll\<close> once it has the frame.\<close>

fun release_act :: "act \<Rightarrow> ring_sys \<Rightarrow> ring_sys option" where
  "release_act Release s =
     (case rs_rcv s of R_Read t \<Rightarrow>
        Some (s\<lparr>rs_area := set_pd t (\<lambda>x. x\<lparr>pd_status := PACKET_RELEASED\<rparr>) (rs_area s), rs_rcv := R_Idle\<rparr>)
      | _ \<Rightarrow> None)"
| "release_act _ s = None"

text \<open>
  The two hosts together. \<open>nupanet_xmit_frame\<close> fetches a descriptor only for a frame that fits
  into a slot.
\<close>

fun ring_act :: "int \<Rightarrow> act \<Rightarrow> ring_sys \<Rightarrow> ring_sys option" where
  "ring_act d (Fetch p) s = (if int (length p) \<le> DESC_MAX_DMA_SIZE then fetch_act d (Fetch p) s else None)"
| "ring_act d Freeze s = fetch_act d Freeze s"
| "ring_act d Set_length s = fetch_act d Set_length s"
| "ring_act d Publish s = fetch_act d Publish s"
| "ring_act d Place s = fetch_act d Place s"
| "ring_act d Send s = send_act Send s"
| "ring_act d (Send_failed bs) s = send_act (Send_failed bs) s"
| "ring_act d (Stray k bs) s = stray_act d k bs s"
| "ring_act d Settle s = settle_act Settle s"
| "ring_act d Look s = avail_act Look s"
| "ring_act d Await s = avail_act Await s"
| "ring_act d Advance s = avail_act Advance s"
| "ring_act d Receive s = receive_act Receive s"
| "ring_act d (Receive_failed bs) s = receive_act (Receive_failed bs) s"
| "ring_act d Drop s = receive_act Drop s"
| "ring_act d Release s = release_act Release s"

text \<open>The ring as \<open>adapter_info_init\<close> leaves it, and the states interleavings reach.\<close>

definition fresh_area :: "int \<Rightarrow> area" where
  "fresh_area d = (case adapter_info_init d (\<lambda>_. \<lparr>a_info = zero_packets_info, a_desc = []\<rparr>) of
     Returns m \<Rightarrow> m d | _ \<Rightarrow> \<lparr>a_info = zero_packets_info, a_desc = []\<rparr>)"

definition ring_start :: "int \<Rightarrow> (int \<Rightarrow> u8) \<Rightarrow> ring_sys" where
  "ring_start d mem = \<lparr>rs_area = fresh_area d, rs_mem = mem, rs_snd = S_Idle, rs_rcv = R_Idle,
     rs_sent = [], rs_got = [], rs_fail = []\<rparr>"

inductive ring_reach :: "int \<Rightarrow> ring_sys \<Rightarrow> bool" for d where
  start: "ring_reach d (ring_start d mem)"
| step: "ring_reach d s \<Longrightarrow> ring_act d a s = Some s' \<Longrightarrow> ring_reach d s'"

subsection \<open>Arithmetic of the ring\<close>

lemma ring_consts [simp]:
  "MAX_DESC_NUM = 64" "MAX_AGENT_NUM = 2" "DESC_MAX_DMA_SIZE = 2048" "AGENT_TOTAL_DMA_SIZE = 131072"
  "INFO_SIZE = 2048" "TOTAL_DMA_SIZE = 262144" "USR_BAR_SHARING_SIZE = 4096"
  by (simp_all add: xdma_const push_bit_eq_mult)

lemma c_int_small [simp]: "- 2147483648 \<le> x \<Longrightarrow> x < 2147483648 \<Longrightarrow> c_int x = x"
  by (simp add: c_int_def signed_take_bit_int_eq_self)

lemma and_63: "(x::int) AND 63 = x mod 64"
  using take_bit_eq_mask [of 6 x] by (simp add: take_bit_eq_mod mask_numeral)

lemma smod_nonneg: "0 \<le> (x::int) \<Longrightarrow> x smod 64 = x mod 64"
  by (auto simp: signed_modulo_int_def signed_divide_int_def sgn_if minus_div_mult_eq_mod)

text \<open>Slots are written \<open>int (k mod 64)\<close> throughout.\<close>

declare of_nat_mod [simp del]

lemma next_slot [simp]:
  "c_int (int (k mod 64) + 1) AND 63 = int (Suc k mod 64)"
  "c_int (int (k mod 64) + 1) smod 64 = int (Suc k mod 64)"
  "(int (k mod 64) + 1) AND 63 = int (Suc k mod 64)"
  "(int (k mod 64) + 1) smod 64 = int (Suc k mod 64)"
proof -
  have "int (Suc k mod 64) = (int (k mod 64) + 1) mod 64" by (simp add: zmod_int mod_add_right_eq add.commute)
  moreover have "c_int (int (k mod 64) + 1) = int (k mod 64) + 1" by (rule c_int_small) (auto simp: zmod_int)
  ultimately show "c_int (int (k mod 64) + 1) AND 63 = int (Suc k mod 64)"
    "c_int (int (k mod 64) + 1) smod 64 = int (Suc k mod 64)"
    "(int (k mod 64) + 1) AND 63 = int (Suc k mod 64)" "(int (k mod 64) + 1) smod 64 = int (Suc k mod 64)"
    by (simp_all add: and_63 smod_nonneg)
qed

lemma mod_64_neq: "j < k \<Longrightarrow> k < j + 64 \<Longrightarrow> j mod 64 \<noteq> (k mod 64 :: nat)"
proof
  assume less: "j < k" "k < j + 64" and "j mod 64 = k mod 64"
  then have "64 dvd k - j" by (metis less_imp_le mod_eq_dvd_iff_nat)
  then show False using less nat_dvd_not_less [of "k - j" 64] by simp
qed

text \<open>For the two hosts the offsets do not wrap, and no two slots overlap.\<close>

abbreviation slot_off :: "int \<Rightarrow> nat \<Rightarrow> int" where "slot_off d i \<equiv> desc_offset d (int i)"

lemma desc_offset_eq:
  "0 \<le> d \<Longrightarrow> d < MAX_AGENT_NUM \<Longrightarrow> in_ring i \<Longrightarrow>
   desc_offset d i = AGENT_TOTAL_DMA_SIZE * d + i * DESC_MAX_DMA_SIZE"
  by (simp add: desc_offset_def in_ring_def)

lemma slot_off_disjoint:
  assumes "d = 0 \<or> d = 1" and "i < 64" and "j < 64" and "i \<noteq> j"
  shows "slot_off d i + 2048 \<le> slot_off d j \<or> slot_off d j + 2048 \<le> slot_off d i"
  using assms by (auto simp: desc_offset_eq in_ring_def)

subsection \<open>The invariant\<close>

text \<open>
  Frame number \<open>k\<close> (counting from the start) lives in slot \<open>k mod 64\<close>. \<open>sent_no\<close> frames
  have been published, and the tail has passed \<open>tail_no\<close> of them.
\<close>

abbreviation sent_no :: "ring_sys \<Rightarrow> nat" where "sent_no s \<equiv> length (rs_sent s)"

definition tail_no :: "ring_sys \<Rightarrow> nat" where
  "tail_no s = length (rs_got s) + (case rs_rcv s of R_Holding t \<Rightarrow> 1 | _ \<Rightarrow> 0)"

abbreviation pd_at :: "ring_sys \<Rightarrow> nat \<Rightarrow> packet_desc" where
  "pd_at s k \<equiv> a_desc (rs_area s) ! (k mod 64)"

text \<open>
  A frame is clean when no send into its slot has failed so far, its own included. Only of
  clean frames the bytes in the DMA memory are known.
\<close>

definition clean :: "nat list \<Rightarrow> nat \<Rightarrow> bool" where
  "clean fs k \<longleftrightarrow> (\<forall>j \<in> set fs. j \<le> k \<longrightarrow> j mod 64 \<noteq> k mod 64)"

definition settled :: "int \<Rightarrow> ring_sys \<Rightarrow> nat \<Rightarrow> bool" where
  "settled d s k \<longleftrightarrow> pd_status (pd_at s k) = PACKET_SETTLED \<and>
     pd_length (pd_at s k) = int (length (rs_sent s ! k)) \<and>
     pd_offset (pd_at s k) = slot_off d (k mod 64) \<and>
     (clean (rs_fail s) k \<longrightarrow>
        mem_read (slot_off d (k mod 64)) (int (length (rs_sent s ! k))) (rs_mem s) = rs_sent s ! k)"

fun in_progress :: "sender \<Rightarrow> bool" where
  "in_progress (S_Published p h) = True"
| "in_progress (S_Placed p h) = True"
| "in_progress (S_Sent p h) = True"
| "in_progress _ = False"

definition chosen :: "ring_sys \<Rightarrow> u8 list \<Rightarrow> int \<Rightarrow> bool" where
  "chosen s p h \<longleftrightarrow> h = int (sent_no s mod 64) \<and> sent_no s < tail_no s + 63 \<and> length p \<le> 2048"

definition newest :: "ring_sys \<Rightarrow> u8 list \<Rightarrow> int \<Rightarrow> bool" where
  "newest s p h \<longleftrightarrow> tail_no s < sent_no s \<and> h = int ((sent_no s - 1) mod 64) \<and>
     p = rs_sent s ! (sent_no s - 1) \<and> pd_status (pd_at s (sent_no s - 1)) = PACKET_FREEZING \<and>
     pd_length (pd_at s (sent_no s - 1)) = int (length p)"

fun sender_ok :: "int \<Rightarrow> ring_sys \<Rightarrow> sender \<Rightarrow> bool" where
  "sender_ok d s S_Idle = True"
| "sender_ok d s (S_Fetched p h) = chosen s p h"
| "sender_ok d s (S_Frozen p h) = (chosen s p h \<and> pd_status (pd_at s (sent_no s)) = PACKET_FREEZING)"
| "sender_ok d s (S_Sized p h) = (chosen s p h \<and> pd_status (pd_at s (sent_no s)) = PACKET_FREEZING \<and>
     pd_length (pd_at s (sent_no s)) = int (length p))"
| "sender_ok d s (S_Published p h) = newest s p h"
| "sender_ok d s (S_Placed p h) = (newest s p h \<and>
     pd_offset (pd_at s (sent_no s - 1)) = slot_off d ((sent_no s - 1) mod 64))"
| "sender_ok d s (S_Sent p h) = (newest s p h \<and>
     pd_offset (pd_at s (sent_no s - 1)) = slot_off d ((sent_no s - 1) mod 64) \<and>
     (clean (rs_fail s) (sent_no s - 1) \<longrightarrow>
        mem_read (slot_off d ((sent_no s - 1) mod 64)) (int (length p)) (rs_mem s) = p))"

fun receiver_ok :: "int \<Rightarrow> ring_sys \<Rightarrow> receiver \<Rightarrow> bool" where
  "receiver_ok d s R_Idle = True"
| "receiver_ok d s (R_Looking t) = (t = int (tail_no s mod 64) \<and> tail_no s < sent_no s)"
| "receiver_ok d s (R_Ready t) = (t = int (tail_no s mod 64) \<and> tail_no s < sent_no s \<and> settled d s (tail_no s))"
| "receiver_ok d s (R_Holding t) = (t = int ((tail_no s - 1) mod 64) \<and> settled d s (tail_no s - 1))"
| "receiver_ok d s (R_Read t) = (t = int ((tail_no s - 1) mod 64) \<and> 0 < tail_no s)"

text \<open>
  What the receipt of a frame says: a delivered frame has the length of the frame sent, and
  its bytes when the receive DMA succeeded and the frame is clean.
\<close>

fun receipt_ok :: "nat list \<Rightarrow> u8 list list \<Rightarrow> nat \<Rightarrow> receipt \<Rightarrow> bool" where
  "receipt_ok fs sent k (Delivered bs ok) \<longleftrightarrow>
     length bs = length (sent ! k) \<and> (ok \<and> clean fs k \<longrightarrow> bs = sent ! k)"
| "receipt_ok fs sent k Dropped \<longleftrightarrow> True"

definition ring_inv :: "int \<Rightarrow> ring_sys \<Rightarrow> bool" where
  "ring_inv d s \<longleftrightarrow>
     length (a_desc (rs_area s)) = 64 \<and> (\<forall>i<64. pd_pos (a_desc (rs_area s) ! i) = int i) \<and>
     pi_head (a_info (rs_area s)) = int (sent_no s mod 64) \<and>
     pi_tail (a_info (rs_area s)) = int (tail_no s mod 64) \<and>
     tail_no s \<le> sent_no s \<and> sent_no s \<le> tail_no s + 63 \<and>
     (\<forall>k < sent_no s. length (rs_sent s ! k) \<le> 2048) \<and>
     (\<forall>k \<in> set (rs_fail s). k < sent_no s) \<and>
     (\<forall>k < length (rs_got s). receipt_ok (rs_fail s) (rs_sent s) k (rs_got s ! k)) \<and>
     (\<forall>k. tail_no s \<le> k \<and> k < sent_no s \<and> (Suc k = sent_no s \<longrightarrow> \<not> in_progress (rs_snd s)) \<longrightarrow> settled d s k) \<and>
     sender_ok d s (rs_snd s) \<and> receiver_ok d s (rs_rcv s)"

lemmas ring_defs = ring_inv_def settled_def chosen_def newest_def tail_no_def

lemma set_pd_fields [simp]:
  "a_info (set_pd i f a) = a_info a" "length (a_desc (set_pd i f a)) = length (a_desc a)"
  by (simp_all add: set_pd_def)

lemma set_pd_nth:
  "length (a_desc a) = 64 \<Longrightarrow> a_desc (set_pd (int (j mod 64)) f a) ! (k mod 64) =
     (if j mod 64 = k mod 64 then f (a_desc a ! (k mod 64)) else a_desc a ! (k mod 64))"
  by (simp add: set_pd_def)

end
