(* ===== verification/Nupa_Ring_Inv.thy ===== *)
theory Nupa_Ring_Inv
  imports Nupa_Ring
begin

text \<open>
  Every interleaving of the sender and the receiver keeps the invariant of the ring.
\<close>

subsection \<open>What a step leaves alone\<close>

text \<open>Two steps differ in what they change; each frame lemma compares \<open>settled\<close>.\<close>

lemma settled_cong:
  assumes "pd_at s' k = pd_at s k" and "k < sent_no s" and "\<exists>ps. rs_sent s' = rs_sent s @ ps"
    and "rs_mem s' = rs_mem s" and "rs_fail s' = rs_fail s"
  shows "settled d s' k = settled d s k"
  using assms by (auto simp: settled_def nth_append)

lemma receipt_ok_append:
  "k < length sent \<Longrightarrow> receipt_ok fs (sent @ ps) k r = receipt_ok fs sent k r"
  by (cases r) (simp_all add: nth_append)

lemma clean_mono: "clean fs k \<Longrightarrow> set fs' \<subseteq> set fs \<Longrightarrow> clean fs' k"
  by (auto simp: clean_def)

lemma receipt_ok_mono: "receipt_ok fs sent k r \<Longrightarrow> set fs \<subseteq> set fs' \<Longrightarrow> receipt_ok fs' sent k r"
  by (cases r) (auto dest: clean_mono)

lemma got_le_tail: "length (rs_got s) \<le> tail_no s"
  by (simp add: tail_no_def)

lemma other_slot:
  assumes "j < k" "k < j + 64" "length (a_desc a) = 64"
  shows "a_desc (set_pd (int (k mod 64)) f a) ! (j mod 64) = a_desc a ! (j mod 64)"
    and "a_desc (set_pd (int (j mod 64)) f a) ! (k mod 64) = a_desc a ! (k mod 64)"
  using mod_64_neq [OF assms(1,2)] assms(3) by (simp_all add: set_pd_nth)

lemma same_slot:
  "length (a_desc a) = 64 \<Longrightarrow> a_desc (set_pd (int (k mod 64)) f a) ! (k mod 64) = f (a_desc a ! (k mod 64))"
  by (simp add: set_pd_nth)

lemma in_progress_newest:
  "ring_inv d s \<Longrightarrow> in_progress (rs_snd s) \<Longrightarrow> \<exists>p h. newest s p h"
  by (cases "rs_snd s") (auto simp: ring_inv_def)

lemma holding_pos: "rs_rcv s = R_Holding t \<Longrightarrow> 0 < tail_no s"
  by (simp add: tail_no_def)

subsection \<open>Steps of the sender\<close>

lemma sender_slot_step:
  assumes inv: "ring_inv d s"
    and j: "j = sent_no s \<and> sent_no s < tail_no s + 63 \<and> \<not> in_progress (rs_snd s) \<or>
            Suc j = sent_no s \<and> tail_no s \<le> j \<and> in_progress (rs_snd s)"
    and pos: "\<And>x. pd_pos (f x) = pd_pos x"
    and s': "s' = s\<lparr>rs_area := set_pd (int (j mod 64)) f (rs_area s), rs_snd := S\<rparr>"
    and S: "sender_ok d s' S"
    and prog: "in_progress (rs_snd s) \<Longrightarrow> in_progress S \<or> settled d s' j"
  shows "ring_inv d s'"
proof -
  let ?n = "sent_no s" and ?c = "tail_no s"
  have len: "length (a_desc (rs_area s)) = 64" and bnd: "?c \<le> ?n" "?n \<le> ?c + 63"
    using inv by (simp_all add: ring_inv_def)
  have jn: "j \<le> ?n" "?n \<le> Suc j" "j < ?c + 63" using j bnd by auto
  have keep: "settled d s' k = settled d s k" if "k < ?n" "k \<noteq> j" "?c \<le> Suc k" for k
  proof (rule settled_cong)
    have "k < j" using that jn by simp
    moreover have "j < k + 64" using that jn by simp
    ultimately show "pd_at s' k = pd_at s k" using len by (simp add: s' other_slot)
  qed (use that in \<open>simp_all add: s'\<close>)
  have same: "tail_no s' = ?c" "sent_no s' = ?n" by (simp_all add: s' tail_no_def)
  have pos': "\<forall>i<64. pd_pos (a_desc (rs_area s') ! i) = int i"
    using inv pos by (auto simp: ring_inv_def s' set_pd_def nth_list_update)
  have settled': "settled d s' k"
    if "?c \<le> k" "k < ?n" "Suc k = ?n \<longrightarrow> \<not> in_progress S" for k
  proof (cases "k = j")
    case True
    then show ?thesis using that j prog by auto
  next
    case False
    then have "Suc k = ?n \<longrightarrow> \<not> in_progress (rs_snd s)" using j by auto
    then show ?thesis using keep [of k] that False inv by (auto simp: ring_inv_def)
  qed
  have rcv: "receiver_ok d s' (rs_rcv s)"
  proof (cases "rs_rcv s")
    case (R_Ready t)
    then have st: "settled d s ?c" "?c < ?n" using inv by (auto simp: ring_inv_def)
    have "j \<noteq> ?c"
    proof
      assume eq: "j = ?c"
      then have "in_progress (rs_snd s)" "j = ?n - 1" using j st by auto
      then show False using in_progress_newest [OF inv] st eq by (auto simp: newest_def settled_def)
    qed
    then show ?thesis using R_Ready inv keep [of ?c] st by (auto simp: ring_inv_def same)
  next
    case (R_Holding t)
    then have "settled d s (?c - 1)" "0 < ?c" using inv holding_pos by (auto simp: ring_inv_def)
    moreover have "?c - 1 < ?n" "?c - 1 \<noteq> j" using \<open>0 < ?c\<close> bnd j by auto
    ultimately show ?thesis using R_Holding inv keep [of "?c - 1"] by (auto simp: ring_inv_def same)
  qed (use inv in \<open>auto simp: ring_inv_def same\<close>)
  show ?thesis
    unfolding ring_inv_def same
    using inv len bnd pos' settled' rcv S by (auto simp: ring_inv_def s')
qed

lemmas ring_inv_parts = ring_inv_def [THEN iffD1]

lemma step_Fetch: "ring_inv d s \<Longrightarrow> ring_act d (Fetch p) s = Some s' \<Longrightarrow> ring_inv d s'"
proof -
  assume inv: "ring_inv d s" and act: "ring_act d (Fetch p) s = Some s'"
  let ?n = "sent_no s" and ?c = "tail_no s"
  have s': "s' = s\<lparr>rs_snd := S_Fetched p (int (?n mod 64))\<rparr>" and idle: "rs_snd s = S_Idle"
    and p: "length p \<le> 2048" and room: "int (Suc ?n mod 64) \<noteq> int (?c mod 64)"
    using inv act by (auto simp: ring_inv_def split: if_splits)
  have "?n \<noteq> ?c + 63"
  proof
    assume "?n = ?c + 63"
    then have "Suc ?n mod 64 = ?c mod 64" by simp
    then show False using room by simp
  qed
  then have "?n < ?c + 63" using inv by (simp add: ring_inv_def)
  moreover have "tail_no s' = ?c" "\<And>k. settled d s' k = settled d s k"
    by (simp_all add: s' tail_no_def settled_def)
  ultimately show ?thesis using inv p idle
    by (cases "rs_rcv s") (auto simp: ring_inv_def chosen_def s' tail_no_def settled_def)
qed

lemma step_Freeze: "ring_inv d s \<Longrightarrow> ring_act d Freeze s = Some s' \<Longrightarrow> ring_inv d s'"
proof -
  assume inv: "ring_inv d s" and act: "ring_act d Freeze s = Some s'"
  then obtain p h where S: "rs_snd s = S_Fetched p h" "chosen s p h"
    by (auto simp: ring_inv_def split: sender.splits)
  show ?thesis
    by (rule sender_slot_step [OF inv, where j = "sent_no s" and S = "S_Frozen p h"
          and f = "\<lambda>x. x\<lparr>pd_status := PACKET_FREEZING\<rparr>"])
      (use inv act S in \<open>auto simp: ring_inv_def chosen_def tail_no_def same_slot\<close>)
qed

lemma step_Set_length: "ring_inv d s \<Longrightarrow> ring_act d Set_length s = Some s' \<Longrightarrow> ring_inv d s'"
proof -
  assume inv: "ring_inv d s" and act: "ring_act d Set_length s = Some s'"
  then obtain p h where S: "rs_snd s = S_Frozen p h" "chosen s p h" "sender_ok d s (S_Frozen p h)"
    by (auto simp: ring_inv_def split: sender.splits)
  show ?thesis
    by (rule sender_slot_step [OF inv, where j = "sent_no s" and S = "S_Sized p h"
          and f = "\<lambda>x. x\<lparr>pd_length := int (length p)\<rparr>"])
      (use inv act S in \<open>auto simp: ring_inv_def chosen_def tail_no_def same_slot\<close>)
qed

lemma step_Publish: "ring_inv d s \<Longrightarrow> ring_act d Publish s = Some s' \<Longrightarrow> ring_inv d s'"
proof -
  assume inv: "ring_inv d s" and act: "ring_act d Publish s = Some s'"
  let ?n = "sent_no s" and ?c = "tail_no s"
  obtain p h where S: "rs_snd s = S_Sized p h" "chosen s p h" "sender_ok d s (S_Sized p h)"
    using inv act by (auto simp: ring_inv_def split: sender.splits)
  then have s': "s' = s\<lparr>rs_area := (rs_area s)\<lparr>a_info := (a_info (rs_area s))
        \<lparr>pi_head := int (Suc ?n mod 64)\<rparr>\<rparr>, rs_sent := rs_sent s @ [p], rs_snd := S_Published p h\<rparr>"
    using act by (auto simp: chosen_def)
  have keep: "settled d s' k = settled d s k" if "k < ?n" for k
    by (rule settled_cong) (use that in \<open>simp_all add: s'\<close>)
  have tn: "tail_no s' = ?c" "sent_no s' = Suc ?n" by (simp_all add: s' tail_no_def)
  have rcv: "receiver_ok d s' (rs_rcv s)"
  proof (cases "rs_rcv s")
    case (R_Holding t)
    then have "0 < ?c" "?c - 1 < ?n" using inv holding_pos [of s t] by (auto simp: ring_inv_def)
    then show ?thesis using R_Holding inv keep [of "?c - 1"] by (simp add: ring_inv_def tn)
  next
    case (R_Ready t)
    then show ?thesis using inv keep [of ?c] by (simp add: ring_inv_def tn)
  qed (use inv in \<open>auto simp: ring_inv_def tn\<close>)
  have new: "newest s' p h"
    using S inv by (auto simp: newest_def chosen_def tn ring_inv_def) (simp_all add: s')
  have got: "\<forall>k < length (rs_got s). receipt_ok (rs_fail s) (rs_sent s @ [p]) k (rs_got s ! k)"
    using inv got_le_tail [of s] by (simp add: ring_inv_def receipt_ok_append)
  have old: "settled d s' k"
    if "?c \<le> k" "k < Suc ?n" "Suc k = Suc ?n \<longrightarrow> \<not> in_progress (S_Published p h)" for k
    using that keep [of k] inv S by (auto simp: ring_inv_def less_Suc_eq)
  show ?thesis
    unfolding ring_inv_def tn
    using inv S new rcv got old by (auto simp: ring_inv_def chosen_def s' nth_append less_Suc_eq)
qed

lemma newest_index:
  assumes "newest s p h"
  obtains j where "sent_no s = Suc j" and "h = int (j mod 64)" and "tail_no s \<le> j"
    and "p = rs_sent s ! j" and "pd_status (pd_at s j) = PACKET_FREEZING"
    and "pd_length (pd_at s j) = int (length p)"
proof -
  obtain j where "sent_no s = Suc j" using assms by (cases "sent_no s") (auto simp: newest_def)
  then show ?thesis using assms that by (simp add: newest_def)
qed

lemma step_Place: "ring_inv d s \<Longrightarrow> ring_act d Place s = Some s' \<Longrightarrow> ring_inv d s'"
proof -
  assume inv: "ring_inv d s" and act: "ring_act d Place s = Some s'"
  obtain p h where S: "rs_snd s = S_Published p h" "newest s p h"
    using inv act by (auto simp: ring_inv_def split: sender.splits)
  obtain j where j: "sent_no s = Suc j" "h = int (j mod 64)" "tail_no s \<le> j" "p = rs_sent s ! j"
    "pd_status (pd_at s j) = PACKET_FREEZING" "pd_length (pd_at s j) = int (length p)"
    using newest_index [OF S(2)] .
  have len: "length (a_desc (rs_area s)) = 64" using inv by (simp add: ring_inv_def)
  let ?f = "\<lambda>x. x\<lparr>pd_offset := desc_offset d (pd_pos x)\<rparr>"
  have s': "s' = s\<lparr>rs_area := set_pd (int (j mod 64)) ?f (rs_area s), rs_snd := S_Placed p h\<rparr>"
    using act S j(2) by simp
  have off: "desc_offset d (pd_pos (pd_at s j)) = slot_off d (j mod 64)"
    using inv by (simp add: ring_inv_def)
  have "sender_ok d s' (S_Placed p h)"
    using j off len by (simp add: newest_def s' tail_no_def same_slot)
  then show ?thesis
    using j S by (intro sender_slot_step [OF inv _ _ s']) simp_all
qed

lemma step_Settle: "ring_inv d s \<Longrightarrow> ring_act d Settle s = Some s' \<Longrightarrow> ring_inv d s'"
proof -
  assume inv: "ring_inv d s" and act: "ring_act d Settle s = Some s'"
  then obtain p h where S: "rs_snd s = S_Sent p h" "newest s p h" "sender_ok d s (S_Sent p h)"
    by (auto simp: ring_inv_def split: sender.splits)
  obtain j where j: "sent_no s = Suc j" "h = int (j mod 64)" "tail_no s \<le> j" "p = rs_sent s ! j"
    "pd_status (pd_at s j) = PACKET_FREEZING" "pd_length (pd_at s j) = int (length p)"
    using newest_index [OF S(2)] .
  have len: "length (a_desc (rs_area s)) = 64" using inv by (simp add: ring_inv_def)
  have s': "s' = s\<lparr>rs_area := set_pd (int (j mod 64)) (\<lambda>x. x\<lparr>pd_status := PACKET_SETTLED\<rparr>) (rs_area s),
      rs_snd := S_Idle\<rparr>" using act S(1) j(2) by simp
  have "settled d s' j" using j S(3) len by (simp add: settled_def s' same_slot)
  then show ?thesis
    using j S(1) by (intro sender_slot_step [OF inv _ _ s']) simp_all
qed

text \<open>
  A write to the slot of frame \<open>j\<close>, by a send, a failed send or stray hardware. It may harm
  only frames in that slot, which must not count as settled and clean.
\<close>

lemma write_other:
  assumes "d = 0 \<or> d = 1" and "length bs \<le> 2048" and "n \<le> 2048" and "k mod 64 \<noteq> j mod 64"
  shows "mem_read (slot_off d (k mod 64)) (int n) (mem_write (slot_off d (j mod 64)) bs m) =
    mem_read (slot_off d (k mod 64)) (int n) m"
  using slot_off_disjoint [OF assms(1), of "k mod 64" "j mod 64"] assms(2-4)
  by (intro mem_read_write_other) linarith

lemma mem_step:
  assumes d: "d = 0 \<or> d = 1" and inv: "ring_inv d s" and bs: "length bs \<le> 2048"
    and s': "s' = s\<lparr>rs_mem := mem_write (slot_off d (j mod 64)) bs (rs_mem s), rs_fail := fs, rs_snd := S\<rparr>"
    and fs: "set (rs_fail s) \<subseteq> set fs" "\<forall>k \<in> set fs. k < sent_no s"
    and prog: "in_progress S = in_progress (rs_snd s)"
    and own: "\<And>m. tail_no s \<le> Suc m \<Longrightarrow> m < sent_no s \<Longrightarrow> m mod 64 = j mod 64 \<Longrightarrow> settled d s m \<Longrightarrow> \<not> clean fs m"
    and S: "sender_ok d s' S"
  shows "ring_inv d s'"
proof -
  have tn: "tail_no s' = tail_no s" by (simp add: s' tail_no_def)
  have keep: "settled d s' m" if "settled d s m" "tail_no s \<le> Suc m" "m < sent_no s" for m
  proof (cases "m mod 64 = j mod 64")
    case True
    then show ?thesis using that own [of m] by (simp add: settled_def s')
  next
    case False
    then have "mem_read (slot_off d (m mod 64)) (int (length (rs_sent s ! m))) (rs_mem s') =
        mem_read (slot_off d (m mod 64)) (int (length (rs_sent s ! m))) (rs_mem s)"
      using inv that(3) by (simp add: s' write_other [OF d bs] ring_inv_def)
    then show ?thesis using that(1) fs(1) by (auto simp: settled_def s' dest: clean_mono)
  qed
  have rcv: "receiver_ok d s' (rs_rcv s)"
  proof (cases "rs_rcv s")
    case (R_Holding t)
    then have "0 < tail_no s" "tail_no s - 1 < sent_no s"
      using inv holding_pos [of s t] by (auto simp: ring_inv_def)
    then show ?thesis using R_Holding inv keep [of "tail_no s - 1"] by (simp add: ring_inv_def tn)
  qed (use inv keep in \<open>auto simp: ring_inv_def tn\<close>, simp_all add: s')
  have got: "\<forall>k < length (rs_got s). receipt_ok fs (rs_sent s) k (rs_got s ! k)"
    using inv fs(1) by (auto simp: ring_inv_def intro: receipt_ok_mono)
  have f: "rs_area s' = rs_area s" "rs_sent s' = rs_sent s" "rs_got s' = rs_got s" "rs_fail s' = fs"
    "rs_snd s' = S" "rs_rcv s' = rs_rcv s" by (simp_all add: s')
  show ?thesis
    using inv S rcv got fs(2) keep unfolding ring_inv_def tn f prog by simp
qed

text \<open>The two outcomes of \<open>xdma_send_data\<close>.\<close>

lemma sent_step:
  assumes d: "d = 0 \<or> d = 1" and inv: "ring_inv d s" and S: "rs_snd s = S_Placed p h"
    and s': "s' = s\<lparr>rs_mem := mem_write (pd_offset (a_desc (rs_area s) ! nat h)) bs (rs_mem s),
                    rs_fail := fs, rs_snd := S_Sent p h\<rparr>"
    and out: "bs = p \<and> fs = rs_fail s \<or> length bs \<le> length p \<and> fs = (sent_no s - 1) # rs_fail s"
  shows "ring_inv d s'"
proof -
  have ok: "sender_ok d s (S_Placed p h)" and new: "newest s p h" using inv S by (auto simp: ring_inv_def)
  obtain j where j: "sent_no s = Suc j" "h = int (j mod 64)" "tail_no s \<le> j" "p = rs_sent s ! j"
    "pd_status (pd_at s j) = PACKET_FREEZING" "pd_length (pd_at s j) = int (length p)"
    using newest_index [OF new] .
  have off: "pd_offset (a_desc (rs_area s) ! nat h) = slot_off d (j mod 64)" using ok j by simp
  show ?thesis
  proof (rule mem_step [OF d inv _ s' [unfolded off]])
    show "length bs \<le> 2048" using out inv j(1,4) by (auto simp: ring_inv_def intro: order_trans)
    show "set (rs_fail s) \<subseteq> set fs" using out by auto
    show "\<forall>k \<in> set fs. k < sent_no s" using out inv j(1) by (auto simp: ring_inv_def)
    show "in_progress (S_Sent p h) = in_progress (rs_snd s)" by (simp add: S)
    have "clean fs j \<longrightarrow> bs = p" using out j(1) by (auto simp: clean_def)
    then show "sender_ok d s' (S_Sent p h)"
      using ok j new by (auto simp: newest_def s' off tail_no_def)
  next
    fix m assume m: "tail_no s \<le> Suc m" "m < sent_no s" "m mod 64 = j mod 64" "settled d s m"
    then have "m = j" using mod_64_neq [of m j] j(1) inv by (cases "m < j") (auto simp: ring_inv_def)
    then show "\<not> clean fs m" using m(4) j(5) by (simp add: settled_def)
  qed
qed

lemma step_Send:
  assumes "d = 0 \<or> d = 1" and "ring_inv d s" and "ring_act d Send s = Some s'"
  shows "ring_inv d s'"
proof -
  obtain p h where "rs_snd s = S_Placed p h" using assms(3) by (auto split: sender.splits)
  from sent_step [OF assms(1,2) this, where bs = p and fs = "rs_fail s" and s' = s'] show ?thesis
    using assms(3) \<open>rs_snd s = S_Placed p h\<close> by simp
qed

lemma step_Send_failed:
  assumes "d = 0 \<or> d = 1" and "ring_inv d s" and "ring_act d (Send_failed bs) s = Some s'"
  shows "ring_inv d s'"
proof -
  obtain p h where "rs_snd s = S_Placed p h" using assms(3) by (auto split: sender.splits)
  from sent_step [OF assms(1,2) this, where bs = bs and fs = "(sent_no s - 1) # rs_fail s" and s' = s'] show ?thesis
    using assms(3) \<open>rs_snd s = S_Placed p h\<close> by (auto split: if_splits)
qed

lemma step_Stray:
  assumes d: "d = 0 \<or> d = 1" and inv: "ring_inv d s" and act: "ring_act d (Stray k bs) s = Some s'"
  shows "ring_inv d s'"
proof -
  have k: "k \<in> set (rs_fail s)" "k < sent_no s" "length bs \<le> length (rs_sent s ! k)"
    using act inv by (auto simp: stray_act_def ring_inv_def split: if_splits)
  have bs: "length bs \<le> 2048" using k(2,3) inv by (auto simp: ring_inv_def intro: order_trans)
  have s': "s' = s\<lparr>rs_mem := mem_write (slot_off d (k mod 64)) bs (rs_mem s), rs_fail := rs_fail s, rs_snd := rs_snd s\<rparr>"
    using act by (auto simp: stray_act_def split: if_splits)
  have own: "\<not> clean (rs_fail s) m" if "tail_no s \<le> Suc m" "m < sent_no s" "m mod 64 = k mod 64" for m
  proof -
    have "k \<le> m" using that k(2) inv mod_64_neq [of m k] by (cases "m < k") (auto simp: ring_inv_def)
    then show ?thesis using k(1) that(3) by (auto simp: clean_def)
  qed
  have "sender_ok d s' (rs_snd s)"
  proof (cases "rs_snd s")
    case (S_Sent p h)
    then have new: "newest s p h" and ok: "sender_ok d s (S_Sent p h)" using inv by (auto simp: ring_inv_def)
    obtain j where j: "sent_no s = Suc j" "tail_no s \<le> j" "p = rs_sent s ! j"
      using newest_index [OF new] by metis
    have "length p \<le> 2048" using inv j by (auto simp: ring_inv_def)
    then have "clean (rs_fail s) j \<longrightarrow> mem_read (slot_off d (j mod 64)) (int (length p)) (rs_mem s') = p"
      using ok j own [of j] write_other [OF d bs, of "length p" j k]
      by (cases "j mod 64 = k mod 64") (simp_all add: s')
    then show ?thesis using S_Sent ok j by (simp add: newest_def tail_no_def) (simp add: s')
  qed (use inv in \<open>simp_all add: ring_inv_def chosen_def newest_def tail_no_def s'\<close>)
  then show ?thesis using own k inv by (intro mem_step [OF d inv bs s']) (auto simp: ring_inv_def)
qed

subsection \<open>Steps of the receiver\<close>

text \<open>A step that changes only the receiver's place keeps everything it does not name.\<close>

lemma receiver_move:
  assumes inv: "ring_inv d s" and s': "s' = s\<lparr>rs_rcv := R\<rparr>" and tn: "tail_no s' = tail_no s"
    and R: "receiver_ok d s' R"
  shows "ring_inv d s'"
proof -
  have "settled d s' k = settled d s k" for k by (simp add: settled_def s')
  moreover have "sender_ok d s' S = sender_ok d s S" for S
    by (cases S) (simp_all add: chosen_def newest_def tn, simp_all add: s')
  ultimately show ?thesis using inv R tn unfolding ring_inv_def tn by (simp add: s')
qed

lemma step_Look: "ring_inv d s \<Longrightarrow> ring_act d Look s = Some s' \<Longrightarrow> ring_inv d s'"
proof -
  assume inv: "ring_inv d s" and act: "ring_act d Look s = Some s'"
  have idle: "rs_rcv s = R_Idle" and ne: "sent_no s \<noteq> tail_no s"
    and s': "s' = s\<lparr>rs_rcv := R_Looking (int (tail_no s mod 64))\<rparr>"
    using inv act by (auto simp: ring_inv_def split: if_splits)
  have "tail_no s' = tail_no s" by (simp add: s' tail_no_def idle)
  then show ?thesis using inv ne by (intro receiver_move [OF inv s']) (simp_all add: s' ring_inv_def)
qed

lemma slot_status:
  assumes inv: "ring_inv d s" and "tail_no s < sent_no s"
  shows "pd_status (pd_at s (tail_no s)) = PACKET_FREEZING \<or>
         pd_status (pd_at s (tail_no s)) = PACKET_SETTLED \<and> settled d s (tail_no s)"
proof (cases "Suc (tail_no s) = sent_no s \<and> in_progress (rs_snd s)")
  case True
  then obtain p h where "newest s p h" using in_progress_newest [OF inv] by blast
  then show ?thesis using True by (metis newest_index nat.inject)
next
  case False
  then have "settled d s (tail_no s)" using inv assms(2) by (auto simp: ring_inv_def)
  then show ?thesis by (simp add: settled_def)
qed

lemma step_Await: "ring_inv d s \<Longrightarrow> ring_act d Await s = Some s' \<Longrightarrow> ring_inv d s'"
proof -
  assume inv: "ring_inv d s" and act: "ring_act d Await s = Some s'"
  then obtain t where R: "rs_rcv s = R_Looking t" by (auto split: receiver.splits)
  then have t: "t = int (tail_no s mod 64)" "tail_no s < sent_no s"
    using inv by (simp_all add: ring_inv_def)
  from slot_status [OF inv t(2)] show ?thesis
  proof
    assume "pd_status (pd_at s (tail_no s)) = PACKET_FREEZING"
    then show ?thesis using inv act R t by simp
  next
    assume st: "pd_status (pd_at s (tail_no s)) = PACKET_SETTLED \<and> settled d s (tail_no s)"
    then have s': "s' = s\<lparr>rs_rcv := R_Ready t\<rparr>" using act R t by simp
    have "tail_no s' = tail_no s" by (simp add: s' tail_no_def R)
    then show ?thesis using st t
      by (intro receiver_move [OF inv s']) (simp_all add: s' settled_def)
  qed
qed

lemma step_Advance: "ring_inv d s \<Longrightarrow> ring_act d Advance s = Some s' \<Longrightarrow> ring_inv d s'"
proof -
  assume inv: "ring_inv d s" and act: "ring_act d Advance s = Some s'"
  let ?c = "tail_no s"
  obtain t where R: "rs_rcv s = R_Ready t" using act by (auto split: receiver.splits)
  then have t: "t = int (?c mod 64)" "?c < sent_no s" "settled d s ?c"
    using inv by (simp_all add: ring_inv_def)
  have s': "s' = s\<lparr>rs_area := (rs_area s)\<lparr>a_info := (a_info (rs_area s))\<lparr>pi_tail := int (Suc ?c mod 64)\<rparr>\<rparr>,
      rs_rcv := R_Holding t\<rparr>" using act R t(1) by simp
  have tn: "tail_no s' = Suc ?c" by (simp add: s' tail_no_def R)
  have keep: "settled d s' k = settled d s k" for k by (simp add: settled_def s')
  have "sender_ok d s' (rs_snd s)"
  proof (cases "in_progress (rs_snd s)")
    case True
    then obtain p h where new: "newest s p h" using in_progress_newest [OF inv] by blast
    then have "sent_no s \<noteq> Suc ?c" using t(3) by (auto simp: newest_def settled_def)
    then show ?thesis using True inv t(2)
      by (cases "rs_snd s") (simp_all add: ring_inv_def newest_def tn, simp_all add: s')
  next
    case False
    then show ?thesis using inv
      by (cases "rs_snd s") (simp_all add: ring_inv_def chosen_def tn, simp_all add: s')
  qed
  moreover have "receiver_ok d s' (R_Holding t)" using t by (simp add: tn keep)
  moreover have f: "a_desc (rs_area s') = a_desc (rs_area s)" "rs_sent s' = rs_sent s" "rs_got s' = rs_got s"
    "rs_fail s' = rs_fail s" "rs_snd s' = rs_snd s" "rs_rcv s' = R_Holding t" "pi_tail (a_info (rs_area s')) = int (Suc ?c mod 64)"
    "pi_head (a_info (rs_area s')) = pi_head (a_info (rs_area s))" by (simp_all add: s')
  ultimately show ?thesis
    using inv t(2) unfolding ring_inv_def tn keep f by auto
qed

text \<open>However the frame the receiver holds ends, the next receipt is that of the next frame.\<close>

lemma consume_step:
  assumes inv: "ring_inv d s" and R: "rs_rcv s = R_Holding t" and R': "R' = R_Read t \<or> R' = R_Idle"
    and s': "s' = s\<lparr>rs_got := rs_got s @ [r], rs_rcv := R'\<rparr>"
    and r: "receipt_ok (rs_fail s) (rs_sent s) (length (rs_got s)) r"
  shows "ring_inv d s'"
proof -
  have c: "tail_no s = Suc (length (rs_got s))" by (simp add: tail_no_def R)
  have tn: "tail_no s' = tail_no s" using R' by (auto simp: s' tail_no_def R)
  have keep: "settled d s' k = settled d s k" for k by (simp add: settled_def s')
  have snd: "sender_ok d s' S = sender_ok d s S" for S
    by (cases S) (simp_all add: chosen_def newest_def tn, simp_all add: s')
  have rcv: "receiver_ok d s' R'" using R' inv R c by (auto simp: tn ring_inv_def)
  have got: "\<forall>k < length (rs_got s'). receipt_ok (rs_fail s) (rs_sent s) k (rs_got s' ! k)"
    using inv r by (auto simp: ring_inv_def s' nth_append less_Suc_eq)
  have f: "rs_area s' = rs_area s" "rs_sent s' = rs_sent s" "rs_fail s' = rs_fail s" "rs_snd s' = rs_snd s"
    "rs_rcv s' = R'" by (simp_all add: s')
  show ?thesis
    using inv snd rcv got unfolding ring_inv_def tn keep f by auto
qed

lemma held_frame:
  assumes "ring_inv d s" and "rs_rcv s = R_Holding t"
  shows "t = int (length (rs_got s) mod 64)" and "settled d s (length (rs_got s))"
  using assms by (simp_all add: ring_inv_def tail_no_def)

lemma step_Receive: "ring_inv d s \<Longrightarrow> ring_act d Receive s = Some s' \<Longrightarrow> ring_inv d s'"
proof -
  assume inv: "ring_inv d s" and act: "ring_act d Receive s = Some s'"
  obtain t where R: "rs_rcv s = R_Holding t" using act by (auto split: receiver.splits)
  note held = held_frame [OF inv R]
  show ?thesis
    by (rule consume_step [OF inv R, of "R_Read t"])
      (use act R held in \<open>auto simp: Let_def settled_def mem_read_def\<close>)
qed

lemma step_Receive_failed: "ring_inv d s \<Longrightarrow> ring_act d (Receive_failed bs) s = Some s' \<Longrightarrow> ring_inv d s'"
proof -
  assume inv: "ring_inv d s" and act: "ring_act d (Receive_failed bs) s = Some s'"
  obtain t where R: "rs_rcv s = R_Holding t" using act by (auto split: receiver.splits)
  note held = held_frame [OF inv R]
  show ?thesis
    by (rule consume_step [OF inv R, of "R_Read t"])
      (use act R held in \<open>auto simp: settled_def split: if_splits\<close>)
qed

lemma step_Drop: "ring_inv d s \<Longrightarrow> ring_act d Drop s = Some s' \<Longrightarrow> ring_inv d s'"
  by (auto split: receiver.splits intro: consume_step)

lemma step_Release: "ring_inv d s \<Longrightarrow> ring_act d Release s = Some s' \<Longrightarrow> ring_inv d s'"
proof -
  assume inv: "ring_inv d s" and act: "ring_act d Release s = Some s'"
  let ?n = "sent_no s" and ?c = "tail_no s"
  obtain t where R: "rs_rcv s = R_Read t" using act by (auto split: receiver.splits)
  then obtain j where c: "?c = Suc j" and t: "t = int (j mod 64)"
    using inv by (cases ?c) (auto simp: ring_inv_def)
  have len: "length (a_desc (rs_area s)) = 64" and bnd: "?n \<le> ?c + 63" "?c \<le> ?n"
    using inv by (simp_all add: ring_inv_def)
  let ?f = "\<lambda>x. x\<lparr>pd_status := PACKET_RELEASED\<rparr>"
  have s': "s' = s\<lparr>rs_area := set_pd (int (j mod 64)) ?f (rs_area s), rs_rcv := R_Idle\<rparr>"
    using act R t by simp
  have tn: "tail_no s' = ?c" by (simp add: s' tail_no_def R)
  have at: "pd_at s' k = pd_at s k" if "?c \<le> k" "k < j + 64" for k
    using that c len by (simp add: s' other_slot)
  have keep: "settled d s' k = settled d s k" if "?c \<le> k" "k < ?n" for k
    by (rule settled_cong) (use at [of k] that bnd c in \<open>simp_all add: s'\<close>)
  have snd: "sender_ok d s' (rs_snd s)"
  proof (cases "in_progress (rs_snd s)")
    case True
    then obtain p h where "newest s p h" using in_progress_newest [OF inv] by blast
    then have "?c \<le> ?n - 1" "?n - 1 < j + 64" using bnd c by (auto simp: newest_def)
    from at [OF this] show ?thesis using True inv
      by (cases "rs_snd s") (simp_all add: ring_inv_def newest_def tn, simp_all add: s')
  next
    case False
    then show ?thesis using inv at [of ?n] bnd(2) c
      by (cases "rs_snd s") (simp_all add: ring_inv_def chosen_def tn, simp_all add: s')
  qed
  have pos: "\<forall>i<64. pd_pos (a_desc (rs_area s') ! i) = int i"
    using inv by (auto simp: ring_inv_def s' set_pd_def nth_list_update)
  show ?thesis
    unfolding ring_inv_def tn
    using inv snd pos keep len by (auto simp: ring_inv_def s')
qed

subsection \<open>Reachable states\<close>

lemmas step_rules = step_Fetch step_Freeze step_Set_length step_Publish step_Place step_Send
  step_Send_failed step_Stray step_Settle step_Look step_Await step_Advance step_Receive
  step_Receive_failed step_Drop step_Release

lemma ring_act_inv:
  "d = 0 \<or> d = 1 \<Longrightarrow> ring_inv d s \<Longrightarrow> ring_act d a s = Some s' \<Longrightarrow> ring_inv d s'"
  by (cases a) (blast intro: step_rules)+

lemma number_descs_nth:
  "n \<le> length ds \<Longrightarrow> length (number_descs n ds) = length ds \<and>
     (\<forall>i<n. number_descs n ds ! i = (ds ! i)\<lparr>pd_pos := int i\<rparr>) \<and>
     (\<forall>i. n \<le> i \<longrightarrow> number_descs n ds ! i = ds ! i)"
  by (induction n) (auto simp: nth_list_update less_Suc_eq)

lemma fresh_area_fields:
  assumes "d = 0 \<or> d = 1"
  shows "length (a_desc (fresh_area d)) = 64" and "\<forall>i<64. pd_pos (a_desc (fresh_area d) ! i) = int i"
    and "pi_head (a_info (fresh_area d)) = 0" and "pi_tail (a_info (fresh_area d)) = 0"
    and "pi_ready (a_info (fresh_area d))"
  using assms number_descs_nth [of 64 "replicate 64 zero_packet_desc"]
  by (auto simp: fresh_area_def adapter_info_init_def upd_info_def Let_def)

lemma ring_start_inv: "d = 0 \<or> d = 1 \<Longrightarrow> ring_inv d (ring_start d mem)"
  using fresh_area_fields [of d] by (simp add: ring_inv_def ring_start_def tail_no_def)

lemma ring_reach_inv: "ring_reach d s \<Longrightarrow> d = 0 \<or> d = 1 \<Longrightarrow> ring_inv d s"
  by (induction rule: ring_reach.induct) (auto intro: ring_start_inv ring_act_inv)

subsection \<open>Properties\<close>

fun payload :: "receipt \<Rightarrow> u8 list" where
  "payload (Delivered bs ok) = bs"
| "payload Dropped = []"

text \<open>
  C1: The ring hands on frames first in, first out. However the accesses of the sending and
  the receiving host interleave, from the ring \<open>adapter_info_init\<close> leaves, and whichever DMA
  transfers or allocations fail, the k-th frame the receiver takes out is the k-th one the
  sender published: none is skipped, doubled or reordered, although the receiver advances the
  tail before it reads the frame. A frame is dropped only when the receiver has no memory for
  it; a frame that is delivered has the length of the frame sent, and is that frame byte for
  byte when its receive DMA succeeded and no send DMA into its slot failed, up to and with
  its own. So when nothing fails the frames read are a prefix of the frames published. At
  most 64 frames are under way and the indices stay inside the ring.
\<close>

theorem ring_fifo:
  assumes "d = 0 \<or> d = 1" and "ring_reach d s"
  shows "length (rs_got s) \<le> length (rs_sent s) \<and> length (rs_sent s) \<le> length (rs_got s) + 64 \<and>
    (\<forall>k < length (rs_got s). case rs_got s ! k of
        Delivered bs ok \<Rightarrow> length bs = length (rs_sent s ! k) \<and> (ok \<and> clean (rs_fail s) k \<longrightarrow> bs = rs_sent s ! k)
      | Dropped \<Rightarrow> True) \<and>
    (rs_fail s = [] \<and> (\<forall>r \<in> set (rs_got s). \<exists>bs. r = Delivered bs True) \<longrightarrow>
       prefix (map payload (rs_got s)) (rs_sent s)) \<and>
    in_ring (pi_head (a_info (rs_area s))) \<and> in_ring (pi_tail (a_info (rs_area s)))"
proof -
  have inv: "ring_inv d s" using ring_reach_inv assms by blast
  have ok: "receipt_ok (rs_fail s) (rs_sent s) k (rs_got s ! k)" if "k < length (rs_got s)" for k
    using inv that by (simp add: ring_inv_def)
  have len: "length (rs_got s) \<le> length (rs_sent s)" "length (rs_sent s) \<le> length (rs_got s) + 64"
    using inv by (simp_all add: ring_inv_def tail_no_def split: receiver.splits)
  have pre: "prefix (map payload (rs_got s)) (rs_sent s)"
    if "rs_fail s = []" "\<forall>r \<in> set (rs_got s). \<exists>bs. r = Delivered bs True"
  proof -
    have "payload (rs_got s ! k) = rs_sent s ! k" if k: "k < length (rs_got s)" for k
    proof -
      obtain bs where "rs_got s ! k = Delivered bs True" using k \<open>\<forall>r \<in> _. _\<close> nth_mem by blast
      then show ?thesis using ok [OF k] \<open>rs_fail s = []\<close> by (simp add: clean_def)
    qed
    then have "map payload (rs_got s) = take (length (rs_got s)) (rs_sent s)"
      using len(1) by (intro nth_equalityI) simp_all
    then show ?thesis by (simp add: take_is_prefix)
  qed
  have "case rs_got s ! k of
      Delivered bs ok \<Rightarrow> length bs = length (rs_sent s ! k) \<and> (ok \<and> clean (rs_fail s) k \<longrightarrow> bs = rs_sent s ! k)
    | Dropped \<Rightarrow> True" if "k < length (rs_got s)" for k
    using ok [OF that] by (cases "rs_got s ! k") simp_all
  then show ?thesis using inv len pre by (simp add: ring_inv_def in_ring_def)
qed

text \<open>
  The receiver's busy wait on a frozen descriptor ends only when the sender is done with the
  frame. In every reachable state in which the receiver looks at the tail descriptor that
  descriptor is frozen or settled, never initial or released, and when it is settled it has
  the length of the next frame in order and, if that frame is clean, its bytes.
\<close>

lemma ring_wait_sound:
  assumes "d = 0 \<or> d = 1" and "ring_reach d s" and "rs_rcv s = R_Looking t"
  shows "let x = a_desc (rs_area s) ! nat t; k = length (rs_got s) in
    pd_status x = PACKET_FREEZING \<or>
    pd_status x = PACKET_SETTLED \<and> pd_length x = int (length (rs_sent s ! k)) \<and>
      (clean (rs_fail s) k \<longrightarrow> mem_read (pd_offset x) (pd_length x) (rs_mem s) = rs_sent s ! k)"
proof -
  have inv: "ring_inv d s" using ring_reach_inv assms by blast
  have c: "tail_no s = length (rs_got s)" by (simp add: tail_no_def assms(3))
  have t: "t = int (tail_no s mod 64)" "tail_no s < sent_no s"
    using inv assms(3) by (simp_all add: ring_inv_def)
  show ?thesis
    using slot_status [OF inv t(2)] unfolding c by (auto simp: Let_def t(1) c settled_def)
qed

fun ring_run :: "int \<Rightarrow> act list \<Rightarrow> ring_sys \<Rightarrow> ring_sys option" where
  "ring_run d [] s = Some s"
| "ring_run d (a # as) s = (case ring_act d a s of None \<Rightarrow> None | Some s' \<Rightarrow> ring_run d as s')"

lemma ring_run_append:
  "ring_run d (as @ bs) s = (case ring_run d as s of None \<Rightarrow> None | Some s' \<Rightarrow> ring_run d bs s')"
  by (induction as arbitrary: s) (auto split: option.splits)

lemma ring_run_reach: "ring_reach d s \<Longrightarrow> ring_run d as s = Some s' \<Longrightarrow> ring_reach d s'"
  by (induction as arbitrary: s) (auto split: option.splits intro: ring_reach.step)

text \<open>The receiver's steps when its allocations and its DMA succeed.\<close>

definition polls :: "act list \<Rightarrow> bool" where
  "polls as \<longleftrightarrow> set as \<subseteq> {Look, Await, Advance, Receive, Release}"

fun rest_of :: "receiver \<Rightarrow> act list" where
  "rest_of R_Idle = [Look, Await, Advance, Receive, Release]"
| "rest_of (R_Looking t) = [Await, Advance, Receive, Release]"
| "rest_of (R_Ready t) = [Advance, Receive, Release]"
| "rest_of (R_Holding t) = [Receive, Release]"
| "rest_of (R_Read t) = [Release]"

lemma rest_of_polls [simp]: "polls (rest_of R)"
  by (cases R) (simp_all add: polls_def)

lemma polls_append [simp]: "polls (as @ bs) \<longleftrightarrow> polls as \<and> polls bs"
  by (auto simp: polls_def)

text \<open>\<open>read_on s s'\<close>: from \<open>s\<close> the receiver has read on to \<open>s'\<close> without a failure.\<close>

definition read_on :: "ring_sys \<Rightarrow> ring_sys \<Rightarrow> bool" where
  "read_on s s' \<longleftrightarrow> rs_snd s' = rs_snd s \<and> rs_sent s' = rs_sent s \<and> rs_fail s' = rs_fail s \<and>
     (\<exists>bss. rs_got s' = rs_got s @ map (\<lambda>bs. Delivered bs True) bss)"

lemma read_on_refl [simp]: "read_on s s"
  by (simp add: read_on_def exI [of _ "[]"])

lemma read_on_trans: "read_on s s' \<Longrightarrow> read_on s' s'' \<Longrightarrow> read_on s s''"
  by (auto simp: read_on_def) (metis map_append)

lemma read_on_step:
  "ring_act d a s = Some s' \<Longrightarrow> a \<in> {Look, Await, Advance, Receive, Release} \<Longrightarrow> read_on s s'"
  by (auto simp: read_on_def Let_def split: if_splits receiver.splits packet_desc_status.splits
      simp: map_eq_Cons_conv Cons_eq_map_conv)

lemma read_on_run: "ring_run d as s = Some s' \<Longrightarrow> polls as \<Longrightarrow> read_on s s'"
  by (induction as arbitrary: s) (auto simp: polls_def split: option.splits intro: read_on_trans read_on_step)

lemma finish_frame:
  assumes inv: "ring_inv d s" and idle: "rs_snd s = S_Idle"
    and more: "rs_rcv s = R_Idle \<Longrightarrow> length (rs_got s) < sent_no s"
  obtains s' where "ring_run d (rest_of (rs_rcv s)) s = Some s'" and "rs_rcv s' = R_Idle"
    and "length (rs_got s') = length (rs_got s) + (case rs_rcv s of R_Read t \<Rightarrow> 0 | _ \<Rightarrow> 1)"
proof -
  have st: "settled d s k" if "tail_no s \<le> k" "k < sent_no s" for k
    using inv that idle by (simp add: ring_inv_def)
  have ne: "int (sent_no s mod 64) \<noteq> int (tail_no s mod 64)" if "tail_no s < sent_no s"
    using that inv mod_64_neq [of "tail_no s" "sent_no s"] by (auto simp: ring_inv_def)
  show ?thesis
  proof (cases "rs_rcv s")
    case R_Idle
    then have c: "tail_no s = length (rs_got s)" by (simp add: tail_no_def)
    then show ?thesis using that R_Idle more st [of "tail_no s"] ne inv idle
      by (simp add: ring_inv_def settled_def Let_def)
  next
    case (R_Looking t)
    then show ?thesis using that st [of "tail_no s"] inv idle
      by (simp add: ring_inv_def settled_def Let_def)
  qed (use that inv idle in \<open>simp_all add: ring_inv_def Let_def\<close>)
qed

lemma drain_idle:
  "ring_reach d s \<Longrightarrow> d = 0 \<or> d = 1 \<Longrightarrow> rs_snd s = S_Idle \<Longrightarrow> rs_rcv s = R_Idle \<Longrightarrow>
   n = sent_no s - length (rs_got s) \<Longrightarrow>
   \<exists>as s'. polls as \<and> ring_run d as s = Some s' \<and> length (rs_got s') = sent_no s"
proof (induction n arbitrary: s)
  case 0
  then have "length (rs_got s) = sent_no s"
    using ring_reach_inv [OF 0(1,2)] by (simp add: ring_inv_def tail_no_def)
  then show ?case by (intro exI [of _ "[]"]) (simp add: polls_def)
next
  case (Suc n)
  have inv: "ring_inv d s" using ring_reach_inv [OF Suc.prems(1,2)] .
  obtain s1 where s1: "ring_run d (rest_of (rs_rcv s)) s = Some s1" "rs_rcv s1 = R_Idle"
      "length (rs_got s1) = length (rs_got s) + 1"
    by (rule finish_frame [OF inv Suc.prems(3)]) (use Suc.prems(4,5) in auto)
  then have on: "read_on s s1" using read_on_run by simp
  then have "\<exists>as s'. polls as \<and> ring_run d as s1 = Some s' \<and> length (rs_got s') = sent_no s1"
    using Suc.prems s1 ring_run_reach [OF Suc.prems(1) s1(1)] by (intro Suc.IH) (simp_all add: read_on_def)
  then obtain as s' where "polls as" "ring_run d as s1 = Some s'" "length (rs_got s') = sent_no s1" by blast
  then show ?case using s1 on
    by (intro exI [of _ "rest_of (rs_rcv s) @ as"] exI [of _ s']) (simp add: ring_run_append read_on_def)
qed

lemma drain:
  assumes "d = 0 \<or> d = 1" and "ring_reach d s" and "rs_snd s = S_Idle"
  obtains as s' where "polls as" "ring_run d as s = Some s'" "length (rs_got s') = sent_no s"
proof (cases "rs_rcv s = R_Idle")
  case True
  then show ?thesis using that drain_idle assms by blast
next
  case False
  have inv: "ring_inv d s" using ring_reach_inv assms by blast
  obtain s1 where s1: "ring_run d (rest_of (rs_rcv s)) s = Some s1" "rs_rcv s1 = R_Idle"
    using finish_frame [OF inv assms(3)] False by blast
  then have on: "read_on s s1" using read_on_run by simp
  then have "rs_snd s1 = S_Idle" using assms(3) by (simp add: read_on_def)
  from drain_idle [OF ring_run_reach [OF assms(2) s1(1)] assms(1) this s1(2) refl]
  obtain as s' where "polls as" "ring_run d as s1 = Some s'" "length (rs_got s') = sent_no s1" by blast
  then show ?thesis using s1 on
    by (intro that [of "rest_of (rs_rcv s) @ as" s']) (simp_all add: ring_run_append read_on_def)
qed

text \<open>
  C5: Nothing the sender has finished stays behind. From every reachable state in which the
  sender is between two frames, steps of the receiver alone, with its allocations and its DMA
  successful, lead to a state in which it has taken out every published frame: no deadlock,
  and no descriptor left unread. Every frame it takes out on the way is delivered, and every
  clean one among them (no send DMA into its slot failed so far) is delivered byte for byte.
\<close>

theorem ring_drains:
  assumes "d = 0 \<or> d = 1" and "ring_reach d s" and "rs_snd s = S_Idle"
  shows "\<exists>as s'. set as \<subseteq> {Look, Await, Advance, Receive, Release} \<and> ring_run d as s = Some s' \<and>
    rs_sent s' = rs_sent s \<and> length (rs_got s') = length (rs_sent s) \<and> prefix (rs_got s) (rs_got s') \<and>
    (\<forall>k. length (rs_got s) \<le> k \<and> k < length (rs_sent s) \<longrightarrow>
       (\<exists>bs. rs_got s' ! k = Delivered bs True \<and> (clean (rs_fail s) k \<longrightarrow> bs = rs_sent s ! k)))"
proof -
  obtain as s' where run: "polls as" "ring_run d as s = Some s'" and all: "length (rs_got s') = sent_no s"
    by (rule drain [OF assms])
  then have on: "read_on s s'" by (intro read_on_run)
  then obtain bss where bss: "rs_got s' = rs_got s @ map (\<lambda>bs. Delivered bs True) bss"
      and same: "rs_sent s' = rs_sent s" "rs_fail s' = rs_fail s" by (auto simp: read_on_def)
  have inv: "ring_inv d s'" using ring_reach_inv ring_run_reach [OF assms(2) run(2)] assms(1) by blast
  have "\<exists>bs. rs_got s' ! k = Delivered bs True \<and> (clean (rs_fail s) k \<longrightarrow> bs = rs_sent s ! k)"
    if k: "length (rs_got s) \<le> k" "k < sent_no s" for k
  proof -
    have at: "rs_got s' ! k = Delivered (bss ! (k - length (rs_got s))) True"
      using k all by (simp add: bss nth_append)
    moreover have "receipt_ok (rs_fail s) (rs_sent s) k (rs_got s' ! k)"
      using inv k all same by (simp add: ring_inv_def)
    ultimately show ?thesis by auto
  qed
  then show ?thesis using run all same bss
    by (intro exI [of _ as] exI [of _ s']) (simp add: polls_def)
qed

subsection \<open>Examples\<close>

definition send_frame :: "u8 list \<Rightarrow> act list" where
  "send_frame p = [Fetch p, Freeze, Set_length, Publish, Place, Send, Settle]"

lemma first_frame:
  assumes "d = 0 \<or> d = 1" and "length p \<le> 2048"
  obtains s where "ring_run d (send_frame p) (ring_start d mem) = Some s" and "rs_sent s = [p]"
    and "rs_snd s = S_Idle" and "rs_rcv s = R_Idle" and "rs_got s = []" and "rs_fail s = []"
    and "ring_reach d s"
proof -
  have "\<exists>s. ring_run d (send_frame p) (ring_start d mem) = Some s \<and> rs_sent s = [p] \<and>
      rs_snd s = S_Idle \<and> rs_rcv s = R_Idle \<and> rs_got s = [] \<and> rs_fail s = []"
    using fresh_area_fields [OF assms(1)] assms(2)
    by (simp add: send_frame_def ring_start_def and_63)
  then show ?thesis using that ring_run_reach [OF ring_reach.start] by blast
qed

theorem ring_fifo_witness:
  "\<exists>s. ring_reach 1 s \<and> rs_sent s = [[7, 9]] \<and> rs_got s = [Delivered [7, 9] True]"
proof -
  obtain s where s: "rs_sent s = [[7, 9]]" "ring_reach 1 s" "rs_snd s = S_Idle" "rs_got s = []" "rs_fail s = []"
    by (rule first_frame [of 1 "[7, 9]" "\<lambda>_. 0"]) simp_all
  obtain as s' where run: "polls as" "ring_run 1 as s = Some s'" and all: "length (rs_got s') = 1"
    by (rule drain [of 1 s]) (use s in simp_all)
  have reach: "ring_reach 1 s'" using ring_run_reach [OF s(2) run(2)] .
  have on: "read_on s s'" using read_on_run run by blast
  then obtain bs where got: "rs_got s' = [Delivered bs True]"
    using all s by (auto simp: read_on_def length_Suc_conv)
  then have "bs = [7, 9]" using ring_fifo [OF _ reach] on s by (simp add: read_on_def clean_def)
  then show ?thesis using reach got on s by (auto simp: read_on_def)
qed

theorem ring_drains_witness:
  "\<exists>as s'. ring_run 1 (send_frame [7, 9] @ as) (ring_start 1 (\<lambda>_. 0)) = Some s' \<and>
     rs_got s' = [Delivered [7, 9] True]"
proof -
  obtain s where s: "ring_run 1 (send_frame [7, 9]) (ring_start 1 (\<lambda>_. 0)) = Some s" "rs_sent s = [[7, 9]]"
      "ring_reach 1 s" "rs_snd s = S_Idle" "rs_got s = []" "rs_fail s = []"
    by (rule first_frame [of 1 "[7, 9]" "\<lambda>_. 0"]) simp_all
  obtain as s' where "ring_run 1 as s = Some s'" "length (rs_got s') = 1" "rs_got s' ! 0 = Delivered [7, 9] True"
    using ring_drains [of 1 s] s by (auto simp: clean_def)
  then show ?thesis using s(1)
    by (intro exI [of _ as] exI [of _ s']) (auto simp: ring_run_append length_Suc_conv)
qed

end
