(* ===== verification/Nupa_Net.thy ===== *)
theory Nupa_Net
  imports Xdma_Submit Nupa_Ring_Inv
begin

text \<open>
  The network driver of src/src/nupanet_main.c above the ring and the DMA engine: host
  numbers and MAC addresses, moving one frame by DMA, transmitting and polling.

  Frames are byte lists; only linear buffers occur. The kernel's allocators, the address
  it gives a buffer and what the hardware leaves in a buffer after a C2H transfer are
  parameters. A call that does not return is \<open>None\<close>, with the reason where the ring
  operations give one.
\<close>

subsection \<open>Parameters and state\<close>

record nenv = xenv +
  kmalloc :: "int \<Rightarrow> u64 option"
  napi_alloc_skb :: "int \<Rightarrow> bool"
  kzalloc_sgt :: bool
  sg_alloc_table :: "u32 \<Rightarrow> bool"
  host_mem :: "drv \<Rightarrow> u64 \<Rightarrow> int \<Rightarrow> u8 list"
  new_sgt :: nat
  new_tfer :: xid
  stack_junk :: int

record nupanet_adapter =
  ad_magic :: u64
  ad_pdev :: nat
  ad_xdev :: "nat option"
  ad_user_max :: int
  ad_c2h_channel_max :: int
  ad_h2c_channel_max :: int
  ad_host_id :: int
  ad_hold_ic_ctl :: bool

record net =
  n_drv :: drv
  n_shm :: shm
  n_adapter :: nupanet_adapter
  n_delivered :: "u8 list list"
  n_freed :: nat

subsection \<open>Host numbers and MAC addresses\<close>

definition device_id_to_host_id :: "int \<Rightarrow> int" where
  "device_id_to_host_id dev_id = drop_bit 8 dev_id AND 0xF"

text \<open>\<open>char\<close> is signed.\<close>

definition mac_addr_to_host_id :: "u8 list \<Rightarrow> int" where
  "mac_addr_to_host_id mac_addr = sint (mac_addr ! 5)"

definition NUPANET_DEFAULT_BASE_MAC_ADDR :: "u8 list" where
  "NUPANET_DEFAULT_BASE_MAC_ADDR = [0xFC, 0xAF, 0xAC, 0, 0, 0]"

definition nupanet_set_mac :: "int \<Rightarrow> u8 list" where
  "nupanet_set_mac dev_id = NUPANET_DEFAULT_BASE_MAC_ADDR[5 := of_int (device_id_to_host_id dev_id)]"

definition is_multicast_ether_addr :: "u8 list \<Rightarrow> bool" where
  "is_multicast_ether_addr a \<longleftrightarrow> a ! 0 AND 1 \<noteq> 0"

definition is_broadcast_ether_addr :: "u8 list \<Rightarrow> bool" where
  "is_broadcast_ether_addr a \<longleftrightarrow> (\<forall>i<6. a ! i = 0xFF)"

definition mac_addr_valid :: "u8 list \<Rightarrow> bool" where "mac_addr_valid a = True"

subsection \<open>Moving one frame\<close>

text \<open>
  The scatter list \<open>xdma_transfer_data\<close> builds: one entry per page the buffer touches.
  Before the table is mapped an entry holds the buffer's address.
\<close>

definition pages_nr :: "u64 \<Rightarrow> u32 \<Rightarrow> u32" where
  "pages_nr buf len = ucast (drop_bit 12 ((buf + ucast len + 4096 - 1) - (buf AND NOT 0xFFF)))"

primrec page_loop :: "nat \<Rightarrow> u64 \<Rightarrow> u32 \<Rightarrow> scatterlist list" where
  "page_loop 0 buf len = []"
| "page_loop (Suc n) buf len =
     (let offset = (ucast (buf AND 0xFFF) :: u32);
          nbytes = min (4096 - offset) len
      in \<lparr>sg_dma_address = buf, sg_dma_len = nbytes\<rparr> # page_loop n (buf + ucast nbytes) (len - nbytes))"

text \<open>
  The result of the \<open>kzalloc\<close> of the \<open>sg_table\<close> is not tested: \<open>sg_alloc_table\<close> writes through a
  null pointer when there was no memory.
\<close>

definition xdma_transfer_data ::
  "'k nenv_scheme \<Rightarrow> eng_id \<Rightarrow> int \<Rightarrow> int \<Rightarrow> u64 \<Rightarrow> bool \<Rightarrow> drv \<Rightarrow> (int \<times> drv) option" where
  "xdma_transfer_data K e offset len buf is_write s =
     (if len < 0 \<or> 4096 < len then Some (- EINVAL, s)
      else let n = pages_nr buf (of_int len)
      in if n = 0 then Some (- EINVAL, s)
      else if \<not> kzalloc_sgt K then None
      else if \<not> sg_alloc_table K n then Some (- ENOMEM, s)
      else let s = upd_sgt (new_sgt K) (\<lambda>_. \<lparr>sgl = page_loop (unat n) buf (of_int len),
                                              nents = unat n, orig_nents = unat n\<rparr>) s
      in xdma_xfer_submit K (e_xdev (engs s e)) (e_channel (engs s e)) is_write (of_int offset)
           (new_sgt K) False (new_tfer K) s)"

definition xdma_receive_data ::
  "'k nenv_scheme \<Rightarrow> nat \<Rightarrow> packet_desc \<Rightarrow> drv \<Rightarrow> (u8 list option \<times> drv) option" where
  "xdma_receive_data K d desc s =
     (let skb = napi_alloc_skb K (pd_length desc)
      in case kmalloc K (pd_length desc) of
           None \<Rightarrow> Some (None, s)
         | Some buf \<Rightarrow>
             (case xdma_transfer_data K (d, C2H, 0) (pd_offset desc) (pd_length desc) buf False s of
                None \<Rightarrow> None
              | Some (res, s) \<Rightarrow> if skb then Some (Some (host_mem K s buf (pd_length desc)), s) else None))"

definition xdma_send_data ::
  "'k nenv_scheme \<Rightarrow> nat \<Rightarrow> u8 list \<Rightarrow> packet_desc \<Rightarrow> drv \<Rightarrow> (int \<times> drv) option" where
  "xdma_send_data K d frame desc s =
     (case kmalloc K (pd_length desc) of
        None \<Rightarrow> None
      | Some buf \<Rightarrow>
          xdma_transfer_data K (d, H2C, 0) (pd_offset desc) (pd_length desc) buf True
            (tell (Mem_write buf (take (nat (pd_length desc)) frame)) s))"

subsection \<open>Transmit\<close>

text \<open>The loop that picks the other host for a broadcast.\<close>

definition broadcast_dst :: "int \<Rightarrow> int option" where
  "broadcast_dst host_id = find (\<lambda>i. i \<noteq> host_id) [0..MAX_AGENT_NUM - 1]"

definition xmit_dst :: "nupanet_adapter \<Rightarrow> u8 list \<Rightarrow> int" where
  "xmit_dst a frame =
     (if is_broadcast_ether_addr frame \<or> is_multicast_ether_addr frame
      then (case broadcast_dst (ad_host_id a) of Some i \<Rightarrow> i | None \<Rightarrow> 0)
      else mac_addr_to_host_id frame)"

definition nupanet_xmit_frame :: "'k nenv_scheme \<Rightarrow> u8 list \<Rightarrow> net \<Rightarrow> net outcome" where
  "nupanet_xmit_frame K frame N =
     (let a = n_adapter N
      in if ad_hold_ic_ctl a then Returns N
      else let dst_id = xmit_dst a frame
      in if \<not> mac_addr_valid (drop 6 frame) \<or> \<not> mac_addr_valid frame then Returns N
      else let free = (\<lambda>N. N\<lparr>n_freed := Suc (n_freed N)\<rparr>)
      in if DESC_MAX_DMA_SIZE < int (length frame) then Returns (free N)
      else case fetch_packet_desc (stack_junk K) dst_id (int (length frame)) (n_shm N) of
             Returns (None, m) \<Rightarrow> Returns (free (N\<lparr>n_shm := m\<rparr>))
           | Returns (Some i, m) \<Rightarrow>
               (case xdma_send_data K (the (ad_xdev a)) frame (a_desc (m dst_id) ! nat i) (n_drv N) of
                  None \<Rightarrow> Bug_on
                | Some (res, s) \<Rightarrow>
                    Returns (free (N\<lparr>n_drv := s,
                      n_shm := upd_pdesc dst_id i (\<lambda>p. p\<lparr>pd_status := PACKET_SETTLED\<rparr>) m\<rparr>)))
           | Bug_on \<Rightarrow> Bug_on | Out_of_range \<Rightarrow> Out_of_range | Spins \<Rightarrow> Spins)"

subsection \<open>Poll\<close>

function poll_loop :: "'k nenv_scheme \<Rightarrow> int \<Rightarrow> int \<Rightarrow> net \<Rightarrow> (int \<times> net) outcome" where
  "poll_loop K budget work_done N =
     (let h = ad_host_id (n_adapter N); d = the (ad_xdev (n_adapter N))
      in case nupa_data_available h (n_shm N) of
           Returns (None, m) \<Rightarrow> Returns (work_done, N)
         | Returns (Some i, m) \<Rightarrow>
             (case xdma_receive_data K d (a_desc (m h) ! nat i) (n_drv N) of
                None \<Rightarrow> Bug_on
              | Some (None, s) \<Rightarrow> Returns (work_done, N\<lparr>n_shm := m, n_drv := s\<rparr>)
              | Some (Some skb, s) \<Rightarrow>
                  let N = N\<lparr>n_drv := s, n_shm := upd_pdesc h i (\<lambda>p. p\<lparr>pd_status := PACKET_RELEASED\<rparr>) m,
                            n_delivered := n_delivered N @ [skb]\<rparr>
                  in if budget < work_done + 1 then Returns (work_done + 1, N)
                     else poll_loop K budget (work_done + 1) N)
         | Bug_on \<Rightarrow> Bug_on | Out_of_range \<Rightarrow> Out_of_range | Spins \<Rightarrow> Spins)"
  by pat_completeness auto
termination
  by (relation "measure (\<lambda>(K, budget, work_done, N). nat (budget - work_done))") auto

declare poll_loop.simps [simp del]

text \<open>The result: the return value and whether the poll was reported complete.\<close>

definition nupanet_poll :: "'k nenv_scheme \<Rightarrow> int \<Rightarrow> net \<Rightarrow> (int \<times> bool \<times> net) outcome" where
  "nupanet_poll K budget N =
     (if ad_hold_ic_ctl (n_adapter N) then Returns (0, False, N)
      else case poll_loop K budget 0 N of
             Returns (work_done, N) \<Rightarrow>
               if work_done = budget then Returns (budget, False, N) else Returns (work_done, True, N)
           | Bug_on \<Rightarrow> Bug_on | Out_of_range \<Rightarrow> Out_of_range | Spins \<Rightarrow> Spins)"

subsection \<open>The ring operations are runs of the interleaving model\<close>

text \<open>Areas are compared without the counter \<open>total_len\<close>, which the interleaving model leaves out.\<close>

definition strip :: "area \<Rightarrow> area" where
  "strip a = a\<lparr>a_info := (a_info a)\<lparr>pi_total_len := 0\<rparr>\<rparr>"

text \<open>
  C6: Executed without interference, \<open>fetch_packet_desc\<close> is a run of the sender's steps and
  \<open>nupa_data_available\<close> one of the receiver's. On a ring in a reachable state the first
  returns no descriptor exactly when the ring is full (given that the destination is ready
  and the uninitialised length passes its test) and otherwise leaves the area as fetching,
  freezing, sizing, publishing and placing do; the second returns none on an empty ring,
  spins on a frozen descriptor and otherwise leaves the area as looking, awaiting and
  advancing do.
\<close>

theorem ring_operations_refine:
  assumes "d = 0 \<or> d = 1" and "ring_reach d s" and "m d = rs_area s"
  shows "(rs_snd s = S_Idle \<and> pi_ready (a_info (m d)) \<and> c_int (junk + 2048) \<le> 131072 \<and> length p \<le> 2048 \<longrightarrow>
      (case ring_run d [Fetch p, Freeze, Set_length, Publish, Place] s of
         None \<Rightarrow> fetch_packet_desc junk d (int (length p)) m = Returns (None, m)
       | Some s' \<Rightarrow> \<exists>m'. fetch_packet_desc junk d (int (length p)) m = Returns (Some (pi_head (a_info (m d))), m') \<and>
           strip (m' d) = strip (rs_area s'))) \<and>
    (rs_rcv s = R_Idle \<longrightarrow>
      (case ring_run d [Look, Await, Advance] s of
         None \<Rightarrow> nupa_data_available d m = Returns (None, m) \<or> nupa_data_available d m = Spins
       | Some s' \<Rightarrow> \<exists>m'. nupa_data_available d m = Returns (Some (pi_tail (a_info (m d))), m') \<and>
           strip (m' d) = strip (rs_area s')))"
proof -
  have inv: "ring_inv d s" using ring_reach_inv assms(1,2) by blast
  have dd: "\<not> 2 \<le> d" "\<not> d < 0" using assms(1) by auto
  have hd: "pi_head (a_info (m d)) = int (sent_no s mod 64)" and tl: "pi_tail (a_info (m d)) = int (tail_no s mod 64)"
    and len: "length (a_desc (m d)) = 64"
    using inv assms(3) by (simp_all add: ring_inv_def)
  have fetch: "case ring_run d [Fetch p, Freeze, Set_length, Publish, Place] s of
         None \<Rightarrow> fetch_packet_desc junk d (int (length p)) m = Returns (None, m)
       | Some s' \<Rightarrow> \<exists>m'. fetch_packet_desc junk d (int (length p)) m = Returns (Some (pi_head (a_info (m d))), m') \<and>
           strip (m' d) = strip (rs_area s')"
    if "rs_snd s = S_Idle" "pi_ready (a_info (m d))" "c_int (junk + 2048) \<le> 131072" "length p \<le> 2048"
    using that dd hd tl len assms(3)
    by (cases "Suc (sent_no s) mod 64 = tail_no s mod 64")
      (auto simp: fetch_packet_desc_def Let_def in_ring_def upd_info_def upd_pdesc_def set_pd_def strip_def)
  have avail: "case ring_run d [Look, Await, Advance] s of
         None \<Rightarrow> nupa_data_available d m = Returns (None, m) \<or> nupa_data_available d m = Spins
       | Some s' \<Rightarrow> \<exists>m'. nupa_data_available d m = Returns (Some (pi_tail (a_info (m d))), m') \<and>
           strip (m' d) = strip (rs_area s')" if idle: "rs_rcv s = R_Idle"
  proof (cases "sent_no s mod 64 = tail_no s mod 64")
    case True
    then show ?thesis using idle dd hd tl assms(3) by (simp add: nupa_data_available_def Let_def)
  next
    case False
    then have "tail_no s < sent_no s" using inv by (cases "tail_no s = sent_no s") (auto simp: ring_inv_def)
    from slot_status [OF inv this] False show ?thesis using idle dd hd tl assms(3)
      by (auto simp: nupa_data_available_def Let_def in_ring_def upd_info_def strip_def)
  qed
  show ?thesis using fetch avail by blast
qed

theorem ring_operations_refine_witness:
  "\<exists>m'. fetch_packet_desc 0 1 2 (\<lambda>_. fresh_area 1) = Returns (Some 0, m')"
proof -
  let ?s = "ring_start 1 (\<lambda>_. 0)"
  have s: "rs_snd ?s = S_Idle" "rs_area ?s = fresh_area 1" by (simp_all add: ring_start_def)
  have "\<exists>s'. ring_run 1 [Fetch [7, 9], Freeze, Set_length, Publish, Place] ?s = Some s'"
    using fresh_area_fields [of 1] by (simp add: ring_start_def and_63)
  then show ?thesis
    using ring_operations_refine [of 1 ?s "\<lambda>_. fresh_area 1" 0 "[7, 9]"] ring_reach.start [of 1 "\<lambda>_. 0"] s
      fresh_area_fields [of 1] by auto
qed

end
