(* ===== verification/Nupa_Pages.thy ===== *)
theory Nupa_Pages
  imports Nupa_Net
begin

text \<open>
  The scatter list \<open>xdma_transfer_data\<close> builds keeps the same contract as the software
  descriptors of a request: its entries cover the buffer exactly, page by page.
\<close>

lemma unat_ucast_64 [simp]: "unat (ucast (x :: u32) :: u64) = unat x"
  by (simp add: unsigned_ucast_eq take_bit_nat_eq_self_iff order_less_trans [OF unat_bound [of x]])

lemma off_split: "(buf AND NOT 0xFFF) + (buf AND 0xFFF) = (buf :: u64)"
proof -
  have "(buf AND NOT 0xFFF) AND (buf AND 0xFFF) = 0" by (auto simp: bit_eq_iff bit_simps)
  then have "(buf AND NOT 0xFFF) + (buf AND 0xFFF) = (buf AND NOT 0xFFF) OR (buf AND 0xFFF)"
    by (rule disjunctive_add_eq_or)
  also have "\<dots> = buf" by (auto simp: bit_eq_iff bit_simps)
  finally show ?thesis .
qed

lemma unat_off: "unat (buf AND 0xFFF :: u64) = unat buf mod 4096"
proof -
  have "(buf AND 0xFFF) = take_bit 12 buf" by (simp add: take_bit_eq_mask mask_numeral)
  then show ?thesis by (simp add: unsigned_take_bit_eq take_bit_eq_mod unat_mod_distrib)
qed

lemma unat_ucast_off: "unat (ucast (buf AND 0xFFF :: u64) :: u32) = unat buf mod 4096"
  by (simp add: unsigned_ucast_eq take_bit_eq_mod unat_off)

lemma unat_pages_nr: "unat (pages_nr buf len) = (unat buf mod 4096 + unat len + 4095) div 4096"
proof -
  have "(buf + ucast len + 4096 - 1) - (buf AND NOT 0xFFF) = (buf AND 0xFFF) + ucast len + 4095"
    using off_split [of buf] by (simp add: algebra_simps)
  moreover have "unat ((buf AND 0xFFF) + ucast len + 4095 :: u64) = unat buf mod 4096 + unat len + 4095"
  proof -
    have "unat buf mod 4096 < 4096" "unat len < 2 ^ 32" using unat_bound [of len] by simp_all
    then show ?thesis by (simp add: unat_word_ariths unat_off)
  qed
  moreover have dr: "unat (drop_bit 12 w) = unat w div 4096" for w :: u64
    by (simp add: drop_bit_eq_div unat_div_distrib)
  ultimately have "unat (drop_bit 12 ((buf + ucast len + 4096 - 1) - (buf AND NOT 0xFFF)))
      = (unat buf mod 4096 + unat len + 4095) div 4096"
    by (simp only: dr)
  moreover have "(unat buf mod 4096 + unat len + 4095) div 4096 < 2 ^ 32"
    using unat_bound [of len] mod_less_divisor [of 4096 "unat buf"] by (simp add: div_less_iff_less_mult)
  ultimately show ?thesis by (simp add: pages_nr_def unsigned_ucast_eq take_bit_eq_mod)
qed

lemma min_word_0 [simp]: "min x 0 = (0 :: u32)"
  by (simp add: min_def)

lemma page_loop_zero: "c \<in> set (page_loop n buf 0) \<Longrightarrow> sg_dma_len c = 0"
  by (induction n arbitrary: buf) (auto simp: Let_def)

text \<open>One round: the rest of the page, or all that is left.\<close>

lemma page_step:
  fixes buf :: u64 and len :: u32
  defines "nb \<equiv> min (4096 - ucast (buf AND 0xFFF)) len"
  shows "unat nb = min (4096 - unat buf mod 4096) (unat len)" and "nb \<le> len"
    and "nb \<noteq> len \<Longrightarrow> unat (buf + ucast nb) mod 4096 = 0"
proof -
  have o: "unat buf mod 4096 < 4096" by simp
  have "(ucast (buf AND 0xFFF) :: u32) \<le> 4096"
    using o by (simp add: word_le_nat_alt unat_ucast_off)
  then have r: "unat (4096 - ucast (buf AND 0xFFF) :: u32) = 4096 - unat buf mod 4096"
    by (simp add: unat_sub unat_ucast_off)
  then show nb: "unat nb = min (4096 - unat buf mod 4096) (unat len)" by (simp add: nb_def unat_min)
  show "nb \<le> len" by (simp add: nb_def)
  assume "nb \<noteq> len"
  then have "unat nb \<noteq> unat len" by (metis word_unat_eq_iff)
  then have "unat nb = 4096 - unat buf mod 4096" using nb by (simp add: min_def split: if_splits)
  then have "(unat buf + unat nb) mod 4096 = 0"
    using o by (metis add_diff_inverse_nat less_imp_not_less mod_add_left_eq mod_self)
  moreover have "unat (buf + ucast nb) mod 4096 = (unat buf + unat nb) mod 4096"
    by (simp add: unat_word_ariths mod_mod_cancel)
  ultimately show "unat (buf + ucast nb) mod 4096 = 0" by simp
qed

lemma page_loop_bytes:
  "unat buf mod 4096 + unat len \<le> 4096 * n \<Longrightarrow>
   concat (map (\<lambda>c. span (sg_dma_address c) (sg_dma_len c)) (page_loop n buf len)) = span buf len"
proof (induction n arbitrary: buf len)
  case 0
  then have "len = 0" by (simp add: unat_eq_0)
  then show ?case by simp
next
  case (Suc n)
  define nb where "nb = min (4096 - ucast (buf AND 0xFFF)) len"
  note st = page_step [of buf len, folded nb_def]
  have rest: "unat (len - nb) = unat len - unat nb" using st(2) by (simp add: unat_sub)
  have "concat (map (\<lambda>c. span (sg_dma_address c) (sg_dma_len c)) (page_loop n (buf + ucast nb) (len - nb)))
      = span (buf + ucast nb) (len - nb)"
  proof (cases "nb = len")
    case True
    then show ?thesis using page_loop_zero [of _ n "buf + ucast nb"] by simp
  next
    case False
    then have "unat nb = 4096 - unat buf mod 4096"
      using st(1) by (metis min_def word_unat_eq_iff)
    then have "unat (buf + ucast nb) mod 4096 + unat (len - nb) \<le> 4096 * n"
      using Suc.prems st(3) [OF False] rest by simp
    then show ?thesis by (rule Suc.IH)
  qed
  then show ?case using span_split [OF st(2), of buf] by (simp add: Let_def nb_def [symmetric])
qed

lemma page_loop_piece:
  "0 < len \<Longrightarrow> n = (unat buf mod 4096 + unat len + 4095) div 4096 \<Longrightarrow> c \<in> set (page_loop n buf len) \<Longrightarrow>
   0 < sg_dma_len c \<and> unat (sg_dma_len c) \<le> 4096"
proof (induction n arbitrary: buf len)
  case 0
  then show ?case by simp
next
  case (Suc n)
  define nb where "nb = min (4096 - ucast (buf AND 0xFFF)) len"
  note st = page_step [of buf len, folded nb_def]
  have o: "unat buf mod 4096 < 4096" by simp
  have pos: "0 < unat nb" "unat nb \<le> 4096" using st(1) Suc.prems(1) o by (auto simp: word_less_nat_alt)
  have rest: "unat (len - nb) = unat len - unat nb" using st(2) by (simp add: unat_sub)
  consider "c = \<lparr>sg_dma_address = buf, sg_dma_len = nb\<rparr>" | "c \<in> set (page_loop n (buf + ucast nb) (len - nb))"
    using Suc.prems(3) by (auto simp: Let_def nb_def)
  then show ?case
  proof cases
    case 1
    then show ?thesis using pos by (simp add: word_less_nat_alt)
  next
    case 2
    show ?thesis
    proof (cases "nb = len")
      case True
      then have "unat len \<le> 4096 - unat buf mod 4096" using st(1) by simp
      then have "unat buf mod 4096 + unat len + 4095 < 2 * 4096" using o by linarith
      then have "Suc n < 2" unfolding Suc.prems(2) by (rule less_mult_imp_div_less)
      then show ?thesis using 2 by simp
    next
      case False
      then have nbv: "unat nb = 4096 - unat buf mod 4096"
        using st(1) by (metis min_def word_unat_eq_iff)
      have "unat nb < unat len" using False st(2) by (metis order_less_le word_le_nat_alt word_unat_eq_iff)
      then have "0 < len - nb" using rest by (simp add: word_less_nat_alt)
      moreover have "n = (unat (buf + ucast nb) mod 4096 + unat (len - nb) + 4095) div 4096"
      proof -
        have "unat buf mod 4096 + unat len + 4095 = (unat (len - nb) + 4095) + 4096"
          using rest nbv o \<open>unat nb < unat len\<close> by linarith
        then have "Suc n = Suc ((unat (len - nb) + 4095) div 4096)" using Suc.prems(2) by simp
        then show ?thesis using st(3) [OF False] by simp
      qed
      ultimately show ?thesis using Suc.IH 2 by blast
    qed
  qed
qed

subsection \<open>The contract\<close>

definition page_split :: "u64 \<Rightarrow> u32 \<Rightarrow> scatterlist list" where
  "page_split buf len = (if len = 0 then [] else page_loop (unat (pages_nr buf len)) buf len)"

lemma enough_pages: "a \<le> 4096 * ((a + 4095) div (4096 :: nat))"
  using div_mult_mod_eq [of "a + 4095" 4096] mod_less_divisor [of 4096 "a + 4095"] by linarith

interpretation pg: chunker page_split sg_dma_address sg_dma_len 4096
proof
  fix a n and c :: scatterlist
  show "concat (map (\<lambda>c. span (sg_dma_address c) (sg_dma_len c)) (page_split a n)) = span a n"
    using page_loop_bytes [of a n "unat (pages_nr a n)"] enough_pages [of "unat a mod 4096 + unat n"]
    by (simp add: page_split_def unat_pages_nr)
  show "c \<in> set (page_split a n) \<Longrightarrow> 0 < sg_dma_len c \<and> unat (sg_dma_len c) \<le> 4096"
    using page_loop_piece [of n "unat (pages_nr a n)" a c]
    by (auto simp: page_split_def unat_pages_nr word_neq_0_conv split: if_splits)
qed

text \<open>
  The scatter list of a frame covers the frame. For a non-empty buffer
  \<open>xdma_transfer_data\<close> allocates as many entries as the buffer touches pages, and the
  entries its loop fills address exactly the bytes of the buffer, in order, none empty and
  none crossing a page.
\<close>

lemma transfer_data_pages:
  assumes "0 < len"
  shows "concat (map (\<lambda>c. span (sg_dma_address c) (sg_dma_len c)) (page_loop (unat (pages_nr buf len)) buf len))
           = span buf len \<and>
         (\<forall>c\<in>set (page_loop (unat (pages_nr buf len)) buf len). 0 < sg_dma_len c \<and> unat (sg_dma_len c) \<le> 4096) \<and>
         unat (pages_nr buf len) = (unat buf mod 4096 + unat len + 4095) div 4096"
proof -
  have "page_split buf len = page_loop (unat (pages_nr buf len)) buf len"
    using assms by (auto simp: page_split_def)
  then show ?thesis
    using pg.split_bytes [of buf len] pg.split_piece [of _ buf len] unat_pages_nr [of buf len] by metis
qed

lemma fetch_offset:
  assumes "fetch_packet_desc junk d len m = Returns (Some i, m1)"
    and "length (a_desc (m d)) = 64" and "\<forall>k<64. pd_pos (a_desc (m d) ! k) = int k"
  shows "0 \<le> d \<and> d < 2 \<and> 0 \<le> i \<and> i < 64 \<and> pd_offset (a_desc (m1 d) ! nat i) = 131072 * d + i * 2048"
proof -
  have d: "0 \<le> d" "d < 2" and i: "0 \<le> i" "i < 64"
    and off: "pd_offset (a_desc (m1 d) ! nat i) = desc_offset d (pd_pos (a_desc (m d) ! nat i))"
    using assms(1,2)
    by (auto simp: fetch_packet_desc_def Let_def in_ring_def upd_info_def upd_pdesc_def split: if_splits)
  have "pd_pos (a_desc (m d) ! nat i) = i" using assms(3) i by simp
  then show ?thesis using d i off by (simp add: desc_offset_eq in_ring_def)
qed

text \<open>
  C37: Shared memory and DMA memory are divided without overlap. The area of a host, header
  and 64 descriptors, fits its share of the user BAR. Whenever \<open>fetch_packet_desc\<close> hands out a
  descriptor of an area numbered as \<open>adapter_info_init\<close> numbers it, the offset it writes into
  the descriptor leaves room for a whole slot inside the DMA memory, and the slots it gives to
  two different descriptors, of one host or of two, do not overlap.
\<close>

theorem nupa_layout:
  assumes "fetch_packet_desc junk d len m = Returns (Some i, m1)"
    and "fetch_packet_desc junk' d' len' m' = Returns (Some i', m1')"
    and "length (a_desc (m d)) = 64" and "\<forall>k<64. pd_pos (a_desc (m d) ! k) = int k"
    and "length (a_desc (m' d')) = 64" and "\<forall>k<64. pd_pos (a_desc (m' d') ! k) = int k"
    and "(d, i) \<noteq> (d', i')"
  shows "sizeof_packets_info + MAX_DESC_NUM * sizeof_packet_desc \<le> INFO_SIZE \<and>
    MAX_AGENT_NUM * INFO_SIZE = USR_BAR_SHARING_SIZE \<and>
    (let x = pd_offset (a_desc (m1 d) ! nat i); x' = pd_offset (a_desc (m1' d') ! nat i')
     in 0 \<le> x \<and> x + DESC_MAX_DMA_SIZE \<le> TOTAL_DMA_SIZE \<and>
        (x + DESC_MAX_DMA_SIZE \<le> x' \<or> x' + DESC_MAX_DMA_SIZE \<le> x))"
proof -
  note fetched = fetch_offset [OF assms(1,3,4)] fetch_offset [OF assms(2,5,6)]
  then have "d = 0 \<or> d = 1" "d' = 0 \<or> d' = 1" by auto
  then show ?thesis
    using fetched assms(7) by (auto simp: sizeof_packets_info_def sizeof_packet_desc_def Let_def)
qed

theorem nupa_layout_witness:
  "\<exists>m1 m1'. fetch_packet_desc 0 0 2 (\<lambda>_. fresh_area 0) = Returns (Some 0, m1) \<and>
    fetch_packet_desc 0 1 2 (\<lambda>_. fresh_area 1) = Returns (Some 0, m1') \<and>
    (let x = pd_offset (a_desc (m1 0) ! 0); x' = pd_offset (a_desc (m1' 1) ! 0)
     in x + DESC_MAX_DMA_SIZE \<le> x' \<or> x' + DESC_MAX_DMA_SIZE \<le> x)"
proof -
  have f: "\<exists>m1. fetch_packet_desc 0 d 2 (\<lambda>_. fresh_area d) = Returns (Some 0, m1)" if "d = 0 \<or> d = 1" for d
    using that fresh_area_fields [OF that] by (auto simp: fetch_packet_desc_def Let_def in_ring_def and_63)
  obtain m1 m1' where m: "fetch_packet_desc 0 0 2 (\<lambda>_. fresh_area 0) = Returns (Some 0, m1)"
      "fetch_packet_desc 0 1 2 (\<lambda>_. fresh_area 1) = Returns (Some 0, m1')"
    using f [of 0] f [of 1] by auto
  have "(0 :: int, 0 :: int) \<noteq> (1, 0)" by simp
  from nupa_layout [OF m fresh_area_fields(1,2) fresh_area_fields(1,2) this] show ?thesis
    using m by (simp add: Let_def)
qed

end
