(* ===== verification/Nupa_Frames.thy ===== *)
theory Nupa_Frames
  imports Nupa_Pages
begin

text \<open>
  Properties of transmitting and polling: who a frame goes to, what becomes of its buffer,
  and how many frames a poll hands up.
\<close>

subsection \<open>Addresses\<close>

lemma host_id_range: "0 \<le> device_id_to_host_id x \<and> device_id_to_host_id x < 16"
proof -
  have "device_id_to_host_id x = take_bit 4 (drop_bit 8 x)"
    by (simp add: device_id_to_host_id_def take_bit_eq_mask mask_numeral)
  then show ?thesis by (simp add: take_bit_eq_mod)
qed

text \<open>
  The MAC address \<open>nupanet_set_mac\<close> derives from the PCI device number leads back to
  the same host: a frame sent to it has that host as its destination, it is a unicast
  address, and for the two device numbers the driver binds to the hosts are 0 and 1, the
  two the shared memory has areas for.
\<close>

lemma mac_leads_to_host:
  "mac_addr_to_host_id (nupanet_set_mac dev_id) = device_id_to_host_id dev_id \<and>
   xmit_dst a (nupanet_set_mac dev_id @ rest) = device_id_to_host_id dev_id \<and>
   device_id_to_host_id 0x9048 = 0 \<and> device_id_to_host_id 0x9148 = 1"
proof -
  have "sint (of_int (device_id_to_host_id dev_id) :: u8) = device_id_to_host_id dev_id"
    using host_id_range [of dev_id] by (simp add: signed_of_int signed_take_bit_int_eq_self)
  then have m: "mac_addr_to_host_id (nupanet_set_mac dev_id @ r) = device_id_to_host_id dev_id" for r
    by (simp add: mac_addr_to_host_id_def nupanet_set_mac_def NUPANET_DEFAULT_BASE_MAC_ADDR_def nth_append)
  have b: "\<not> is_multicast_ether_addr (nupanet_set_mac dev_id @ rest)"
    by (simp add: is_multicast_ether_addr_def nupanet_set_mac_def NUPANET_DEFAULT_BASE_MAC_ADDR_def)
  have "(nupanet_set_mac dev_id @ rest) ! 0 \<noteq> 0xFF"
    by (simp add: nupanet_set_mac_def NUPANET_DEFAULT_BASE_MAC_ADDR_def)
  then have "\<not> is_broadcast_ether_addr (nupanet_set_mac dev_id @ rest)"
    unfolding is_broadcast_ether_addr_def by (metis zero_less_numeral)
  then show ?thesis using m [of "[]"] m [of rest] b
    by (simp add: xmit_dst_def device_id_to_host_id_def)
qed

text \<open>
  C39: The destination is the last byte of the MAC address as a signed number, and nothing
  else of the address is looked at. While transmission is not held, a unicast frame of at
  most 2048 bytes (longer ones are discarded) whose address ends in 0 or 1 goes to that host,
  whatever station the other five bytes name. With any other last byte it brings the kernel
  down: from 2 on the \<open>BUG_ON\<close> of \<open>fetch_packet_desc\<close> fires; from 0x80 on the number is
  negative, passes the \<open>BUG_ON\<close>, and an area in front of the mapping is accessed.
\<close>

theorem xmit_foreign_address:
  assumes "\<not> ad_hold_ic_ctl (n_adapter N)" and "\<not> is_multicast_ether_addr frame" and "length frame \<le> 2048"
    and "\<not> is_broadcast_ether_addr frame"
  shows "(frame ! 5 = 0 \<longrightarrow> xmit_dst (n_adapter N) frame = 0) \<and> (frame ! 5 = 1 \<longrightarrow> xmit_dst (n_adapter N) frame = 1) \<and>
    (frame ! 5 \<noteq> 0 \<and> frame ! 5 \<noteq> 1 \<longrightarrow>
       nupanet_xmit_frame K frame N = (if bit (frame ! 5) 7 then Out_of_range else Bug_on))"
proof -
  let ?b = "frame ! 5"
  have dst: "xmit_dst (n_adapter N) frame = sint ?b"
    using assms by (simp add: xmit_dst_def mac_addr_to_host_id_def)
  have neg: "sint ?b < 0 \<longleftrightarrow> bit ?b 7" using bit_last_iff [of ?b] by simp
  have "nupanet_xmit_frame K frame N = (if bit ?b 7 then Out_of_range else Bug_on)" if "?b \<noteq> 0" "?b \<noteq> 1"
  proof -
    have "sint ?b \<noteq> sint (0 :: u8)" "sint ?b \<noteq> sint (1 :: u8)" using that signed_word_eqI by blast+
    then have "sint ?b \<noteq> 0" "sint ?b \<noteq> 1" by simp_all
    then show ?thesis using assms neg
      by (auto simp: nupanet_xmit_frame_def Let_def mac_addr_valid_def dst fetch_packet_desc_def)
  qed
  then show ?thesis by (simp add: dst)
qed

subsection \<open>Transmit\<close>

text \<open>
  C38: A transmitted buffer is freed exactly once, on success, when it is too long, and
  when the ring is full or not ready; only while transmission is held is it never freed.
\<close>

theorem xmit_frees_once:
  assumes "nupanet_xmit_frame K frame N = Returns N'"
  shows "n_freed N' = n_freed N + (if ad_hold_ic_ctl (n_adapter N) then 0 else 1)"
  using assms
  by (auto simp: nupanet_xmit_frame_def Let_def mac_addr_valid_def split: if_splits outcome.splits
      option.splits prod.splits)

text \<open>
  A frame is published whether or not its DMA worked. The result of
  \<open>xdma_send_data\<close> is not looked at: even when it is an error the descriptor becomes
  settled, and the receiver will read whatever the slot held.
\<close>

lemma xmit_ignores_dma_errors:
  assumes "\<not> ad_hold_ic_ctl (n_adapter N)" and "length frame \<le> 2048"
    and "fetch_packet_desc (stack_junk K) (xmit_dst (n_adapter N) frame) (int (length frame)) (n_shm N)
           = Returns (Some i, m)"
    and "nat i < length (a_desc (m (xmit_dst (n_adapter N) frame)))"
    and "xdma_send_data K (the (ad_xdev (n_adapter N))) frame
           (a_desc (m (xmit_dst (n_adapter N) frame)) ! nat i) (n_drv N) = Some (res, s)"
  shows "\<exists>N'. nupanet_xmit_frame K frame N = Returns N' \<and>
    pd_status (a_desc (n_shm N' (xmit_dst (n_adapter N) frame)) ! nat i) = PACKET_SETTLED"
  using assms by (simp add: nupanet_xmit_frame_def Let_def mac_addr_valid_def upd_pdesc_def)

subsection \<open>Poll\<close>

lemma poll_loop_count:
  "poll_loop K budget w N = Returns (w', N') \<Longrightarrow>
   \<exists>fs. n_delivered N' = n_delivered N @ fs \<and> w' = w + int (length fs) \<and> (w \<le> budget \<longrightarrow> w' \<le> budget + 1)"
proof (induction K budget w N rule: poll_loop.induct)
  case (1 K budget w N)
  let ?h = "ad_host_id (n_adapter N)"
  show ?case
  proof (cases "nupa_data_available ?h (n_shm N)")
    case (Returns p)
    obtain r m where p: "p = (r, m)" by (cases p)
    show ?thesis
    proof (cases r)
      case None
      then show ?thesis using "1.prems" Returns p by (subst (asm) poll_loop.simps) auto
    next
      case (Some i)
      show ?thesis
      proof (cases "xdma_receive_data K (the (ad_xdev (n_adapter N))) (a_desc (m ?h) ! nat i) (n_drv N)")
        case None
        then show ?thesis using "1.prems" Returns p Some by (subst (asm) poll_loop.simps) simp
      next
        case rcv: (Some q)
        obtain o' s where q: "q = (o', s)" by (cases q)
        show ?thesis
        proof (cases o')
          case None
          then show ?thesis using "1.prems" Returns p Some rcv q by (subst (asm) poll_loop.simps) auto
        next
          case skb: (Some f)
          let ?N = "N\<lparr>n_drv := s, n_shm := upd_pdesc ?h i (\<lambda>p. p\<lparr>pd_status := PACKET_RELEASED\<rparr>) m,
                       n_delivered := n_delivered N @ [f]\<rparr>"
          have eq: "poll_loop K budget w N =
              (if budget < w + 1 then Returns (w + 1, ?N) else poll_loop K budget (w + 1) ?N)"
            using Returns p Some rcv q skb by (subst poll_loop.simps) (simp add: Let_def)
          show ?thesis
          proof (cases "budget < w + 1")
            case True
            then show ?thesis using "1.prems" eq by auto
          next
            case False
            then have "poll_loop K budget (w + 1) ?N = Returns (w', N')" using "1.prems" eq by simp
            then have "\<exists>fs. n_delivered N' = n_delivered ?N @ fs \<and> w' = (w + 1) + int (length fs) \<and>
                (w + 1 \<le> budget \<longrightarrow> w' \<le> budget + 1)"
              using "1.IH" [OF refl refl Returns p [symmetric] Some rcv q [symmetric] skb refl False] by blast
            then show ?thesis using False by auto
          qed
        qed
      qed
    qed
  qed (use "1.prems" in \<open>(subst (asm) poll_loop.simps, simp add: Let_def)+\<close>)
qed

text \<open>
  C40: A poll hands up one frame per unit of work and stops after at most one more than
  its budget: if it returns, the frames it delivered are appended to those delivered
  before, as many as it reports.
\<close>

theorem poll_delivers_what_it_reports:
  assumes "nupanet_poll K budget N = Returns (r, complete, N')" and "\<not> ad_hold_ic_ctl (n_adapter N)"
    and "0 \<le> budget"
  shows "\<exists>fs. n_delivered N' = n_delivered N @ fs \<and> r = int (length fs) \<and> r \<le> budget + 1 \<and>
    (complete \<longleftrightarrow> r \<noteq> budget)"
proof -
  obtain w where w: "poll_loop K budget 0 N = Returns (w, N')" "r = w" "complete \<longleftrightarrow> w \<noteq> budget"
    using assms(1,2) by (auto simp: nupanet_poll_def split: outcome.splits if_splits)
  then show ?thesis using poll_loop_count [OF w(1)] assms(3) by auto
qed

text \<open>
  The budget is exceeded. The loop stops when \<open>++work_done > budget\<close>, one frame too
  late: a poll with budget 0 that finds a settled frame still receives it, reports one
  unit of work, more than it was allowed, and reports itself complete.
\<close>

lemma poll_exceeds_budget:
  assumes "\<not> ad_hold_ic_ctl (n_adapter N)"
    and "nupa_data_available (ad_host_id (n_adapter N)) (n_shm N) = Returns (Some i, m)"
    and "xdma_receive_data K (the (ad_xdev (n_adapter N))) (a_desc (m (ad_host_id (n_adapter N))) ! nat i) (n_drv N)
           = Some (Some f, s)"
  shows "\<exists>N'. nupanet_poll K 0 N = Returns (1, True, N') \<and> n_delivered N' = n_delivered N @ [f]"
proof -
  have "\<exists>N'. poll_loop K 0 0 N = Returns (1, N') \<and> n_delivered N' = n_delivered N @ [f]"
    using assms(2,3) by (subst poll_loop.simps) (simp add: Let_def)
  then show ?thesis using assms(1) by (auto simp: nupanet_poll_def)
qed

subsection \<open>Examples\<close>

text \<open>Host 0 with an area whose first descriptor is settled; the DMA table cannot be allocated.\<close>

definition sample_nenv :: nenv where
  "sample_nenv = \<lparr>poll_mode = 0, interrupt_mode = 0, enable_st_c2h_credit = 0, desc_blen_max = 256,
     ioread32 = (\<lambda>l a. 0), get_cpu = 0, map_sg = (\<lambda>_. ([], 0)), req_alloc = (\<lambda>_. True), sizeof_cb = 64,
     meanwhile = (\<lambda>_. id), kmalloc = (\<lambda>_. Some 0x1000), napi_alloc_skb = (\<lambda>_. True),
     kzalloc_sgt = True, sg_alloc_table = (\<lambda>_. False), host_mem = (\<lambda>s b n. [1, 2]), new_sgt = 3, new_tfer = 7, stack_junk = 0\<rparr>"

definition sample_area :: area where
  "sample_area = \<lparr>a_info = zero_packets_info\<lparr>pi_head := 1, pi_ready := True\<rparr>,
     a_desc = replicate 64 (zero_packet_desc\<lparr>pd_status := PACKET_SETTLED, pd_length := 2\<rparr>)\<rparr>"

definition sample_net :: net where
  "sample_net = \<lparr>n_drv = sample_drv, n_shm = (\<lambda>_. sample_area),
     n_adapter = \<lparr>ad_magic = 0, ad_pdev = 1, ad_xdev = Some 0, ad_user_max = 0, ad_c2h_channel_max = 1,
       ad_h2c_channel_max = 1, ad_host_id = 0, ad_hold_ic_ctl = False\<rparr>,
     n_delivered = [], n_freed = 0\<rparr>"

definition sample_frame :: "u8 \<Rightarrow> u8 list" where
  "sample_frame b = [0xFC, 0xAF, 0xAC, 0, 0, b, 0xFC, 0xAF, 0xAC, 0, 0, 0, 8, 0]"

lemma sample_frame_unicast [simp]:
  "\<not> is_multicast_ether_addr (sample_frame b)" "\<not> is_broadcast_ether_addr (sample_frame b)"
  "length (sample_frame b) = 14" "sample_frame b ! 5 = b"
proof -
  have "sample_frame b ! 0 \<noteq> 0xFF" by (simp add: sample_frame_def)
  then show "\<not> is_broadcast_ether_addr (sample_frame b)"
    unfolding is_broadcast_ether_addr_def by (metis zero_less_numeral)
qed (simp_all add: is_multicast_ether_addr_def sample_frame_def)

lemma sample_net_fields [simp]:
  "ad_hold_ic_ctl (n_adapter sample_net) = False" "ad_host_id (n_adapter sample_net) = 0"
  "n_shm sample_net = (\<lambda>_. sample_area)" "n_freed sample_net = 0" "n_delivered sample_net = []"
  "xmit_dst (n_adapter sample_net) (sample_frame 1) = 1" "stack_junk sample_nenv = 0"
  by (simp_all add: sample_net_def sample_nenv_def xmit_dst_def mac_addr_to_host_id_def)

lemma sample_send: "\<exists>res s'. xdma_send_data sample_nenv d f p s = Some (res, s')"
  by (simp add: xdma_send_data_def xdma_transfer_data_def sample_nenv_def Let_def)

lemma sample_receive: "xdma_receive_data sample_nenv d p s = Some (Some [1, 2], s)"
  by (simp add: xdma_receive_data_def xdma_transfer_data_def sample_nenv_def Let_def)

lemma sample_fetch:
  "\<exists>m. fetch_packet_desc 0 1 14 (\<lambda>_. sample_area) = Returns (Some 1, m) \<and> length (a_desc (m 1)) = 64"
  by (simp add: fetch_packet_desc_def sample_area_def zero_packets_info_def Let_def in_ring_def upd_info_def
      upd_pdesc_def and_63)

lemma sample_available: "\<exists>m. nupa_data_available 0 (\<lambda>_. sample_area) = Returns (Some 0, m)"
  by (simp add: nupa_data_available_def sample_area_def zero_packets_info_def Let_def in_ring_def)

theorem xmit_foreign_address_witness:
  "nupanet_xmit_frame sample_nenv (sample_frame 0x80) sample_net = Out_of_range \<and>
   nupanet_xmit_frame sample_nenv (sample_frame 7) sample_net = Bug_on"
  using xmit_foreign_address [of sample_net "sample_frame 0x80" sample_nenv]
    xmit_foreign_address [of sample_net "sample_frame 7" sample_nenv]
  by (simp add: bit_iff_odd)

theorem xmit_frees_once_witness:
  "\<exists>N'. nupanet_xmit_frame sample_nenv (replicate 3000 0) sample_net = Returns N' \<and> n_freed N' = 1"
proof -
  obtain N' where "nupanet_xmit_frame sample_nenv (replicate 3000 0) sample_net = Returns N'"
    by (simp add: nupanet_xmit_frame_def Let_def mac_addr_valid_def)
  then show ?thesis using xmit_frees_once by fastforce
qed

theorem poll_delivers_what_it_reports_witness:
  "\<exists>r c N' fs. nupanet_poll sample_nenv 0 sample_net = Returns (r, c, N') \<and> n_delivered N' = fs \<and> r = int (length fs)"
proof -
  obtain m where m: "nupa_data_available 0 (\<lambda>_. sample_area) = Returns (Some 0, m)" using sample_available by blast
  have "\<exists>N'. poll_loop sample_nenv 0 0 sample_net = Returns (1, N')"
    by (subst poll_loop.simps) (simp add: Let_def m sample_receive)
  then obtain N' where p: "nupanet_poll sample_nenv 0 sample_net = Returns (1, True, N')"
    by (auto simp: nupanet_poll_def)
  then show ?thesis using poll_delivers_what_it_reports [OF p] by auto
qed

end
