(* ===== verification/Nupa_Debug.thy ===== *)
theory Nupa_Debug
  imports Nupa_Frames
begin

text \<open>
  The character device of src/src/debug.c, through which a user reads and writes the DMA
  memory, maps the shared area and switches the network driver on hold.

  What it acquires from the kernel and gives back is written to a log. The allocators and
  the functions that register a character device are parameters. \<open>class_create\<close> and
  \<open>device_create\<close> return a pointer that may be null or carry an error number, as their
  callers have to expect. A call that oopses is \<open>None\<close>.
\<close>

subsection \<open>Parameters and state\<close>

datatype kptr = Null_ptr | Err_ptr int | Ptr nat

record genv = nenv +
  kzalloc :: "u64 \<Rightarrow> u64 option"
  copy_to_user_fails :: "u64 \<Rightarrow> bool"
  copy_from_user_fails :: "u64 \<Rightarrow> bool"
  alloc_chrdev_region :: "int \<times> nat"
  class_create :: kptr
  device_create :: kptr
  kcalloc_buf :: "u64 option"
  cdev_add :: int
  virt_to_phys :: "u64 \<Rightarrow> u64"
  remap_pfn_range :: int

text \<open>The resources of the character device, and those of the network device it belongs to.\<close>

datatype dbg_res =
    D_mem u64 | D_sgt nat | D_table nat | D_region nat | D_class kptr | D_device nat | D_cdev nat
  | N_netdev nat | N_map u64 | N_napi nat | N_registered nat | N_thread nat

datatype dbg_event = Got dbg_res | Gave dbg_res | Remap u64 u64 u64 | Napi_enable nat

text \<open>
  The flag \<open>hold_ic_ctl\<close> of the structure is the adapter's \<open>ad_hold_ic_ctl\<close>. A device number
  or an address of 0 is \<open>NULL\<close>.
\<close>

record debug_cdev =
  dc_cdevno :: nat
  dc_class :: kptr
  dc_buf :: "u64 option"
  dc_buf_size :: int
  dc_info_buf :: u64
  dc_info_len :: int
  dc_dump_ctl :: int
  dc_hack_ctl :: int

record dbg =
  dg_net :: net
  dg_cdev :: debug_cdev
  dg_log :: "dbg_event list"
  dg_user :: "u8 list"

record dfile =
  f_private :: bool
  f_offset :: u64

definition zero_cdev :: debug_cdev where
  "zero_cdev = \<lparr>dc_cdevno = 0, dc_class = Null_ptr, dc_buf = None, dc_buf_size = 0, dc_info_buf = 0,
     dc_info_len = 0, dc_dump_ctl = 0, dc_hack_ctl = 0\<rparr>"

definition logd :: "dbg_event \<Rightarrow> dbg \<Rightarrow> dbg" where
  "logd x D = D\<lparr>dg_log := dg_log D @ [x]\<rparr>"

definition dheld :: "dbg_res \<Rightarrow> dbg \<Rightarrow> int" where
  "dheld r D = int (count_list (dg_log D) (Got r)) - int (count_list (dg_log D) (Gave r))"

definition upd_cdev :: "(debug_cdev \<Rightarrow> debug_cdev) \<Rightarrow> dbg \<Rightarrow> dbg" where
  "upd_cdev f D = D\<lparr>dg_cdev := f (dg_cdev D)\<rparr>"

definition upd_drv :: "(drv \<Rightarrow> drv) \<Rightarrow> dbg \<Rightarrow> dbg" where
  "upd_drv f D = D\<lparr>dg_net := (dg_net D)\<lparr>n_drv := f (n_drv (dg_net D))\<rparr>\<rparr>"

definition set_hold :: "bool \<Rightarrow> dbg \<Rightarrow> dbg" where
  "set_hold b D = D\<lparr>dg_net := (dg_net D)\<lparr>n_adapter := (n_adapter (dg_net D))\<lparr>ad_hold_ic_ctl := b\<rparr>\<rparr>\<rparr>"

subsection \<open>Constants\<close>

definition IOCTL_MAGIC :: u32 where [xdma_const]: "IOCTL_MAGIC = 0x44"
definition IO_cmd :: "u32 \<Rightarrow> u32" where [xdma_const]: "IO_cmd n = (push_bit 8 IOCTL_MAGIC OR n)"
definition IOCTL_RAW_WRITE :: u32 where [xdma_const]: "IOCTL_RAW_WRITE = IO_cmd 1"
definition IOCTL_RAW_READ :: u32 where [xdma_const]: "IOCTL_RAW_READ = IO_cmd 2"
definition IOCTL_DUMP_MSG_ON :: u32 where [xdma_const]: "IOCTL_DUMP_MSG_ON = IO_cmd 3"
definition IOCTL_DUMP_MSG_OFF :: u32 where [xdma_const]: "IOCTL_DUMP_MSG_OFF = IO_cmd 4"
definition IOCTL_HACK_CTL_ON :: u32 where [xdma_const]: "IOCTL_HACK_CTL_ON = IO_cmd 5"
definition IOCTL_HACK_CTL_OFF :: u32 where [xdma_const]: "IOCTL_HACK_CTL_OFF = IO_cmd 6"
definition IOCTL_HOLD_IC_ON :: u32 where [xdma_const]: "IOCTL_HOLD_IC_ON = IO_cmd 7"
definition IOCTL_HOLD_IC_OFF :: u32 where [xdma_const]: "IOCTL_HOLD_IC_OFF = IO_cmd 8"
definition BUF_LENGTH :: int where [xdma_const]: "BUF_LENGTH = 32768"

subsection \<open>Moving data\<close>

text \<open>The number of pages, with the length read as a signed integer.\<close>

definition debug_pages :: "u64 \<Rightarrow> int \<Rightarrow> u32" where
  "debug_pages buf len = ucast (drop_bit 12 ((buf + of_int len + 4096 - 1) - (buf AND NOT 0xFFF)))"

definition dma_xfer_data :: "'k genv_scheme \<Rightarrow> int \<Rightarrow> u64 \<Rightarrow> int \<Rightarrow> bool \<Rightarrow> dbg \<Rightarrow> (int \<times> dbg) option" where
  "dma_xfer_data K pos buf len is_h2c D =
     (if \<not> kzalloc_sgt K then Some (- ENOMEM, D)
      else let g = new_sgt K; D = logd (Got (D_sgt g)) D; n = debug_pages buf len
      in if n = 0 then Some (- EINVAL, D)
      else if \<not> sg_alloc_table K n then Some (- ENOMEM, logd (Gave (D_sgt g)) D)
      else let D = logd (Got (D_table g)) D;
               s = upd_sgt g (\<lambda>_. \<lparr>sgl = page_loop (unat n) buf (of_int len), nents = unat n,
                                  orig_nents = unat n\<rparr>) (n_drv (dg_net D))
      in case ad_xdev (n_adapter (dg_net D)) of
           None \<Rightarrow> None
         | Some d \<Rightarrow>
             let e = (d, if is_h2c then H2C else C2H, 0)
             in case xdma_xfer_submit K (Some d) (e_channel (engs s e)) is_h2c (of_int pos) g False (new_tfer K) s of
                  None \<Rightarrow> None
                | Some (res, s) \<Rightarrow>
                    Some (c_int res, logd (Gave (D_sgt g)) (logd (Gave (D_table g)) (upd_drv (\<lambda>_. s) D))))"

subsection \<open>File operations\<close>

definition debug_open :: "dfile \<Rightarrow> int \<times> dfile" where
  "debug_open f = (0, f\<lparr>f_private := True\<rparr>)"

definition debug_close :: "dfile \<Rightarrow> int \<times> dfile" where
  "debug_close f = (0, f)"

text \<open>
  The buffers of the two tests: the result of \<open>kmalloc\<close> is not looked at. The write test
  fills the buffer, and oopses if there is none.
\<close>

definition do_raw_read_test :: "'k genv_scheme \<Rightarrow> dbg \<Rightarrow> dbg option" where
  "do_raw_read_test K D =
     (case kmalloc K 4096 of
        None \<Rightarrow> map_option snd (dma_xfer_data K 0 0 4096 False D)
      | Some buf \<Rightarrow>
          map_option (\<lambda>(res, D). logd (Gave (D_mem buf)) D)
            (dma_xfer_data K 0 buf 4096 False (logd (Got (D_mem buf)) D)))"

definition do_raw_write_test :: "'k genv_scheme \<Rightarrow> u8 \<Rightarrow> dbg \<Rightarrow> dbg option" where
  "do_raw_write_test K content D =
     (case kmalloc K 4096 of
        None \<Rightarrow> None
      | Some buf \<Rightarrow>
          map_option (\<lambda>(res, D). logd (Gave (D_mem buf)) D)
            (dma_xfer_data K 0 buf 4096 True
              (upd_drv (tell (Mem_write buf (replicate 4096 content))) (logd (Got (D_mem buf)) D))))"

text \<open>
  A copy to or from the user that fails is not recorded, though it may have moved some of
  the bytes. The file is marked with the device by \<open>debug_open\<close>.
\<close>

definition debug_read :: "'k genv_scheme \<Rightarrow> u64 \<Rightarrow> dfile \<Rightarrow> dbg \<Rightarrow> (int \<times> dfile \<times> dbg) option" where
  "debug_read K count f D =
     (case kzalloc K count of None \<Rightarrow> Some (- ENOMEM, f, D)
      | Some buf \<Rightarrow>
        (case dma_xfer_data K (c_int (sint (f_offset f))) buf (c_int (sint count)) False (logd (Got (D_mem buf)) D) of
           None \<Rightarrow> None
         | Some (res, D) \<Rightarrow>
             if copy_to_user_fails K count then Some (- EFAULT, f, D)
             else Some (sint count, f\<lparr>f_offset := f_offset f + count\<rparr>,
                    logd (Gave (D_mem buf))
                      (D\<lparr>dg_user := host_mem K (n_drv (dg_net D)) buf (sint count)\<rparr>))))"

definition debug_write ::
  "'k genv_scheme \<Rightarrow> u8 list \<Rightarrow> u64 \<Rightarrow> dfile \<Rightarrow> dbg \<Rightarrow> (int \<times> dfile \<times> dbg) option" where
  "debug_write K src count f D =
     (if of_int (dc_buf_size (dg_cdev D)) < f_offset f + count then Some (- EINVAL, f, D)
      else case kzalloc K count of None \<Rightarrow> Some (- ENOMEM, f, D)
      | Some buf \<Rightarrow>
        let D = logd (Got (D_mem buf)) D
        in if copy_from_user_fails K count then Some (- EFAULT, f, D)
        else let D = upd_drv (tell (Mem_write buf (take (unat count) src))) D
        in case dma_xfer_data K (c_int (sint (f_offset f))) buf (c_int (sint count)) True D of
               None \<Rightarrow> None
             | Some (res, D) \<Rightarrow> Some (sint count, f\<lparr>f_offset := f_offset f + count\<rparr>, D))"

definition debug_ioctl :: "'k genv_scheme \<Rightarrow> u32 \<Rightarrow> dbg \<Rightarrow> (int \<times> dbg) option" where
  "debug_ioctl K cmd D =
     map_option (Pair 0)
       (if cmd = IOCTL_RAW_WRITE then do_raw_write_test K 0x58 D
        else if cmd = IOCTL_RAW_READ then do_raw_read_test K D
        else if cmd = IOCTL_DUMP_MSG_ON then Some (upd_cdev (\<lambda>c. c\<lparr>dc_dump_ctl := 1\<rparr>) D)
        else if cmd = IOCTL_DUMP_MSG_OFF then Some (upd_cdev (\<lambda>c. c\<lparr>dc_dump_ctl := 0\<rparr>) D)
        else if cmd = IOCTL_HACK_CTL_ON then Some (upd_cdev (\<lambda>c. c\<lparr>dc_hack_ctl := 1\<rparr>) D)
        else if cmd = IOCTL_HACK_CTL_OFF then Some (upd_cdev (\<lambda>c. c\<lparr>dc_hack_ctl := 0\<rparr>) D)
        else if cmd = IOCTL_HOLD_IC_ON then Some (set_hold True D)
        else if cmd = IOCTL_HOLD_IC_OFF then Some (set_hold False D)
        else Some D)"

definition debug_mmap :: "'k genv_scheme \<Rightarrow> u64 \<Rightarrow> u64 \<Rightarrow> dbg \<Rightarrow> int \<times> dbg" where
  "debug_mmap K vm_start vm_end D =
     (let size = vm_end - vm_start;
          info_len = (of_int (dc_info_len (dg_cdev D)) :: u64);
          size = (if info_len \<le> size then info_len else size)
      in if remap_pfn_range K \<noteq> 0 then (-1, D)
         else (0, logd (Remap vm_start (drop_bit 12 (virt_to_phys K (dc_info_buf (dg_cdev D)))) size) D))"

subsection \<open>Creating and deleting the device\<close>

text \<open>\<open>device_destroy\<close> looks the device up and does nothing if there is none.\<close>

definition free_resource :: "dbg \<Rightarrow> dbg" where
  "free_resource D =
     (let c = dg_cdev D;
          D = (case dc_buf c of Some b \<Rightarrow> logd (Gave (D_mem b)) D | None \<Rightarrow> D)
      in if dc_class c \<noteq> Null_ptr \<and> dc_cdevno c \<noteq> 0
         then let D = (if 0 < dheld (D_device (dc_cdevno c)) D then logd (Gave (D_device (dc_cdevno c))) D else D)
              in logd (Gave (D_region (dc_cdevno c))) (logd (Gave (D_class (dc_class c))) D)
         else D)"

definition delete_debug_cdev :: "dbg \<Rightarrow> dbg" where
  "delete_debug_cdev D = free_resource D"

text \<open>
  Creation step by step. \<open>class_create\<close> reports failure by an error pointer, which the test
  for \<open>NULL\<close> lets pass: \<open>device_create\<close> then dereferences it. A device that could not be
  created is not noticed either.
\<close>

definition add_class :: "'k genv_scheme \<Rightarrow> nat \<Rightarrow> dbg \<Rightarrow> dbg" where
  "add_class K no D =
     (let D = upd_cdev (\<lambda>c. c\<lparr>dc_cdevno := no\<rparr>) (logd (Got (D_region no)) D);
          D = upd_cdev (\<lambda>c. c\<lparr>dc_class := class_create K\<rparr>) D
      in case class_create K of Ptr _ \<Rightarrow> logd (Got (D_class (class_create K))) D | _ \<Rightarrow> D)"

definition add_device :: "'k genv_scheme \<Rightarrow> nat \<Rightarrow> dbg \<Rightarrow> dbg" where
  "add_device K no D = (case device_create K of Ptr _ \<Rightarrow> logd (Got (D_device no)) D | _ \<Rightarrow> D)"

definition add_buffer :: "'k genv_scheme \<Rightarrow> dbg \<Rightarrow> dbg" where
  "add_buffer K D =
     (let D = upd_cdev (\<lambda>c. c\<lparr>dc_buf_size := BUF_LENGTH, dc_buf := kcalloc_buf K\<rparr>) D
      in case kcalloc_buf K of Some b \<Rightarrow> logd (Got (D_mem b)) D | None \<Rightarrow> D)"

definition add_info :: "u64 \<Rightarrow> int \<Rightarrow> dbg \<Rightarrow> dbg" where
  "add_info info_buf info_len D =
     (let D = (if info_buf \<noteq> 0 \<and> info_len \<noteq> 0
               then upd_cdev (\<lambda>c. c\<lparr>dc_info_buf := info_buf, dc_info_len := info_len\<rparr>) D else D)
      in set_hold False (upd_cdev (\<lambda>c. c\<lparr>dc_dump_ctl := 0, dc_hack_ctl := 0\<rparr>) D))"

definition create_debug_cdev :: "'k genv_scheme \<Rightarrow> u64 \<Rightarrow> int \<Rightarrow> dbg \<Rightarrow> (int \<times> dbg) option" where
  "create_debug_cdev K info_buf info_len D =
     (let (rv, no) = alloc_chrdev_region K
      in if rv < 0 then Some (- ENOMEM, D)
      else let D = add_class K no D
      in case class_create K of
           Null_ptr \<Rightarrow> Some (- ENOMEM, free_resource D)
         | Err_ptr _ \<Rightarrow> None
         | Ptr _ \<Rightarrow>
           if device_create K = Null_ptr then Some (- ENOMEM, free_resource D)
           else let D = add_buffer K (add_device K no D)
           in if kcalloc_buf K = None then Some (- ENOMEM, free_resource D)
           else let D = add_info info_buf info_len D
           in if cdev_add K \<noteq> 0 then Some (- ENOMEM, free_resource D)
              else Some (0, logd (Got (D_cdev no)) D))"

subsection \<open>What is held\<close>

lemma dheld_logd [simp]:
  "dheld r (logd x D) = dheld r D + (if x = Got r then 1 else 0) - (if x = Gave r then 1 else 0)"
  by (simp add: dheld_def logd_def)

lemma dheld_frame [simp]:
  "dheld r (upd_cdev f D) = dheld r D" "dheld r (upd_drv g D) = dheld r D" "dheld r (set_hold b D) = dheld r D"
  "dheld r (D\<lparr>dg_user := u\<rparr>) = dheld r D"
  by (simp_all add: dheld_def upd_cdev_def upd_drv_def set_hold_def)

lemma dbg_fields [simp]:
  "dg_cdev (logd x D) = dg_cdev D" "dg_net (logd x D) = dg_net D" "dg_user (logd x D) = dg_user D"
  "dg_cdev (upd_cdev f D) = f (dg_cdev D)" "dg_net (upd_cdev f D) = dg_net D"
  "dg_cdev (upd_drv g D) = dg_cdev D" "n_adapter (dg_net (upd_drv g D)) = n_adapter (dg_net D)"
  "n_drv (dg_net (upd_drv g D)) = g (n_drv (dg_net D))"
  "dg_cdev (set_hold b D) = dg_cdev D" "ad_hold_ic_ctl (n_adapter (dg_net (set_hold b D))) = b"
  by (simp_all add: logd_def upd_cdev_def upd_drv_def set_hold_def)

lemma dma_xfer_data_held:
  assumes "dma_xfer_data K pos buf len is_h2c D = Some (res, D')"
  shows "dheld r D' = dheld r D +
    (if r = D_sgt (new_sgt K) \<and> kzalloc_sgt K \<and> debug_pages buf len = 0 then 1 else 0)"
  using assms
  by (auto simp: dma_xfer_data_def Let_def split: if_splits option.splits)

text \<open>Counts and offsets below \<open>2 ^ 31\<close> are not changed by the conversions to \<open>int\<close>.\<close>

lemma small_sint:
  assumes "uint (w :: u64) < 2 ^ 31"
  shows "sint w = uint w" and "c_int (uint w) = uint w"
proof -
  have le: "- (2 ^ 63) \<le> uint w" "- (2 ^ 31) \<le> uint w" "uint w < 2 ^ 63"
    using assms by (auto intro: order_trans [OF _ uint_ge_0])
  show "sint w = uint w"
    unfolding sint_uint using signed_take_bit_int_eq_self [OF le(1,3)] by simp
  show "c_int (uint w) = uint w"
    using signed_take_bit_int_eq_self [OF le(2) assms] by (simp only: c_int_def)
qed

lemma unat_less_uint: "uint (w :: u64) < 2 ^ 31 \<Longrightarrow> unat w < 2 ^ 31"
  unfolding uint_nat by (metis of_nat_less_iff of_nat_numeral of_nat_power)

lemma debug_pages_eq:
  assumes "uint (w :: u64) < 2 ^ 31"
  shows "debug_pages buf (uint w) = pages_nr buf (ucast w)"
proof -
  have "unat (ucast w :: u32) = unat w"
    using unat_less_uint [OF assms] by (simp add: unsigned_ucast_eq take_bit_nat_eq_self_iff)
  then have "(ucast (ucast w :: u32) :: u64) = w" by (simp add: word_unat_eq_iff)
  then show ?thesis by (simp add: debug_pages_def pages_nr_def)
qed

lemma debug_pages_nonzero:
  assumes "w \<noteq> 0" and "uint (w :: u64) < 2 ^ 31"
  shows "debug_pages buf (uint w) \<noteq> 0"
proof -
  have "unat (ucast w :: u32) = unat w" "unat w \<noteq> 0"
    using unat_less_uint [OF assms(2)] assms(1) by (simp_all add: unsigned_ucast_eq take_bit_nat_eq_self_iff unat_eq_0)
  then have "0 < unat (pages_nr buf (ucast w))" by (simp add: unat_pages_nr div_greater_zero_iff)
  then show ?thesis using debug_pages_eq [OF assms(2), of buf] by auto
qed

subsection \<open>Properties\<close>

text \<open>
  C31: The memory of reading and writing. A read that gets its buffer gives back all it took
  unless the user's memory cannot be written, when it keeps the buffer. A write that is
  let through keeps its buffer on every path: each write to the device leaks \<open>count\<close> bytes.
  Nothing else is kept, and both report success and move the file position whatever the
  result of the transfer was.
\<close>

theorem debug_rw_memory:
  assumes "kzalloc K count = Some buf" and "count \<noteq> 0" and "uint count < 2 ^ 31"
  shows "(debug_read K count f D = Some (rv, f', D') \<longrightarrow>
       dheld r D' = dheld r D + (if r = D_mem buf \<and> copy_to_user_fails K count then 1 else 0) \<and>
       (if copy_to_user_fails K count then rv = - EFAULT \<and> f' = f
        else rv = uint count \<and> f_offset f' = f_offset f + count)) \<and>
     (debug_write K src count f D = Some (rv, f', D') \<and> f_offset f + count \<le> of_int (dc_buf_size (dg_cdev D)) \<longrightarrow>
       dheld r D' = dheld r D + (if r = D_mem buf then 1 else 0) \<and>
       (if copy_from_user_fails K count then rv = - EFAULT \<and> f' = f
        else rv = uint count \<and> f_offset f' = f_offset f + count))"
proof -
  note c = small_sint [OF assms(3)]
  define D1 where "D1 = logd (Got (D_mem buf)) D"
  have held: "dheld r D2 = dheld r D1" if "dma_xfer_data K pos buf (uint count) w D1 = Some (res, D2)" for pos w D1 D2 res
    using dma_xfer_data_held [OF that] debug_pages_nonzero [OF assms(2,3)] by simp
  have D1: "dheld r D1 = dheld r D + (if r = D_mem buf then 1 else 0)" by (simp add: D1_def)
  show ?thesis
  proof (intro conjI impI)
    assume a: "debug_read K count f D = Some (rv, f', D')"
    obtain res D2 where d: "dma_xfer_data K (c_int (sint (f_offset f))) buf (uint count) False D1 = Some (res, D2)"
      using a assms(1) by (cases "dma_xfer_data K (c_int (sint (f_offset f))) buf (uint count) False D1")
        (auto simp: debug_read_def c D1_def [symmetric])
    show "dheld r D' = dheld r D + (if r = D_mem buf \<and> copy_to_user_fails K count then 1 else 0)"
      and "if copy_to_user_fails K count then rv = - EFAULT \<and> f' = f else rv = uint count \<and> f_offset f' = f_offset f + count"
      using a assms(1) d held [OF d] D1 by (auto simp: debug_read_def c D1_def [symmetric] split: if_splits)
  next
    assume a: "debug_write K src count f D = Some (rv, f', D') \<and> f_offset f + count \<le> of_int (dc_buf_size (dg_cdev D))"
    let ?D = "upd_drv (tell (Mem_write buf (take (unat count) src))) D1"
    have eq: "debug_write K src count f D =
        (if copy_from_user_fails K count then Some (- EFAULT, f, D1)
         else case dma_xfer_data K (c_int (sint (f_offset f))) buf (uint count) True ?D of
                None \<Rightarrow> None | Some (res, D) \<Rightarrow> Some (sint count, f\<lparr>f_offset := f_offset f + count\<rparr>, D))"
      using conjunct2 [OF a] assms(1) by (simp add: debug_write_def c D1_def [symmetric] Let_def flip: not_less)
    show "dheld r D' = dheld r D + (if r = D_mem buf then 1 else 0)"
      and "if copy_from_user_fails K count then rv = - EFAULT \<and> f' = f else rv = uint count \<and> f_offset f' = f_offset f + count"
      using a D1 unfolding eq
      by (cases "dma_xfer_data K (c_int (sint (f_offset f))) buf (uint count) True ?D"; auto simp: c dest: held split: if_splits)+
  qed
qed

text \<open>Offsets from \<open>2 ^ 31\<close> on become negative.\<close>

lemma large_sint:
  assumes "2147483648 \<le> uint (w :: u64)" and "uint w < 4294967296"
  shows "c_int (sint w) = uint w - 4294967296"
proof -
  have "- (2 ^ 63) \<le> uint w" "uint w < 2 ^ 63" using assms by simp_all
  then have "sint w = uint w"
    unfolding sint_uint using signed_take_bit_int_eq_self [of 63 "uint w"] by simp
  moreover have "(uint w + 2147483648 - 4294967296) mod 4294967296 = uint w + 2147483648 - 4294967296"
    by (rule mod_pos_pos_trivial) (use assms in simp_all)
  then have "(uint w + 2147483648) mod 4294967296 = uint w + 2147483648 - 4294967296"
    by (simp only: minus_mod_self2)
  ultimately show ?thesis by (simp add: c_int_def signed_take_bit_eq_take_bit_shift take_bit_eq_mod)
qed

text \<open>
  C32: The bounds of the character device, with the buffer size that creation sets. A write
  whose position and count do not overflow together (the kernel hands over a position that is
  not negative and less than \<open>2 ^ 31\<close> bytes) and that is let through has an offset and a count
  that the conversions to \<open>int\<close> keep, and stays inside the first 32 KiB of the DMA memory,
  which lie in the share of host 0 (and so in its packets). The test itself does not look for an
  overflow: a position and a count that wrap around to a small sum are let through to the
  transfer. A read has no test at all: at every position from \<open>2 ^ 31\<close> up to \<open>2 ^ 32\<close> the
  transfer is started with a negative position, whose end point address lies in the last 2 GiB
  of the address space, and its result is reported as success.
\<close>

theorem debug_write_bounds:
  assumes "dc_buf_size (dg_cdev D) = BUF_LENGTH"
  shows "(unat (f_offset f) + unat count < 2 ^ 64 \<and> debug_write K src count f D = Some (rv, f', D') \<and> rv \<noteq> - EINVAL \<longrightarrow>
      c_int (sint (f_offset f)) = uint (f_offset f) \<and> c_int (sint count) = uint count \<and>
      uint (f_offset f) + uint count \<le> BUF_LENGTH \<and> BUF_LENGTH \<le> AGENT_TOTAL_DMA_SIZE) \<and>
    (2 ^ 64 \<le> unat (f_offset f) + unat count \<and> unat (f_offset f) + unat count \<le> 2 ^ 64 + nat BUF_LENGTH \<and>
        kzalloc K count = Some buf \<and> \<not> copy_from_user_fails K count \<longrightarrow>
      debug_write K src count f D =
        (case dma_xfer_data K (c_int (sint (f_offset f))) buf (c_int (sint count)) True
            (upd_drv (tell (Mem_write buf (take (unat count) src))) (logd (Got (D_mem buf)) D)) of
           None \<Rightarrow> None
         | Some (res, D2) \<Rightarrow> Some (sint count, f\<lparr>f_offset := f_offset f + count\<rparr>, D2))) \<and>
    (2 ^ 31 \<le> uint (f_offset f) \<and> uint (f_offset f) < 2 ^ 32 \<and> kzalloc K count = Some buf \<and>
        \<not> copy_to_user_fails K count \<longrightarrow>
      debug_read K count f D =
        (case dma_xfer_data K (uint (f_offset f) - 2 ^ 32) buf (c_int (sint count)) False (logd (Got (D_mem buf)) D) of
           None \<Rightarrow> None
         | Some (res, D2) \<Rightarrow> Some (sint count, f\<lparr>f_offset := f_offset f + count\<rparr>,
             logd (Gave (D_mem buf)) (D2\<lparr>dg_user := host_mem K (n_drv (dg_net D2)) buf (sint count)\<rparr>))) \<and>
      0xFFFFFFFF80000000 \<le> (of_int (uint (f_offset f) - 2 ^ 32) :: u64))"
proof (intro conjI impI)
  assume w: "unat (f_offset f) + unat count < 2 ^ 64 \<and> debug_write K src count f D = Some (rv, f', D') \<and> rv \<noteq> - EINVAL"
  then have "\<not> of_int BUF_LENGTH < f_offset f + count"
    using assms by (auto simp: debug_write_def split: if_splits)
  then have "unat (f_offset f + count) \<le> 32768" by (simp add: BUF_LENGTH_def word_less_nat_alt)
  then have le: "unat (f_offset f) + unat count \<le> 32768" using w by (simp add: unat_add_small)
  then have u: "uint (f_offset f) + uint count \<le> 32768"
    unfolding uint_nat by (metis of_nat_add of_nat_le_iff of_nat_numeral)
  then have "uint (f_offset f) < 2147483648" "uint count < 2147483648"
    using uint_ge_0 [of count] uint_ge_0 [of "f_offset f"] by linarith+
  then have "uint (f_offset f) < 2 ^ 31" "uint count < 2 ^ 31" by simp_all
  from small_sint [OF this(1)] small_sint [OF this(2)]
  show "c_int (sint (f_offset f)) = uint (f_offset f)" "c_int (sint count) = uint count" by simp_all
  show "uint (f_offset f) + uint count \<le> BUF_LENGTH" "BUF_LENGTH \<le> AGENT_TOTAL_DMA_SIZE"
    using u by (simp_all add: BUF_LENGTH_def)
next
  assume w: "2 ^ 64 \<le> unat (f_offset f) + unat count \<and> unat (f_offset f) + unat count \<le> 2 ^ 64 + nat BUF_LENGTH \<and>
    kzalloc K count = Some buf \<and> \<not> copy_from_user_fails K count"
  have "unat (f_offset f + count) = unat (f_offset f) + unat count - 2 ^ 64"
    using w by (auto simp: unat_word_ariths BUF_LENGTH_def mod_if)
  then have "unat (f_offset f + count) \<le> 32768" using w by (auto simp: BUF_LENGTH_def)
  then have "\<not> of_int (dc_buf_size (dg_cdev D)) < f_offset f + count"
    by (simp add: assms BUF_LENGTH_def word_less_nat_alt)
  then show "debug_write K src count f D =
        (case dma_xfer_data K (c_int (sint (f_offset f))) buf (c_int (sint count)) True
            (upd_drv (tell (Mem_write buf (take (unat count) src))) (logd (Got (D_mem buf)) D)) of
           None \<Rightarrow> None
         | Some (res, D2) \<Rightarrow> Some (sint count, f\<lparr>f_offset := f_offset f + count\<rparr>, D2))"
    using w by (simp add: debug_write_def Let_def)
next
  assume r: "2 ^ 31 \<le> uint (f_offset f) \<and> uint (f_offset f) < 2 ^ 32 \<and> kzalloc K count = Some buf \<and>
    \<not> copy_to_user_fails K count"
  then have pos: "c_int (sint (f_offset f)) = uint (f_offset f) - 2 ^ 32" using large_sint [of "f_offset f"] by simp
  show "debug_read K count f D =
        (case dma_xfer_data K (uint (f_offset f) - 2 ^ 32) buf (c_int (sint count)) False (logd (Got (D_mem buf)) D) of
           None \<Rightarrow> None
         | Some (res, D2) \<Rightarrow> Some (sint count, f\<lparr>f_offset := f_offset f + count\<rparr>,
             logd (Gave (D_mem buf)) (D2\<lparr>dg_user := host_mem K (n_drv (dg_net D2)) buf (sint count)\<rparr>)))"
    using r by (simp add: debug_read_def pos split: option.split)
  have m: "(uint (f_offset f) - 2 ^ 32 + 2 ^ 64) mod 2 ^ 64 = uint (f_offset f) - 2 ^ 32 + 2 ^ 64"
    by (rule mod_pos_pos_trivial) (use r in auto)
  have "uint (of_int (uint (f_offset f) - 2 ^ 32) :: u64) = (uint (f_offset f) - 2 ^ 32) mod 2 ^ 64"
    by (simp only: uint_word_of_int) simp
  also have "\<dots> = uint (f_offset f) - 2 ^ 32 + 2 ^ 64" using m by (simp only: mod_add_self2)
  finally have "uint (0xFFFFFFFF80000000 :: u64) \<le> uint (of_int (uint (f_offset f) - 2 ^ 32) :: u64)"
    using r by auto
  then show "0xFFFFFFFF80000000 \<le> (of_int (uint (f_offset f) - 2 ^ 32) :: u64)"
    by (simp only: word_le_def)
qed

lemma debug_free_held:
  "dheld r (free_resource D) = dheld r D - (if \<exists>b. dc_buf (dg_cdev D) = Some b \<and> r = D_mem b then 1 else 0) -
     (if dc_class (dg_cdev D) \<noteq> Null_ptr \<and> dc_cdevno (dg_cdev D) \<noteq> 0 \<and>
         (r = D_region (dc_cdevno (dg_cdev D)) \<or> r = D_class (dc_class (dg_cdev D)) \<or>
          r = D_device (dc_cdevno (dg_cdev D)) \<and> 0 < dheld r D) then 1 else 0)"
  by (auto simp: free_resource_def Let_def split: option.splits)

lemma add_held:
  "dheld r (add_class K no D) = dheld r D + (if r = D_region no then 1 else 0) +
     (if \<exists>q. class_create K = Ptr q \<and> r = D_class (Ptr q) then 1 else 0)"
  "dheld r (add_device K no D) = dheld r D + (if (\<exists>q. device_create K = Ptr q) \<and> r = D_device no then 1 else 0)"
  "dheld r (add_buffer K D) = dheld r D + (if \<exists>b. kcalloc_buf K = Some b \<and> r = D_mem b then 1 else 0)"
  "dheld r (add_info ib il D) = dheld r D"
  by (auto simp: add_class_def add_device_def add_buffer_def add_info_def Let_def split: kptr.split option.split)

lemma add_cdev:
  "dc_cdevno (dg_cdev (add_class K no D)) = no" "dc_class (dg_cdev (add_class K no D)) = class_create K"
  "dc_buf (dg_cdev (add_class K no D)) = dc_buf (dg_cdev D)" "dg_cdev (add_device K no D) = dg_cdev D"
  "dc_cdevno (dg_cdev (add_buffer K D)) = dc_cdevno (dg_cdev D)" "dc_class (dg_cdev (add_buffer K D)) = dc_class (dg_cdev D)"
  "dc_buf (dg_cdev (add_buffer K D)) = kcalloc_buf K"
  "dc_cdevno (dg_cdev (add_info ib il D)) = dc_cdevno (dg_cdev D)" "dc_class (dg_cdev (add_info ib il D)) = dc_class (dg_cdev D)"
  "dc_buf (dg_cdev (add_info ib il D)) = dc_buf (dg_cdev D)"
  by (simp_all add: add_class_def add_device_def add_buffer_def add_info_def Let_def split: kptr.split option.split)

lemma free_resource_cdev [simp]: "dg_cdev (free_resource D) = dg_cdev D"
  by (simp add: free_resource_def Let_def split: option.split)

text \<open>The ways creation can go once it has a device number.\<close>

lemma create_cases:
  assumes "create_debug_cdev K info_buf info_len D = Some (rv, D1)" and "alloc_chrdev_region K = (0, no)"
  obtains (no_class) "class_create K = Null_ptr" "rv = - ENOMEM" "D1 = free_resource (add_class K no D)"
  | (no_device) p where "class_create K = Ptr p" "device_create K = Null_ptr" "rv = - ENOMEM"
      "D1 = free_resource (add_class K no D)"
  | (no_buffer) p where "class_create K = Ptr p" "device_create K \<noteq> Null_ptr" "kcalloc_buf K = None" "rv = - ENOMEM"
      "D1 = free_resource (add_buffer K (add_device K no (add_class K no D)))"
  | (no_cdev) p b where "class_create K = Ptr p" "device_create K \<noteq> Null_ptr" "kcalloc_buf K = Some b" "rv = - ENOMEM"
      "D1 = free_resource (add_info info_buf info_len (add_buffer K (add_device K no (add_class K no D))))"
  | (created) p b where "class_create K = Ptr p" "device_create K \<noteq> Null_ptr" "kcalloc_buf K = Some b" "rv = 0"
      "D1 = logd (Got (D_cdev no)) (add_info info_buf info_len (add_buffer K (add_device K no (add_class K no D))))"
proof (cases "class_create K")
  case Null_ptr
  then show ?thesis using assms no_class by (simp add: create_debug_cdev_def)
next
  case (Err_ptr x)
  then show ?thesis using assms by (simp add: create_debug_cdev_def)
next
  case (Ptr p)
  then show ?thesis using assms no_device [OF Ptr] no_buffer [OF Ptr] no_cdev [OF Ptr] created [OF Ptr]
    by (auto simp: create_debug_cdev_def Let_def split: if_splits)
qed


text \<open>
  The hold control. After the command that switches it on, transmitting returns at once
  without sending or freeing the buffer and a poll receives nothing, whatever is in the
  ring; the command that switches it off restores the driver exactly.
\<close>

lemma debug_hold_stops_traffic:
  assumes "\<not> ad_hold_ic_ctl (n_adapter (dg_net D))"
  shows "\<exists>D1. debug_ioctl K IOCTL_HOLD_IC_ON D = Some (0, D1) \<and>
    nupanet_xmit_frame K' frame (dg_net D1) = Returns (dg_net D1) \<and>
    nupanet_poll K' budget (dg_net D1) = Returns (0, False, dg_net D1) \<and>
    n_shm (dg_net D1) = n_shm (dg_net D) \<and> n_drv (dg_net D1) = n_drv (dg_net D) \<and>
    debug_ioctl K IOCTL_HOLD_IC_OFF D1 = Some (0, D)"
proof -
  let ?D = "set_hold True D"
  have "debug_ioctl K IOCTL_HOLD_IC_ON D = Some (0, ?D)" "debug_ioctl K IOCTL_HOLD_IC_OFF ?D = Some (0, set_hold False ?D)"
    by (simp_all add: debug_ioctl_def xdma_const)
  moreover have "set_hold False ?D = D" using assms by (simp add: set_hold_def)
  ultimately show ?thesis
    by (intro exI [of _ ?D]) (simp add: nupanet_xmit_frame_def nupanet_poll_def, simp add: set_hold_def)
qed

text \<open>
  Mapping the shared area into a process never maps more than the area: whatever the size
  of the range, at most \<open>info_len\<close> bytes are mapped.
\<close>

lemma debug_mmap_bounded:
  assumes "0 \<le> dc_info_len (dg_cdev D)" and "dc_info_len (dg_cdev D) < 2 ^ 31"
    and "debug_mmap K vm_start vm_end D = (0, D')"
  obtains pfn size where "dg_log D' = dg_log D @ [Remap vm_start pfn size]"
    and "uint size \<le> dc_info_len (dg_cdev D)"
proof -
  let ?l = "of_int (dc_info_len (dg_cdev D)) :: u64"
  let ?n = "if ?l \<le> vm_end - vm_start then ?l else vm_end - vm_start"
  have l: "uint ?l = dc_info_len (dg_cdev D)" using assms(1,2) by (simp add: uint_word_of_int mod_pos_pos_trivial)
  have "?n \<le> ?l" by auto
  then have "uint ?n \<le> uint ?l" by (simp only: word_le_def)
  then show ?thesis using assms(3) that l
    by (auto simp: debug_mmap_def Let_def logd_def split: if_splits)
qed

subsection \<open>Examples\<close>

text \<open>
  A kernel in which tables cannot be allocated and the user's memory is accessible for less
  than 100 bytes; everything that creation asks for succeeds.
\<close>

definition sample_genv :: genv where
  "sample_genv = nenv.extend sample_nenv \<lparr>kzalloc = (\<lambda>_. Some 0x2000),
     copy_to_user_fails = (\<lambda>n. 100 \<le> n), copy_from_user_fails = (\<lambda>n. 100 \<le> n), alloc_chrdev_region = (0, 240),
     class_create = Ptr 1, device_create = Ptr 2, kcalloc_buf = Some 0x3000, cdev_add = 0,
     virt_to_phys = id, remap_pfn_range = 0\<rparr>"

definition sample_dbg :: dbg where
  "sample_dbg = \<lparr>dg_net = sample_net, dg_cdev = zero_cdev\<lparr>dc_buf_size := BUF_LENGTH\<rparr>, dg_log = [], dg_user = []\<rparr>"

definition sample_file :: dfile where
  "sample_file = \<lparr>f_private = True, f_offset = 0\<rparr>"

lemmas sample_debug = sample_genv_def sample_nenv_def nenv.extend_def sample_dbg_def sample_file_def

lemma sample_debug_write:
  "\<exists>D'. debug_write sample_genv [7, 8] 2 sample_file sample_dbg = Some (2, \<lparr>f_private = True, f_offset = 2\<rparr>, D')"
  by (simp add: debug_write_def dma_xfer_data_def debug_pages_def c_int_def BUF_LENGTH_def Let_def sample_debug)

theorem debug_rw_memory_witness:
  "\<exists>D'. debug_write sample_genv [7, 8] 2 sample_file sample_dbg = Some (2, \<lparr>f_private = True, f_offset = 2\<rparr>, D') \<and>
     dheld (D_mem 0x2000) D' = 1"
proof -
  obtain D' where D': "debug_write sample_genv [7, 8] 2 sample_file sample_dbg
      = Some (2, \<lparr>f_private = True, f_offset = 2\<rparr>, D')"
    using sample_debug_write by blast
  have "dheld (D_mem 0x2000) sample_dbg = 0" by (simp add: dheld_def sample_dbg_def)
  moreover have "f_offset sample_file + 2 \<le> of_int (dc_buf_size (dg_cdev sample_dbg))" "kzalloc sample_genv 2 = Some 0x2000"
    by (simp_all add: sample_debug BUF_LENGTH_def)
  ultimately show ?thesis
    using debug_rw_memory [where K = sample_genv and count = 2 and buf = "0x2000" and f = sample_file and D = sample_dbg
        and rv = 2 and f' = "\<lparr>f_private = True, f_offset = 2\<rparr>" and D' = D' and r = "D_mem 0x2000" and src = "[7, 8]"] D'
    by simp
qed

theorem debug_write_bounds_witness:
  "\<exists>D'. debug_write sample_genv [7, 8] 2 sample_file sample_dbg = Some (2, \<lparr>f_private = True, f_offset = 2\<rparr>, D') \<and>
     uint (f_offset sample_file) + uint (2 :: u64) \<le> BUF_LENGTH"
proof -
  obtain D' where D': "debug_write sample_genv [7, 8] 2 sample_file sample_dbg
      = Some (2, \<lparr>f_private = True, f_offset = 2\<rparr>, D')"
    using sample_debug_write by blast
  have "dc_buf_size (dg_cdev sample_dbg) = BUF_LENGTH" "unat (f_offset sample_file) + unat (2 :: u64) < 2 ^ 64"
    by (simp_all add: sample_debug)
  from debug_write_bounds [OF this(1), where f = sample_file and count = 2 and K = sample_genv and src = "[7, 8]"
      and rv = 2 and f' = "\<lparr>f_private = True, f_offset = 2\<rparr>" and D' = D'] this(2) D'
  show ?thesis by (simp add: EINVAL_def)
qed


end
