(* ===== verification/Xdma_Poll.thy ===== *)
theory Xdma_Poll
  imports Xdma_Service
begin

text \<open>
  Polled mode: \<open>engine_service_wb_monitor\<close> watches the writeback word of an engine, which
  the hardware overwrites by DMA, and \<open>engine_service_poll\<close> services the engine with what
  it finds. What happens during the loop is a parameter: \<open>wb_store i\<close> is what the hardware
  stores in the word before the loop reads it for the \<open>i\<close>-th time (\<open>None\<close>: nothing), and
  \<open>wb_expired i\<close> says whether \<open>jiffies\<close> has passed the deadline when the loop tests it in
  round \<open>i\<close>. The loop ends only when one of its exits is taken, so it is a partial
  function; \<open>schedule ()\<close>, which it calls every hundred rounds, has no effect on the state.
\<close>

subsection \<open>The monitor\<close>

record wbenv =
  wb_store :: "nat \<Rightarrow> u32 option"
  wb_expired :: "nat \<Rightarrow> bool"

definition wb_read :: "wbenv \<Rightarrow> nat \<Rightarrow> u32 \<Rightarrow> u32" where
  "wb_read W i word = (case wb_store W i of None \<Rightarrow> word | Some v \<Rightarrow> v)"

partial_function (option) wb_loop :: "wbenv \<Rightarrow> u32 \<Rightarrow> nat \<Rightarrow> u32 \<Rightarrow> (u32 \<times> u32) option" where
  "wb_loop W expected_wb i word =
     (let desc_wb = wb_read W i word;
          word = (if desc_wb \<noteq> 0 then 0 else desc_wb)
      in if desc_wb AND WB_ERR_MASK \<noteq> 0 then Some (desc_wb, word)
      else if expected_wb \<le> desc_wb then Some (desc_wb, word)
      else if wb_expired W i
      then Some (if expected_wb < desc_wb AND WB_COUNT_MASK
                 then expected_wb OR WB_ERR_MASK else desc_wb, word)
      else wb_loop W expected_wb (Suc i) word)"

declare wb_loop.simps [code]

definition engine_service_wb_monitor ::
  "wbenv \<Rightarrow> eng_id option \<Rightarrow> u32 \<Rightarrow> drv \<Rightarrow> (u32 \<times> drv) option" where
  "engine_service_wb_monitor W engine expected_wb s =
     (case engine of None \<Rightarrow> Some (- (word_of_int EINVAL), s)
      | Some e \<Rightarrow>
        if expected_wb = 0 then Some (0, s)
        else (case wb_loop W expected_wb 0 (the (e_poll_mode_addr_virt (engs s e))) of
                None \<Rightarrow> None
              | Some (desc_wb, word) \<Rightarrow>
                  Some (desc_wb, upd_eng e (\<lambda>g. g\<lparr>e_poll_mode_addr_virt := Some word\<rparr>) s)))"

definition engine_service_poll ::
  "'k kenv_scheme \<Rightarrow> wbenv \<Rightarrow> eng_id option \<Rightarrow> u32 \<Rightarrow> drv \<Rightarrow> (int \<times> drv) option" where
  "engine_service_poll K W engine expected_desc_count s =
     (case engine of None \<Rightarrow> Some (- EINVAL, s)
      | Some e \<Rightarrow>
        if e_magic (engs s e) \<noteq> MAGIC_ENGINE then Some (- EINVAL, s)
        else (case engine_service_wb_monitor W (Some e) expected_desc_count s of
                None \<Rightarrow> None
              | Some (desc_wb, s) \<Rightarrow>
                  if desc_wb = 0 then Some (0, s) else Some (engine_service K (Some e) desc_wb s)))"

subsection \<open>Exits of the loop\<close>

text \<open>A round is quiet when none of the exits is taken.\<close>

definition wb_quiet :: "wbenv \<Rightarrow> u32 \<Rightarrow> nat \<Rightarrow> u32 \<Rightarrow> bool" where
  "wb_quiet W expected_wb i word \<longleftrightarrow>
     wb_read W i word AND WB_ERR_MASK = 0 \<and> wb_read W i word < expected_wb \<and> \<not> wb_expired W i"

lemma count_mask_le: "w AND WB_COUNT_MASK \<le> (w :: u32)"
  by (rule word_and_le2)

lemma wb_loop_step:
  "wb_loop W x i word =
     (if wb_quiet W x i word then wb_loop W x (Suc i) 0
      else Some (wb_read W i word, 0))"
proof -
  have "\<not> x < w AND WB_COUNT_MASK" if "w < x" for w :: u32
    using count_mask_le [of w] that by auto
  then show ?thesis
    by (subst wb_loop.simps) (auto simp: wb_quiet_def Let_def not_le)
qed

lemma wb_loop_returns:
  assumes "wb_expired W n" and "i \<le> n"
  shows "\<exists>r. wb_loop W x i word = Some r"
  using assms(2)
proof (induction "n - i" arbitrary: i word)
  case 0
  then show ?case using assms(1) by (subst wb_loop_step) (simp add: wb_quiet_def)
next
  case (Suc k)
  then have "wb_quiet W x i word \<Longrightarrow> \<exists>r. wb_loop W x (Suc i) 0 = Some r" by simp
  then show ?case by (subst wb_loop_step) simp
qed


text \<open>Where the loop stops and with what, as a function of the rounds before.\<close>

lemma wb_loop_exit:
  assumes "\<forall>k. i \<le> k \<and> k < j \<longrightarrow> wb_quiet W x k (if k = i then word else 0)" and "i \<le> j"
    and "\<not> wb_quiet W x j (if j = i then word else 0)"
  shows "wb_loop W x i word = Some (wb_read W j (if j = i then word else 0), 0)"
  using assms
proof (induction "j - i" arbitrary: i word)
  case 0
  then show ?case by (subst wb_loop_step) simp
next
  case (Suc d)
  then have less: "i < j" by simp
  have "wb_quiet W x k 0" if "Suc i \<le> k" "k < j" for k
    using Suc.prems(1) that by (metis Suc_leD Suc_n_not_le_n)
  moreover have "\<not> wb_quiet W x j 0" using Suc.prems(3) less by simp
  ultimately have "wb_loop W x (Suc i) 0 = Some (wb_read W j 0, 0)"
    using Suc.hyps(1) [of "Suc i" 0] Suc.hyps(2) less by simp
  moreover have "wb_quiet W x i word" using Suc.prems(1) less by (metis order_refl)
  ultimately show ?case using less by (subst wb_loop_step) simp
qed

definition wb_stop :: "wbenv \<Rightarrow> u32 \<Rightarrow> nat \<Rightarrow> u32 \<Rightarrow> bool" where
  "wb_stop W x j word \<longleftrightarrow> \<not> wb_quiet W x j (if j = 0 then word else 0) \<and>
     (\<forall>k<j. wb_quiet W x k (if k = 0 then word else 0))"

lemma wb_loop_stop:
  "wb_stop W x j word \<Longrightarrow> wb_loop W x 0 word = Some (wb_read W j (if j = 0 then word else 0), 0)"
  by (rule wb_loop_exit) (auto simp: wb_stop_def)

lemma wb_stop_exists:
  assumes "wb_expired W n"
  obtains j where "wb_stop W x j word" and "j \<le> n"
proof -
  define P where "P k \<longleftrightarrow> \<not> wb_quiet W x k (if k = 0 then word else 0)" for k
  have n: "P n" using assms by (simp add: wb_quiet_def P_def)
  have "P (LEAST k. P k)" by (rule LeastI [of P, OF n])
  moreover have "\<forall>k<LEAST k. P k. \<not> P k" using not_less_Least by blast
  ultimately have "wb_stop W x (LEAST k. P k) word" by (simp add: wb_stop_def P_def)
  then show ?thesis using that Least_le [of P, OF n] by blast
qed

subsection \<open>Properties\<close>

text \<open>
  C22: The monitor returns once the deadline passes, and what it returns is exactly what it
  read in the round in which it stopped: the first round in which the word carries the
  error flag or a sufficient count, or in which the deadline has passed. The word is left
  cleared. In particular the error flag is set in the result only when the hardware set
  it: the branch that is meant to turn a timeout into an error is never taken.
\<close>

theorem monitor_returns:
  assumes "x \<noteq> 0" and "e_poll_mode_addr_virt (engs s e) = Some word" and "wb_expired W n"
  shows "\<exists>j v. j \<le> n \<and> v = wb_read W j (if j = 0 then word else 0) \<and>
    (v AND WB_ERR_MASK \<noteq> 0 \<or> x \<le> v \<or> wb_expired W j) \<and>
    (\<forall>k<j. wb_quiet W x k (if k = 0 then word else 0)) \<and>
    engine_service_wb_monitor W (Some e) x s =
      Some (v, upd_eng e (\<lambda>g. g\<lparr>e_poll_mode_addr_virt := Some 0\<rparr>) s)"
proof -
  obtain j where j: "wb_stop W x j word" "j \<le> n" using wb_stop_exists [OF assms(3)] by blast
  let ?v = "wb_read W j (if j = 0 then word else 0)"
  have "?v AND WB_ERR_MASK \<noteq> 0 \<or> x \<le> ?v \<or> wb_expired W j"
    using j(1) by (auto simp: wb_stop_def wb_quiet_def)
  moreover have "engine_service_wb_monitor W (Some e) x s =
      Some (?v, upd_eng e (\<lambda>g. g\<lparr>e_poll_mode_addr_virt := Some 0\<rparr>) s)"
    using wb_loop_stop [OF j(1)] assms(1,2) by (simp add: engine_service_wb_monitor_def)
  moreover have "\<forall>k<j. wb_quiet W x k (if k = 0 then word else 0)"
    using j(1) by (simp add: wb_stop_def)
  ultimately show ?thesis using j(2) by blast
qed

text \<open>The deadline has passed in the first round; one descriptor of four is reported.\<close>

definition sample_wb :: "u32 option \<Rightarrow> wbenv" where
  "sample_wb v = \<lparr>wb_store = (\<lambda>i. if i = 0 then v else None), wb_expired = (\<lambda>i. True)\<rparr>"

definition sample_polled :: drv where
  "sample_polled = upd_eng (0, H2C, 0) (\<lambda>g. g\<lparr>e_poll_mode_addr_virt := Some 1\<rparr>) sample_busy"

theorem monitor_returns_witness:
  "engine_service_wb_monitor (sample_wb None) (Some (0, H2C, 0)) 4 sample_polled =
     Some (1, upd_eng (0, H2C, 0) (\<lambda>g. g\<lparr>e_poll_mode_addr_virt := Some 0\<rparr>) sample_polled)"
  using monitor_returns [of 4 sample_polled "(0, H2C, 0)" 1 "sample_wb None" 0]
  by (simp add: wb_read_def sample_wb_def sample_polled_def)

lemma service_entry_count:
  assumes "c AND WB_COUNT_MASK \<noteq> 0" and "c AND WB_ERR_MASK = 0"
  shows "\<exists>s1. service_entry K e c s = (0, c AND WB_COUNT_MASK, s1) \<and>
    e_status (engs s1 e) = e_status (engs s e) \<and> e_dir (engs s1 e) = e_dir (engs s e)"
  using assms
  by (simp add: service_entry_def Let_def case_prod_unfold engine_service_shutdown_def
      xdma_engine_stop_def)

text \<open>
  C17: Polling refines the service specification. If the hardware stores a count of at
  least the expected number of descriptors before the deadline, then a poll of a running
  engine returns, with 0, after exactly the transfers have left the queue that
  \<open>service_spec\<close> lists for that count, in their order and each woken once, and the engine
  keeps running if and only if transfers are still queued. As for the service of an engine by
  interrupt, this is without an error in the word or the status, without the flush at the end of a
  packet, and without cyclic transfers in the queue.
\<close>

theorem poll_refines_spec:
  assumes "e_magic (engs s e) = MAGIC_ENGINE" and "x \<noteq> 0"
    and "e_poll_mode_addr_virt (engs s e) = Some word"
    and "\<forall>k<j. wb_quiet W x k (if k = 0 then word else 0)"
    and "wb_store W j = Some c" and "x \<le> c" and "c AND WB_COUNT_MASK = c"
    and "e_running (engs s e)" and "\<not> e_eop_flush (engs s e)"
    and "distinct (e_transfer_list (engs s e))"
    and "\<forall>t\<in>set (e_transfer_list (engs s e)). \<not> x_cyclic (xfers s t)"
    and "\<not> status_error (engs s e)"
  shows "\<exists>s'. engine_service_poll K W (Some e) x s = Some (0, s') \<and>
    serviced e (e_transfer_list (engs s e))
      (service_spec (desc_nums s (e_transfer_list (engs s e)))
         (unat (c - e_desc_dequeued (engs s e)))) s s' \<and>
    (e_running (engs s' e) \<longleftrightarrow> e_transfer_list (engs s' e) \<noteq> [])"
proof -
  let ?s = "upd_eng e (\<lambda>g. g\<lparr>e_poll_mode_addr_virt := Some 0\<rparr>) s"
  have "c AND WB_ERR_MASK = c AND (WB_COUNT_MASK AND WB_ERR_MASK)"
    using assms(7) by (metis and.assoc)
  then have c: "c \<noteq> 0" "c AND WB_ERR_MASK = 0"
    using assms(2,6) by (auto simp: WB_COUNT_MASK_def WB_ERR_MASK_def)
  have stop: "wb_stop W x j word" "wb_read W j (if j = 0 then word else 0) = c"
    using assms(4-6) by (auto simp: wb_stop_def wb_quiet_def wb_read_def)
  have poll: "engine_service_poll K W (Some e) x s = Some (engine_service K (Some e) c ?s)"
    using wb_loop_stop [OF stop(1)] stop(2) c assms(1-3)
    by (simp add: engine_service_poll_def engine_service_wb_monitor_def)
  obtain s1 where entry: "service_entry K e c ?s = (0, c, s1)"
      "e_status (engs s1 e) = e_status (engs s e)" "e_dir (engs s1 e) = e_dir (engs s e)"
    using service_entry_count [of c K e ?s] c assms(7) by auto
  have "\<not> status_error (engs s1 e)" using assms(12) entry by (simp add: status_error_def)
  then have "serviced e (e_transfer_list (engs s e))
        (service_spec (desc_nums s (e_transfer_list (engs s e))) (unat (c - e_desc_dequeued (engs s e))))
        ?s (snd (engine_service K (Some e) c ?s)) \<and>
      (e_running (engs (snd (engine_service K (Some e) c ?s)) e) \<longleftrightarrow>
       e_transfer_list (engs (snd (engine_service K (Some e) c ?s)) e) \<noteq> [])"
    using engine_service_refines [where s = ?s and e = e and K = K, OF _ _ _ _ entry(1)] c assms(8-11)
    by (simp add: desc_nums_def)
  moreover have "fst (engine_service K (Some e) c ?s) = 0"
    using engine_service_result [OF _ entry(1) c(1)] assms(8) c(2) by simp
  ultimately show ?thesis
    unfolding poll by (intro exI [of _ "snd (engine_service K (Some e) c ?s)"])
      (simp add: serviced_def prod_eq_iff)
qed

theorem poll_refines_spec_witness:
  "\<exists>s'. engine_service_poll (sample_env 0) (sample_wb (Some 4)) (Some (0, H2C, 0)) 4 sample_polled =
       Some (0, s') \<and>
     serviced (0, H2C, 0) [1, 2] [TRANSFER_STATE_COMPLETED, TRANSFER_STATE_COMPLETED] sample_polled s' \<and>
     \<not> e_running (engs s' (0, H2C, 0))"
proof -
  let ?e = "(0, H2C, 0) :: eng_id"
  have q: "e_transfer_list (engs sample_polled ?e) = [1, 2]" "e_running (engs sample_polled ?e)"
    "\<not> e_eop_flush (engs sample_polled ?e)" "e_desc_dequeued (engs sample_polled ?e) = 0"
    "e_poll_mode_addr_virt (engs sample_polled ?e) = Some 1" "e_magic (engs sample_polled ?e) = MAGIC_ENGINE"
    "desc_nums sample_polled [1, 2] = [2, 2]" "\<forall>x. \<not> x_cyclic (xfers sample_polled x)"
    "\<not> status_error (engs sample_polled ?e)"
    by (simp_all add: sample_polled_def sample_busy_def desc_nums_def status_error_def
        sample_engine_def zero_engine_def)
  obtain s' where s': "engine_service_poll (sample_env 0) (sample_wb (Some 4)) (Some ?e) 4 sample_polled =
      Some (0, s')" "serviced ?e [1, 2] (service_spec [2, 2] 4) sample_polled s'"
      "e_running (engs s' ?e) \<longleftrightarrow> e_transfer_list (engs s' ?e) \<noteq> []"
    using poll_refines_spec [where s = sample_polled and e = ?e and x = 4 and word = 1 and j = 0
        and W = "sample_wb (Some 4)" and c = 4 and K = "sample_env 0"] q
    by (auto simp: sample_wb_def WB_COUNT_MASK_def)
  then show ?thesis by (auto simp: serviced_def)
qed

end
