(* ===== verification/Xdma_Thread.thy ===== *)
theory Xdma_Thread
  imports Xdma_Poll
begin

text \<open>
  The completion status threads of src/src/xdma_thread.c, used in polled mode. The array
  \<open>cs_threads\<close> and its length \<open>thread_cnt\<close> are fields of the driver state; a pointer to a
  thread is its index. Thread locks are not modelled: each of the functions below is atomic
  with respect to the work lists it changes.
\<close>

text \<open>
  The kernel's side: the online processors, whether the array can be allocated, which task
  (if any) \<open>kthread_create_on_node\<close> returns and what \<open>kthread_stop\<close> returns. The creation
  may depend on everything the driver has told the kernel so far.
\<close>

record tenv = kenv +
  online_cpus :: "nat list"
  kzalloc_threads :: "nat \<Rightarrow> bool"
  kthread_create_on_node :: "notice list \<Rightarrow> nat \<Rightarrow> nat option"
  kthread_stop :: "nat \<Rightarrow> int"

abbreviation thread_at :: "drv \<Rightarrow> nat \<Rightarrow> xdma_kthread" where
  "thread_at s i \<equiv> the (cs_threads s) ! i"

subsection \<open>Work items\<close>

definition xdma_thread_cmpl_status_pend :: "eng_id \<Rightarrow> drv \<Rightarrow> bool" where
  "xdma_thread_cmpl_status_pend e s \<longleftrightarrow> e_transfer_list (engs s e) \<noteq> []"

text \<open>
  \<open>list_entry\<close> never yields a null pointer, so the test in
  \<open>xdma_thread_cmpl_status_proc\<close> is vacuous: with an empty list it reads \<open>desc_cmpl_th\<close>
  from the engine structure itself. What it finds there is the parameter \<open>stray\<close>.
\<close>

definition xdma_thread_cmpl_status_proc ::
  "'k kenv_scheme \<Rightarrow> wbenv \<Rightarrow> u32 \<Rightarrow> eng_id \<Rightarrow> drv \<Rightarrow> (int \<times> drv) option" where
  "xdma_thread_cmpl_status_proc K W stray e s =
     (let desc_cmpl_th = (case e_transfer_list (engs s e) of [] \<Rightarrow> stray
                          | transfer # _ \<Rightarrow> x_desc_cmpl_th (xfers s transfer))
      in case engine_service_poll K W (Some e) desc_cmpl_th s of None \<Rightarrow> None
         | Some (_, s) \<Rightarrow> Some (0, s))"

definition xthread_work_pending :: "nat \<Rightarrow> drv \<Rightarrow> bool" where
  "xthread_work_pending thp s \<longleftrightarrow>
     k_work_list (thread_at s thp) \<noteq> [] \<and>
     (\<exists>e\<in>set (k_work_list (thread_at s thp)).
        k_fproc (thread_at s thp) \<and> xdma_thread_cmpl_status_pend e s)"

text \<open>
  One round of \<open>xthread_main\<close>: what the rest of the system does while the thread sleeps in
  \<open>xthread_reschedule\<close> (which waits without a limit, the timeout being 0), and what the
  hardware does while each work item is polled.
\<close>

record tround =
  tr_sleep :: "drv \<Rightarrow> drv"
  tr_wb :: "eng_id \<Rightarrow> wbenv"
  tr_stray :: "eng_id \<Rightarrow> u32"

fun work_loop :: "'k kenv_scheme \<Rightarrow> tround \<Rightarrow> eng_id list \<Rightarrow> drv \<Rightarrow> drv option" where
  "work_loop K R [] s = Some s"
| "work_loop K R (e # es) s =
     (case xdma_thread_cmpl_status_proc K (tr_wb R e) (tr_stray R e) e s of None \<Rightarrow> None
      | Some (_, s) \<Rightarrow> work_loop K R es s)"

definition xthread_round :: "'k kenv_scheme \<Rightarrow> tround \<Rightarrow> nat \<Rightarrow> drv \<Rightarrow> drv option" where
  "xthread_round K R thp s =
     (let s = (if \<not> xthread_work_pending thp s then tr_sleep R s else s);
          s = upd_thread thp (\<lambda>t. t\<lparr>k_schedule := False\<rparr>) s
      in if k_work_cnt (thread_at s thp) \<noteq> 0
         then work_loop K R (k_work_list (thread_at s thp)) s else Some s)"

text \<open>\<open>xthread_main\<close> makes rounds until \<open>kthread_should_stop\<close>: one for each element of the list.\<close>

fun xthread_main :: "'k kenv_scheme \<Rightarrow> tround list \<Rightarrow> nat \<Rightarrow> drv \<Rightarrow> (int \<times> drv) option" where
  "xthread_main K [] thp s = Some (0, s)"
| "xthread_main K (R # Rs) thp s =
     (case xthread_round K R thp s of None \<Rightarrow> None | Some s \<Rightarrow> xthread_main K Rs thp s)"

subsection \<open>Starting and stopping a thread\<close>

definition xdma_kthread_start ::
  "'k tenv_scheme \<Rightarrow> nat \<Rightarrow> string \<Rightarrow> nat \<Rightarrow> drv \<Rightarrow> int \<times> drv" where
  "xdma_kthread_start K thp name tid s =
     (if k_task (thread_at s thp) \<noteq> None then (- EINVAL, s)
      else let s = upd_thread thp (\<lambda>t. t\<lparr>k_name := snprintf 16 (name @ dec_nat tid)\<rparr>) s;
               s = upd_thread thp (\<lambda>t. t\<lparr>k_id := tid, k_work_list := []\<rparr>) s
      in case kthread_create_on_node K (notices s) (k_cpu (thread_at s thp)) of
           None \<Rightarrow> (- EFAULT, upd_thread thp (\<lambda>t. t\<lparr>k_task := None\<rparr>) s)
         | Some task \<Rightarrow>
             (0, tell (Acquire (R_task task)) (upd_thread thp (\<lambda>t. t\<lparr>k_task := Some task\<rparr>) s)))"

definition xdma_kthread_stop :: "'k tenv_scheme \<Rightarrow> nat \<Rightarrow> drv \<Rightarrow> int \<times> drv" where
  "xdma_kthread_stop K thp s =
     (case k_task (thread_at s thp) of None \<Rightarrow> (0, s)
      | Some task \<Rightarrow>
        (let s = upd_thread thp (\<lambda>t. t\<lparr>k_schedule := True\<rparr>) s;
             rv = kthread_stop K task;
             s = tell (Release (R_task task)) s
         in if rv < 0 then (rv, s) else (0, upd_thread thp (\<lambda>t. t\<lparr>k_task := None\<rparr>) s)))"

subsection \<open>Assigning engines to threads\<close>

definition xdma_thread_remove_work :: "eng_id \<Rightarrow> drv \<Rightarrow> drv" where
  "xdma_thread_remove_work engine s =
     (let cmpl_thread = e_cmplthp (engs s engine);
          s = upd_eng engine (\<lambda>g. g\<lparr>e_cmplthp := None\<rparr>) s
      in case cmpl_thread of None \<Rightarrow> s
         | Some thp \<Rightarrow>
             upd_thread thp (\<lambda>t. t\<lparr>k_work_list := remove1 engine (k_work_list t),
                                   k_work_cnt := k_work_cnt t - 1\<rparr>) s)"

text \<open>
  The search of \<open>xdma_thread_add_work\<close> over the work counts from thread \<open>i\<close> on; \<open>idx\<close> is
  \<open>cnt\<close> until a thread has been looked at.
\<close>

fun pick_thread :: "nat \<Rightarrow> u32 list \<Rightarrow> nat \<Rightarrow> nat \<Rightarrow> u32 \<Rightarrow> nat" where
  "pick_thread cnt [] i idx v = idx"
| "pick_thread cnt (w # ws) i idx v =
     (if idx = cnt then pick_thread cnt ws (Suc i) i w
      else if w = 0 then i
      else if w < v then pick_thread cnt ws (Suc i) i v
      else pick_thread cnt ws (Suc i) idx v)"

definition xdma_thread_add_work :: "eng_id \<Rightarrow> drv \<Rightarrow> drv" where
  "xdma_thread_add_work engine s =
     (let cnt = thread_cnt s;
          idx = pick_thread cnt (map k_work_cnt (take cnt (the (cs_threads s)))) 0 cnt 0;
          s = upd_thread idx (\<lambda>t. t\<lparr>k_work_list := k_work_list t @ [engine]\<rparr>) s;
          s = upd_eng engine (\<lambda>g. g\<lparr>e_intr_work_cpu := idx\<rparr>) s;
          s = upd_thread idx (\<lambda>t. t\<lparr>k_work_cnt := k_work_cnt t + 1\<rparr>) s
      in upd_eng engine (\<lambda>g. g\<lparr>e_cmplthp := Some idx\<rparr>) s)"

subsection \<open>The pool\<close>

fun create_loop :: "'k tenv_scheme \<Rightarrow> nat \<Rightarrow> nat list \<Rightarrow> nat \<Rightarrow> drv \<Rightarrow> int \<times> drv" where
  "create_loop K num_threads [] thp s = (0, s)"
| "create_loop K num_threads (cpu # cpus) thp s =
     (let s = upd_thread thp (\<lambda>t. t\<lparr>k_cpu := cpu, k_timeout := 0, k_fproc := True\<rparr>) s;
          (rv, s) = xdma_kthread_start K thp ''cmpl_status_th'' (thread_cnt s) s
      in if rv < 0
         then (rv, tell (Release R_threads) s\<lparr>cs_threads := None, thread_cnt := 0\<rparr>)
         else let s = s\<lparr>thread_cnt := thread_cnt s + 1\<rparr>
         in if thread_cnt s = num_threads then (0, s)
            else create_loop K num_threads cpus (Suc thp) s)"

definition xdma_threads_create :: "'k tenv_scheme \<Rightarrow> nat \<Rightarrow> drv \<Rightarrow> int \<times> drv" where
  "xdma_threads_create K num_threads s =
     (if thread_cnt s \<noteq> 0 then (0, s)
      else if \<not> kzalloc_threads K num_threads then (- ENOMEM, s\<lparr>cs_threads := None\<rparr>)
      else let s = tell (Acquire R_threads) s\<lparr>cs_threads := Some (replicate num_threads zero_kthread)\<rparr>
           in create_loop K num_threads (online_cpus K) 0 s)"

fun destroy_loop :: "'k tenv_scheme \<Rightarrow> nat list \<Rightarrow> drv \<Rightarrow> drv" where
  "destroy_loop K [] s = s"
| "destroy_loop K (i # is) s =
     destroy_loop K is (if k_fproc (thread_at s i) then snd (xdma_kthread_stop K i s) else s)"

definition xdma_threads_destroy :: "'k tenv_scheme \<Rightarrow> drv \<Rightarrow> drv" where
  "xdma_threads_destroy K s =
     (if thread_cnt s = 0 then s
      else let s = destroy_loop K [0..<thread_cnt s] s
           in tell (Release R_threads) s\<lparr>cs_threads := None, thread_cnt := 0\<rparr>)"

subsection \<open>Choosing a thread\<close>

lemma pick_in_range:
  "\<lbrakk>i + length ws = cnt; idx < cnt \<or> (idx = cnt \<and> ws \<noteq> [])\<rbrakk> \<Longrightarrow> pick_thread cnt ws i idx v < cnt"
  by (induction cnt ws i idx v rule: pick_thread.induct) auto

lemma pick_keeps_idle:
  assumes "idx < length pre" and "pre ! idx = 0 \<longrightarrow> v = 0" and "0 \<in> set ws \<or> pre ! idx = 0"
  shows "(pre @ ws) ! pick_thread (length pre + length ws) ws (length pre) idx v = 0"
  using assms
proof (induction ws arbitrary: pre idx)
  case (Cons w ws)
  show ?case
  proof (cases "w = 0")
    case False
    let ?idx = "if w < v then length pre else idx"
    have "(pre @ [w]) ! ?idx = 0 \<longrightarrow> v = 0" "0 \<in> set ws \<or> (pre @ [w]) ! ?idx = 0"
      using Cons.prems False by (auto simp: nth_append)
    then show ?thesis
      using Cons.IH [of ?idx "pre @ [w]"] Cons.prems(1) False by (cases "w < v") simp_all
  qed (use Cons.prems in simp)
qed (simp add: nth_append)

lemma pick_idle:
  assumes "0 \<in> set ws"
  shows "ws ! pick_thread (length ws) ws 0 (length ws) 0 = 0"
  using assms pick_keeps_idle [of 0 "[hd ws]" "hd ws" "tl ws"] by (cases ws) auto

subsection \<open>The pool invariant\<close>

text \<open>
  Every live thread counts its work items correctly, an engine is on the list of a thread
  exactly when it points to that thread, and it is there once.
\<close>

definition thread_ok :: "drv \<Rightarrow> nat \<Rightarrow> xdma_kthread \<Rightarrow> bool" where
  "thread_ok s i t \<longleftrightarrow> distinct (k_work_list t) \<and> k_work_cnt t = of_nat (length (k_work_list t)) \<and>
     (\<forall>e. e \<in> set (k_work_list t) \<longleftrightarrow> e_cmplthp (engs s e) = Some i)"

definition pool_inv :: "drv \<Rightarrow> bool" where
  "pool_inv s \<longleftrightarrow> cs_threads s \<noteq> None \<and> 0 < thread_cnt s \<and> thread_cnt s \<le> length (the (cs_threads s)) \<and>
     (\<forall>i<thread_cnt s. thread_ok s i (thread_at s i)) \<and>
     (\<forall>e i. e_cmplthp (engs s e) = Some i \<longrightarrow> i < thread_cnt s)"

lemma thread_ok_member: "thread_ok s i t \<Longrightarrow> e \<in> set (k_work_list t) \<longleftrightarrow> e_cmplthp (engs s e) = Some i"
  unfolding thread_ok_def by blast

lemma pool_member:
  "pool_inv s \<Longrightarrow> i < thread_cnt s \<Longrightarrow>
   e \<in> set (k_work_list (thread_at s i)) \<longleftrightarrow> e_cmplthp (engs s e) = Some i"
  unfolding pool_inv_def using thread_ok_member by blast

lemma pool_assigned: "pool_inv s \<Longrightarrow> e_cmplthp (engs s e) = Some i \<Longrightarrow> i < thread_cnt s"
  unfolding pool_inv_def by blast

text \<open>An update of one thread and of one engine's assignment keeps the invariant.\<close>

lemma pool_inv_update:
  assumes "pool_inv s" and "j < thread_cnt s"
    and "cs_threads s' = Some ((the (cs_threads s))[j := t])" and "thread_cnt s' = thread_cnt s"
    and "\<And>x. x \<noteq> e \<Longrightarrow> e_cmplthp (engs s' x) = e_cmplthp (engs s x)"
    and "thread_ok s' j t"
    and "e_cmplthp (engs s e) = None \<or> e_cmplthp (engs s e) = Some j"
    and "e_cmplthp (engs s' e) = None \<or> e_cmplthp (engs s' e) = Some j"
  shows "pool_inv s'"
proof -
  have "thread_ok s' i (thread_at s' i)" if "i < thread_cnt s" for i
  proof (cases "i = j")
    case True
    then show ?thesis using assms(1-3,6) by (simp add: pool_inv_def)
  next
    case False
    have "thread_ok s i (thread_at s i)" using assms(1) that by (simp add: pool_inv_def)
    moreover have "e_cmplthp (engs s' x) = Some i \<longleftrightarrow> e_cmplthp (engs s x) = Some i" for x
      using assms(5,7,8) False by (cases "x = e") auto
    ultimately show ?thesis using False assms(3)
      by (simp add: thread_ok_def del: split_paired_All)
  qed
  moreover have "i < thread_cnt s" if "e_cmplthp (engs s' x) = Some i" for x i
    using assms(2,5,8) that pool_assigned [OF assms(1), of x i] by (cases "x = e") auto
  ultimately show ?thesis using assms(1,3,4)
    by (simp add: pool_inv_def del: split_paired_All)
qed

definition chosen_thread :: "drv \<Rightarrow> nat" where
  "chosen_thread s =
     pick_thread (thread_cnt s) (map k_work_cnt (take (thread_cnt s) (the (cs_threads s)))) 0 (thread_cnt s) 0"

lemma chosen_in_range: "pool_inv s \<Longrightarrow> chosen_thread s < thread_cnt s"
  unfolding chosen_thread_def pool_inv_def by (intro pick_in_range) auto

lemma chosen_idle:
  assumes "pool_inv s" and "i < thread_cnt s" and "k_work_cnt (thread_at s i) = 0"
  shows "k_work_cnt (thread_at s (chosen_thread s)) = 0"
proof -
  let ?ws = "map k_work_cnt (take (thread_cnt s) (the (cs_threads s)))"
  have len: "length ?ws = thread_cnt s" using assms(1) by (simp add: pool_inv_def)
  then have "0 \<in> set ?ws" using assms(2,3) by (metis (no_types, lifting) in_set_conv_nth length_map nth_map nth_take)
  from pick_idle [OF this] chosen_in_range [OF assms(1)] len show ?thesis
    by (simp add: chosen_thread_def)
qed

text \<open>What adding and removing a work item does to the pool.\<close>

lemma add_work_effect:
  assumes "pool_inv s"
  shows "cs_threads (xdma_thread_add_work e s) =
      Some ((the (cs_threads s))[chosen_thread s := (thread_at s (chosen_thread s))
         \<lparr>k_work_list := k_work_list (thread_at s (chosen_thread s)) @ [e],
          k_work_cnt := k_work_cnt (thread_at s (chosen_thread s)) + 1\<rparr>])"
    and "engs (xdma_thread_add_work e s) = (engs s)(e := (engs s e)
         \<lparr>e_intr_work_cpu := chosen_thread s, e_cmplthp := Some (chosen_thread s)\<rparr>)"
    and "thread_cnt (xdma_thread_add_work e s) = thread_cnt s"
    and "notices (xdma_thread_add_work e s) = notices s"
  using chosen_in_range [OF assms] assms
  by (simp_all add: xdma_thread_add_work_def Let_def chosen_thread_def [symmetric] pool_inv_def)

lemma remove_work_effect:
  shows "engs (xdma_thread_remove_work e s) = (engs s)(e := (engs s e)\<lparr>e_cmplthp := None\<rparr>)"
    and "thread_cnt (xdma_thread_remove_work e s) = thread_cnt s"
    and "notices (xdma_thread_remove_work e s) = notices s"
    and "e_cmplthp (engs s e) = Some i \<Longrightarrow> cs_threads (xdma_thread_remove_work e s) =
      Some ((the (cs_threads s))[i := (thread_at s i)
         \<lparr>k_work_list := remove1 e (k_work_list (thread_at s i)), k_work_cnt := k_work_cnt (thread_at s i) - 1\<rparr>])"
    and "e_cmplthp (engs s e) = None \<Longrightarrow> cs_threads (xdma_thread_remove_work e s) = cs_threads s"
  by (simp_all add: xdma_thread_remove_work_def Let_def split: option.split)

lemma add_work_inv:
  assumes "pool_inv s" and "e_cmplthp (engs s e) = None"
  shows "pool_inv (xdma_thread_add_work e s)"
proof (rule pool_inv_update [OF assms(1) chosen_in_range [OF assms(1)] add_work_effect(1) [OF assms(1), of e], of e])
  have ok: "thread_ok s (chosen_thread s) (thread_at s (chosen_thread s))"
    using assms(1) chosen_in_range [OF assms(1)] by (simp add: pool_inv_def)
  then have "e \<notin> set (k_work_list (thread_at s (chosen_thread s)))"
    using assms(2) by (simp add: thread_ok_member)
  with ok show "thread_ok (xdma_thread_add_work e s) (chosen_thread s) ((thread_at s (chosen_thread s))
      \<lparr>k_work_list := k_work_list (thread_at s (chosen_thread s)) @ [e],
       k_work_cnt := k_work_cnt (thread_at s (chosen_thread s)) + 1\<rparr>)"
    by (auto simp: thread_ok_def add_work_effect(2) [OF assms(1)] simp del: split_paired_All)
qed (simp_all add: add_work_effect [OF assms(1)] assms(2))

lemma remove_work_inv:
  assumes "pool_inv s"
  shows "pool_inv (xdma_thread_remove_work e s)"
proof (cases "e_cmplthp (engs s e)")
  case None
  then have "e_cmplthp (engs (xdma_thread_remove_work e s) x) = e_cmplthp (engs s x)" for x
    by (simp add: remove_work_effect(1))
  then show ?thesis using assms None
    by (simp add: pool_inv_def thread_ok_def remove_work_effect(2,5) del: split_paired_All)
next
  case (Some i)
  have i: "i < thread_cnt s" using pool_assigned [OF assms Some] .
  show ?thesis
  proof (rule pool_inv_update [OF assms i remove_work_effect(4) [OF Some], of e])
    have ok: "thread_ok s i (thread_at s i)" using assms i by (simp add: pool_inv_def)
    then have mem: "e \<in> set (k_work_list (thread_at s i))" using Some by (simp add: thread_ok_member)
    then have "length (k_work_list (thread_at s i)) = Suc (length (remove1 e (k_work_list (thread_at s i))))"
      using length_pos_if_in_set [OF mem] by (simp add: length_remove1)
    with ok mem show "thread_ok (xdma_thread_remove_work e s) i ((thread_at s i)
        \<lparr>k_work_list := remove1 e (k_work_list (thread_at s i)), k_work_cnt := k_work_cnt (thread_at s i) - 1\<rparr>)"
      by (auto simp: thread_ok_def remove_work_effect(1) simp del: split_paired_All)
  qed (use Some in \<open>simp_all add: remove_work_effect\<close>)
qed

subsection \<open>Creating and destroying the pool\<close>

lemma kthread_start_effect:
  assumes "k_task (thread_at s i) = None" and "i < length (the (cs_threads s))" and "cs_threads s \<noteq> None"
    and "xdma_kthread_start K i nm k s = (rv, s')"
  shows "thread_cnt s' = thread_cnt s \<and> engs s' = engs s \<and>
    (\<exists>t. cs_threads s' = Some ((the (cs_threads s))[i := t]) \<and>
       k_work_list t = [] \<and> k_work_cnt t = k_work_cnt (thread_at s i) \<and> k_fproc t = k_fproc (thread_at s i) \<and>
       (k_task t = None \<longrightarrow> rv = - EFAULT \<and> notices s' = notices s) \<and>
       (\<forall>task. k_task t = Some task \<longrightarrow> rv = 0 \<and> notices s' = notices s @ [Acquire (R_task task)]))"
  using assms
  by (auto simp: xdma_kthread_start_def Let_def split: option.splits)

definition started :: "xdma_kthread \<Rightarrow> bool" where
  "started t \<longleftrightarrow> k_task t \<noteq> None \<and> k_work_list t = [] \<and> k_work_cnt t = 0 \<and> k_fproc t"

definition live :: "xdma_kthread \<Rightarrow> bool" where
  "live t \<longleftrightarrow> k_task t \<noteq> None \<and> k_fproc t"

definition pool_tasks :: "drv \<Rightarrow> nat list" where
  "pool_tasks s = map (\<lambda>t. the (k_task t)) (take (thread_cnt s) (the (cs_threads s)))"

definition acquired :: "nat list \<Rightarrow> notice list" where
  "acquired ts = map (\<lambda>t. Acquire (R_task t)) ts"

definition pool_partly :: "nat \<Rightarrow> drv \<Rightarrow> bool" where
  "pool_partly N s \<longleftrightarrow> (\<exists>ts. cs_threads s = Some ts \<and> length ts = N \<and> thread_cnt s \<le> N \<and>
     (\<forall>t\<in>set (take (thread_cnt s) ts). started t) \<and>
     drop (thread_cnt s) ts = replicate (N - thread_cnt s) zero_kthread)"

lemma pool_partly_next:
  assumes "pool_partly N s" and "thread_cnt s < N"
  shows "thread_at s (thread_cnt s) = zero_kthread" and "thread_cnt s < length (the (cs_threads s))"
    and "cs_threads s \<noteq> None"
proof -
  obtain ts where ts: "cs_threads s = Some ts" "length ts = N"
      "drop (thread_cnt s) ts = replicate (N - thread_cnt s) zero_kthread"
    using assms(1) by (auto simp: pool_partly_def)
  have "ts ! thread_cnt s = drop (thread_cnt s) ts ! 0" using assms(2) ts(2) by simp
  also have "\<dots> = zero_kthread" using assms(2) by (simp add: ts(3))
  finally show "thread_at s (thread_cnt s) = zero_kthread" using ts(1) by simp
  show "thread_cnt s < length (the (cs_threads s))" "cs_threads s \<noteq> None" using ts assms(2) by auto
qed

lemma pool_partly_step:
  assumes "pool_partly N s" and "thread_cnt s < N" and "started t"
    and "cs_threads s' = Some ((the (cs_threads s))[thread_cnt s := t])"
    and "thread_cnt s' = Suc (thread_cnt s)"
  shows "pool_partly N s'" and "pool_tasks s' = pool_tasks s @ [the (k_task t)]"
proof -
  obtain ts where ts: "cs_threads s = Some ts" "length ts = N"
      "\<forall>t\<in>set (take (thread_cnt s) ts). started t"
      "drop (thread_cnt s) ts = replicate (N - thread_cnt s) zero_kthread"
    using assms(1) by (auto simp: pool_partly_def)
  have take: "take (Suc (thread_cnt s)) (ts[thread_cnt s := t]) = take (thread_cnt s) ts @ [t]"
    using assms(2) ts(2) by (simp add: take_Suc_conv_app_nth take_update_beyond)
  have "drop (Suc (thread_cnt s)) (ts[thread_cnt s := t]) = drop 1 (drop (thread_cnt s) ts)"
    using assms(2) ts(2) by (simp add: drop_update_cancel)
  then have "drop (Suc (thread_cnt s)) (ts[thread_cnt s := t]) = replicate (N - Suc (thread_cnt s)) zero_kthread"
    by (simp add: ts(4))
  then show "pool_partly N s'" using assms(2-5) ts take by (simp add: pool_partly_def)
  show "pool_tasks s' = pool_tasks s @ [the (k_task t)]"
    using assms(4,5) ts(1) take by (simp add: pool_tasks_def)
qed

lemma create_loop_effect:
  assumes "pool_partly N s" and "thread_cnt s < N" and "create_loop K N cpus (thread_cnt s) s = (rv, s')"
  shows "engs s' = engs s \<and>
    (rv = 0 \<and> pool_partly N s' \<and> thread_cnt s' = min N (thread_cnt s + length cpus) \<and>
       (\<exists>new. pool_tasks s' = pool_tasks s @ new \<and> notices s' = notices s @ acquired new) \<or>
     rv = - EFAULT \<and> cs_threads s' = None \<and> thread_cnt s' = 0 \<and>
       (\<exists>new. length new < length cpus \<and> notices s' = notices s @ acquired new @ [Release R_threads]))"
  using assms
proof (induction cpus arbitrary: s)
  case Nil
  then show ?case by (simp add: acquired_def)
next
  case (Cons cpu cpus)
  let ?n = "thread_cnt s"
  let ?s1 = "upd_thread ?n (\<lambda>t. t\<lparr>k_cpu := cpu, k_timeout := 0, k_fproc := True\<rparr>) s"
  note nxt = pool_partly_next [OF Cons.prems(1,2)]
  obtain rv2 s2 where start: "xdma_kthread_start K ?n ''cmpl_status_th'' ?n ?s1 = (rv2, s2)"
    by fastforce
  obtain t where t: "thread_cnt s2 = ?n" "engs s2 = engs s"
      "cs_threads s2 = Some ((the (cs_threads s))[?n := t])" "k_work_list t = []" "k_work_cnt t = 0" "k_fproc t"
      "k_task t = None \<longrightarrow> rv2 = - EFAULT \<and> notices s2 = notices s"
      "\<forall>task. k_task t = Some task \<longrightarrow> rv2 = 0 \<and> notices s2 = notices s @ [Acquire (R_task task)]"
    using kthread_start_effect [OF _ _ _ start] nxt by (auto simp: zero_kthread_def)
  show ?case
  proof (cases "k_task t")
    case None
    then show ?thesis using Cons.prems(3) t start
      by (auto simp: EFAULT_def acquired_def)
  next
    case (Some task)
    let ?s3 = "s2\<lparr>thread_cnt := Suc ?n\<rparr>"
    have "started t" using t Some by (simp add: started_def)
    note s3 = pool_partly_step [OF Cons.prems(1,2) this, where s' = ?s3, simplified, OF t(3)]
    have loop: "create_loop K N (cpu # cpus) ?n s =
        (if Suc ?n = N then (0, ?s3) else create_loop K N cpus (Suc ?n) ?s3)"
      using start t(1,8) Some by simp
    show ?thesis
    proof (cases "Suc ?n = N")
      case True
      then show ?thesis using Cons.prems(3) loop s3 t(2,8) Some by (auto simp: acquired_def)
    next
      case False
      have acq: "notices ?s3 = notices s @ acquired [task]" using t(8) Some by (simp add: acquired_def)
      have tasks: "pool_tasks ?s3 = pool_tasks s @ [task]" using s3(2) Some by simp
      have "create_loop K N cpus (thread_cnt ?s3) ?s3 = (rv, s')" "thread_cnt ?s3 < N"
        using False loop Cons.prems(2,3) by simp_all
      from Cons.IH [OF s3(1) this(2,1)] consider
        (ok) new where "rv = 0" "pool_partly N s'" "thread_cnt s' = min N (thread_cnt ?s3 + length cpus)"
          "pool_tasks s' = pool_tasks ?s3 @ new" "notices s' = notices ?s3 @ acquired new" "engs s' = engs ?s3"
      | (bad) new where "rv = - EFAULT" "cs_threads s' = None" "thread_cnt s' = 0" "length new < length cpus"
          "notices s' = notices ?s3 @ acquired new @ [Release R_threads]" "engs s' = engs ?s3" by blast
      then show ?thesis
      proof cases
        case ok
        then have "pool_tasks s' = pool_tasks s @ task # new" "notices s' = notices s @ acquired (task # new)"
          using tasks acq by (simp_all add: acquired_def)
        then show ?thesis using ok(1-3,6) t(2) by auto
      next
        case bad
        then have "notices s' = notices s @ acquired (task # new) @ [Release R_threads]"
          using acq by (simp add: acquired_def)
        then show ?thesis using bad t(2) by (auto intro!: exI [of _ "task # new"])
      qed
    qed
  qed
qed

lemma threads_create_effect:
  assumes "thread_cnt s = 0" and "0 < n" and "kzalloc_threads K n"
    and "xdma_threads_create K n s = (rv, s')"
  shows "engs s' = engs s \<and>
    (rv = 0 \<and> pool_partly n s' \<and> thread_cnt s' = min n (length (online_cpus K)) \<and>
       notices s' = notices s @ Acquire R_threads # acquired (pool_tasks s') \<or>
     rv = - EFAULT \<and> cs_threads s' = None \<and> thread_cnt s' = 0 \<and>
       (\<exists>new. length new < length (online_cpus K) \<and>
         notices s' = notices s @ Acquire R_threads # acquired new @ [Release R_threads]))"
proof -
  let ?s = "tell (Acquire R_threads) s\<lparr>cs_threads := Some (replicate n zero_kthread)\<rparr>"
  have "pool_partly n ?s" using assms(1) by (simp add: pool_partly_def)
  moreover have "thread_cnt ?s = 0" "pool_tasks ?s = []" "notices ?s = notices s @ [Acquire R_threads]"
    "engs ?s = engs s"
    using assms(1) by (simp_all add: pool_tasks_def)
  moreover have "create_loop K n (online_cpus K) (thread_cnt ?s) ?s = (rv, s')"
    using assms by (simp add: xdma_threads_create_def)
  ultimately show ?thesis using create_loop_effect [of n ?s K "online_cpus K" rv s'] assms(2) by auto
qed

text \<open>Stopping the threads releases each task once.\<close>

lemma destroy_loop_effect:
  assumes "cs_threads s = Some ts" and "\<forall>i\<in>set is. i < length ts \<and> live (ts ! i)" and "distinct is"
  shows "notices (destroy_loop K is s) = notices s @ map (\<lambda>i. Release (R_task (the (k_task (ts ! i))))) is"
  using assms
proof (induction "is" arbitrary: s ts)
  case (Cons i "is")
  then obtain task where i: "i < length ts" "k_task (ts ! i) = Some task" "k_fproc (ts ! i)"
    by (auto simp: live_def)
  let ?s = "snd (xdma_kthread_stop K i s)"
  have "\<exists>t. cs_threads ?s = Some (ts[i := t]) \<and> notices ?s = notices s @ [Release (R_task task)]"
    using Cons.prems(1) i
    by (cases "kthread_stop K task < 0") (auto simp: xdma_kthread_stop_def Let_def)
  then obtain t where s1: "cs_threads ?s = Some (ts[i := t])"
      "notices ?s = notices s @ [Release (R_task task)]" by blast
  have "\<forall>j\<in>set is. j < length (ts[i := t]) \<and> live (ts[i := t] ! j)"
    using Cons.prems(2,3) by (auto simp: nth_list_update)
  from Cons.IH [OF s1(1) this] have "notices (destroy_loop K is ?s) = notices s @ Release (R_task task) #
      map (\<lambda>j. Release (R_task (the (k_task (ts[i := t] ! j))))) is"
    using Cons.prems(3) s1(2) by simp
  moreover have "map (\<lambda>j. Release (R_task (the (k_task (ts[i := t] ! j))))) is =
      map (\<lambda>j. Release (R_task (the (k_task (ts ! j))))) is"
    using Cons.prems(3) by (intro map_cong refl) (metis distinct.simps(2) nth_list_update_neq)
  ultimately show ?case using Cons.prems(1) i by simp
qed simp

lemma threads_destroy_effect:
  assumes "cs_threads s = Some ts" and "0 < thread_cnt s" and "thread_cnt s \<le> length ts"
    and "\<forall>i<thread_cnt s. live (ts ! i)"
  shows "notices (xdma_threads_destroy K s) =
      notices s @ map (\<lambda>t. Release (R_task t)) (pool_tasks s) @ [Release R_threads]"
    and "cs_threads (xdma_threads_destroy K s) = None" and "thread_cnt (xdma_threads_destroy K s) = 0"
proof -
  have "\<forall>i\<in>set [0..<thread_cnt s]. i < length ts \<and> live (ts ! i)" using assms(3,4) by auto
  from destroy_loop_effect [OF assms(1) this, of K]
  have "notices (destroy_loop K [0..<thread_cnt s] s) =
      notices s @ map (\<lambda>i. Release (R_task (the (k_task (ts ! i))))) [0..<thread_cnt s]" by simp
  moreover have "map (\<lambda>i. Release (R_task (the (k_task (ts ! i))))) [0..<thread_cnt s] =
      map (\<lambda>t. Release (R_task t)) (pool_tasks s)"
    using assms(1,3) by (intro nth_equalityI) (simp_all add: pool_tasks_def)
  ultimately show "notices (xdma_threads_destroy K s) =
      notices s @ map (\<lambda>t. Release (R_task t)) (pool_tasks s) @ [Release R_threads]"
    and "cs_threads (xdma_threads_destroy K s) = None" and "thread_cnt (xdma_threads_destroy K s) = 0"
    using assms(2) by (simp_all add: xdma_threads_destroy_def Let_def)
qed

text \<open>A history of assignments between the creation and the destruction of the pool.\<close>

datatype pool_op = Add_work eng_id | Remove_work eng_id

fun pool_do :: "pool_op \<Rightarrow> drv \<Rightarrow> drv" where
  "pool_do (Add_work e) s = xdma_thread_add_work e s"
| "pool_do (Remove_work e) s = xdma_thread_remove_work e s"

fun pool_valid :: "pool_op list \<Rightarrow> drv \<Rightarrow> bool" where
  "pool_valid [] s = True"
| "pool_valid (p # ps) s =
     ((case p of Add_work e \<Rightarrow> e_cmplthp (engs s e) = None | Remove_work e \<Rightarrow> True) \<and>
      pool_valid ps (pool_do p s))"

definition same_tasks :: "drv \<Rightarrow> drv \<Rightarrow> bool" where
  "same_tasks s s' \<longleftrightarrow> thread_cnt s' = thread_cnt s \<and> notices s' = notices s \<and>
     (\<exists>ts ts'. cs_threads s = Some ts \<and> cs_threads s' = Some ts' \<and> length ts' = length ts \<and>
        (\<forall>i<thread_cnt s. k_task (ts' ! i) = k_task (ts ! i) \<and> k_fproc (ts' ! i) = k_fproc (ts ! i)))"

lemma same_tasks_update:
  assumes "cs_threads s = Some ts" and "cs_threads s' = Some (ts[i := t])"
    and "k_task t = k_task (ts ! i)" and "k_fproc t = k_fproc (ts ! i)"
    and "thread_cnt s' = thread_cnt s" and "notices s' = notices s"
  shows "same_tasks s s'"
proof -
  have "k_task (ts[i := t] ! j) = k_task (ts ! j) \<and> k_fproc (ts[i := t] ! j) = k_fproc (ts ! j)" for j
    using assms(3,4)
    by (cases "i < length ts"; cases "j = i") (simp_all add: list_update_beyond)
  then show ?thesis using assms by (simp add: same_tasks_def)
qed

lemma same_tasks_refl: "cs_threads s \<noteq> None \<Longrightarrow> same_tasks s s"
  by (auto simp: same_tasks_def)

lemma same_tasks_trans: "same_tasks s s' \<Longrightarrow> same_tasks s' s'' \<Longrightarrow> same_tasks s s''"
  unfolding same_tasks_def by fastforce

lemma pool_do_same:
  assumes "pool_inv s"
  shows "same_tasks s (pool_do p s)"
proof -
  obtain ts where ts: "cs_threads s = Some ts" using assms by (auto simp: pool_inv_def)
  show ?thesis
  proof (cases p)
    case (Add_work e)
    then show ?thesis using add_work_effect [OF assms, of e] ts
      by (auto intro!: same_tasks_update [OF ts])
  next
    case (Remove_work e)
    show ?thesis
    proof (cases "e_cmplthp (engs s e)")
      case None
      then show ?thesis using remove_work_effect(2,3,5) [where e = e and s = s] ts Remove_work
        by (simp add: same_tasks_def)
    next
      case (Some i)
      then show ?thesis using remove_work_effect(2,3) [where e = e and s = s] remove_work_effect(4) [OF Some] ts Remove_work
        by (auto intro!: same_tasks_update [OF ts])
    qed
  qed
qed

lemma pool_run_effect:
  assumes "pool_inv s" and "pool_valid ops s"
  shows "pool_inv (fold pool_do ops s) \<and> same_tasks s (fold pool_do ops s)"
  using assms
proof (induction ops arbitrary: s)
  case (Cons p ps)
  have "pool_inv (pool_do p s)" using Cons.prems add_work_inv remove_work_inv by (cases p) auto
  then show ?case using Cons.IH [of "pool_do p s"] Cons.prems pool_do_same [OF Cons.prems(1), of p]
    by (auto intro: same_tasks_trans)
qed (simp add: pool_inv_def same_tasks_refl)

lemma created_pool_inv:
  assumes "pool_partly n s" and "0 < thread_cnt s" and "\<forall>e. e_cmplthp (engs s e) = None"
  shows "pool_inv s"
proof -
  obtain ts where ts: "cs_threads s = Some ts" "thread_cnt s \<le> length ts"
      "\<forall>t\<in>set (take (thread_cnt s) ts). started t"
    using assms(1) by (auto simp: pool_partly_def)
  have "started (ts ! i)" if "i < thread_cnt s" for i
    using ts(2,3) that by (metis in_set_conv_nth length_take min.absorb4 nth_take order_less_le_trans min_def)
  then show ?thesis using assms(2,3) ts(1,2)
    by (simp add: pool_inv_def thread_ok_def started_def del: split_paired_All)
qed

lemma count_releases:
  "count_list (map (\<lambda>t. Release (R_task t)) ts) (Release r) = count_list (acquired ts) (Acquire r)"
  "count_list (acquired ts) (Release r) = 0"
  "count_list (map (\<lambda>t. Release (R_task t)) ts) (Acquire r) = 0"
  by (induction ts) (auto simp: acquired_def)

lemma same_tasks_pool: "same_tasks s s' \<Longrightarrow> thread_cnt s \<le> length (the (cs_threads s)) \<Longrightarrow> pool_tasks s' = pool_tasks s"
  unfolding pool_tasks_def by (rule nth_equalityI) (auto simp: same_tasks_def)

subsection \<open>Properties\<close>

text \<open>
  C18: The life of the thread pool. If \<open>xdma_threads_create\<close> returns 0 while no engine is
  assigned, one thread per requested thread or online processor runs, whichever is fewer;
  after any sequence of \<open>xdma_thread_add_work\<close> (of unassigned engines) and
  \<open>xdma_thread_remove_work\<close> every thread counts its work items correctly and an engine is
  on the work list of exactly the thread it points to; and \<open>xdma_threads_destroy\<close> then
  stops every task and frees the array: the driver holds as much of every resource as
  before the creation.
\<close>

theorem pool_lifecycle:
  assumes "thread_cnt s = 0" and "0 < n" and "online_cpus K \<noteq> []"
    and "\<forall>e. e_cmplthp (engs s e) = None"
    and "xdma_threads_create K n s = (0, s1)" and "pool_valid ops s1"
  shows "pool_inv (fold pool_do ops s1) \<and>
    thread_cnt (fold pool_do ops s1) = min n (length (online_cpus K)) \<and>
    (\<forall>r. held r (xdma_threads_destroy K (fold pool_do ops s1)) = held r s) \<and>
    cs_threads (xdma_threads_destroy K (fold pool_do ops s1)) = None"
proof -
  have ok: "kzalloc_threads K n"
    using assms(1,5) by (auto simp: xdma_threads_create_def ENOMEM_def split: if_splits)
  have cr: "engs s1 = engs s" "pool_partly n s1" "thread_cnt s1 = min n (length (online_cpus K))"
      "notices s1 = notices s @ Acquire R_threads # acquired (pool_tasks s1)"
    using threads_create_effect [OF assms(1,2) ok assms(5)] by (auto simp: EFAULT_def)
  have pos: "0 < thread_cnt s1" using cr(3) assms(2,3) by simp
  have inv: "pool_inv s1" using created_pool_inv [OF cr(2) pos] assms(4) cr(1) by simp
  define s2 where "s2 = fold pool_do ops s1"
  have s2: "pool_inv s2" "same_tasks s1 s2"
    using pool_run_effect [OF inv assms(6)] by (simp_all add: s2_def)
  obtain ts1 ts2 where ts: "cs_threads s1 = Some ts1" "cs_threads s2 = Some ts2"
      "length ts1 = n" "thread_cnt s1 \<le> n" "length ts2 = length ts1"
      "\<forall>t\<in>set (take (thread_cnt s1) ts1). started t" "thread_cnt s2 = thread_cnt s1"
      "notices s2 = notices s1"
      "\<forall>i<thread_cnt s1. k_task (ts2 ! i) = k_task (ts1 ! i) \<and> k_fproc (ts2 ! i) = k_fproc (ts1 ! i)"
    using cr(2) s2(2) by (auto simp: pool_partly_def same_tasks_def)
  have "\<forall>i<thread_cnt s2. live (ts2 ! i)"
  proof (intro allI impI)
    fix i assume "i < thread_cnt s2"
    then have i: "i < thread_cnt s1" using ts(7) by simp
    then have "ts1 ! i \<in> set (take (thread_cnt s1) ts1)"
      using ts(3,4) by (auto simp: in_set_conv_nth intro!: exI [of _ i])
    then show "live (ts2 ! i)" using ts(6,9) i by (auto simp: started_def live_def)
  qed
  note destroy = threads_destroy_effect [OF ts(2) _ _ this, of K]
  have "pool_tasks s2 = pool_tasks s1" using same_tasks_pool [OF s2(2)] ts(1,3,4) by simp
  then have "held r (xdma_threads_destroy K s2) = held r s" for r
    using held_append [OF destroy(1)] held_append [OF cr(4)] held_notices [OF ts(8)] pos ts(3,4,5,7)
    by (simp add: count_releases)
  then show ?thesis using s2(1) destroy(2) pos ts(3,4,5,7) cr(3) unfolding s2_def [symmetric] by simp
qed

definition sample_tenv :: "nat list \<Rightarrow> nat option list \<Rightarrow> tenv" where
  "sample_tenv cpus tasks = kenv.extend (sample_env 0)
     \<lparr>online_cpus = cpus, kzalloc_threads = (\<lambda>n. True),
      kthread_create_on_node = (\<lambda>l c. tasks ! c), kthread_stop = (\<lambda>t. 0)\<rparr>"

theorem pool_lifecycle_witness:
  "\<exists>s1. xdma_threads_create (sample_tenv [0, 1] [Some 7, Some 8]) 4 sample_drv = (0, s1) \<and>
     (let s2 = fold pool_do [Add_work (0, H2C, 0), Add_work (0, C2H, 0), Remove_work (0, H2C, 0)] s1
      in pool_inv s2 \<and> thread_cnt s2 = 2 \<and>
         held (R_task 7) (xdma_threads_destroy (sample_tenv [0, 1] [Some 7, Some 8]) s2) = 0)"
proof -
  let ?K = "sample_tenv [0, 1] [Some 7, Some 8]"
  let ?ops = "[Add_work (0, H2C, 0), Add_work (0, C2H, 0), Remove_work (0, H2C, 0)]"
  define s1 where "s1 = snd (xdma_threads_create ?K 4 sample_drv)"
  have create: "xdma_threads_create ?K 4 sample_drv = (0, s1)"
    by (simp add: s1_def xdma_threads_create_def Let_def xdma_kthread_start_def zero_kthread_def
        sample_tenv_def kenv.defs sample_drv_def)
  have "engs s1 = engs sample_drv" "thread_cnt sample_drv = 0"
    by (simp_all add: s1_def xdma_threads_create_def Let_def xdma_kthread_start_def zero_kthread_def
        sample_tenv_def kenv.defs sample_drv_def)
  moreover from this(1) have "pool_valid ?ops s1" by (simp add: xdma_thread_add_work_def Let_def)
  moreover have "online_cpus ?K = [0, 1]" by (simp add: sample_tenv_def kenv.defs)
  moreover have "held (R_task 7) sample_drv = 0" by (simp add: held_def)
  ultimately show ?thesis
    using pool_lifecycle [of sample_drv 4 ?K s1 ?ops, OF _ _ _ _ create]
    by (intro exI [of _ s1] conjI create) (simp_all add: Let_def)
qed

text \<open>
  When a thread cannot be started, \<open>xdma_threads_create\<close> frees the array of threads
  while the tasks that are already running, and that use it, go on: their number of
  references is not given back.
\<close>

lemma threads_create_leaks:
  assumes "thread_cnt s = 0" and "1 < n" and "kzalloc_threads K n" and "online_cpus K = c0 # c1 # cpus"
    and "kthread_create_on_node K (notices s @ [Acquire R_threads]) c0 = Some t0"
    and "kthread_create_on_node K (notices s @ [Acquire R_threads, Acquire (R_task t0)]) c1 = None"
  shows "\<exists>s'. xdma_threads_create K n s = (- EFAULT, s') \<and> cs_threads s' = None \<and>
    held R_threads s' = held R_threads s \<and> held (R_task t0) s' = held (R_task t0) s + 1"
  using assms
  by (simp add: xdma_threads_create_def Let_def xdma_kthread_start_def zero_kthread_def EFAULT_def)

end
