(* ===== verification/Xdma_EngineInit.thy ===== *)
theory Xdma_EngineInit
  imports Xdma_Thread Xdma_Transfer
begin

text \<open>
  Creating and destroying engines (libxdma.c, \<open>engine_alignments\<close> to \<open>engine_init\<close>). The
  kernel's \<open>dma_alloc_coherent\<close> is a parameter: from what the driver has told the kernel so
  far and the size it gives the bus address of zeroed memory, or \<open>None\<close>.
\<close>

record aenv = tenv +
  dma_alloc_coherent :: "notice list \<Rightarrow> nat \<Rightarrow> u64 option"

definition sizeof_xdma_poll_wb :: nat where "sizeof_xdma_poll_wb = 32"

definition sgdma_common :: "nat \<Rightarrow> drv \<Rightarrow> nat" where
  "sgdma_common d s = config_base s d + 0x6 * TARGET_SPACING"

subsection \<open>Operations\<close>

definition engine_alignments :: "'k kenv_scheme \<Rightarrow> eng_id \<Rightarrow> drv \<Rightarrow> drv" where
  "engine_alignments K e s =
     (let (w, s) = read_register K (e_regs (engs s e) + er_alignments) s;
          align_bytes = drop_bit 16 (w AND 0x00ff0000);
          granularity_bytes = drop_bit 8 (w AND 0x0000ff00);
          address_bits = w AND 0x000000ff
      in if w \<noteq> 0
         then upd_eng e (\<lambda>g. g\<lparr>e_addr_align := ucast align_bytes,
                               e_len_granularity := ucast granularity_bytes,
                               e_addr_bits := ucast address_bits\<rparr>) s
         else upd_eng e (\<lambda>g. g\<lparr>e_addr_align := 1, e_len_granularity := 1, e_addr_bits := 64\<rparr>) s)"

definition engine_free_resource :: "eng_id \<Rightarrow> drv \<Rightarrow> drv" where
  "engine_free_resource e s =
     (let g = engs s e;
          s = (if e_poll_mode_addr_virt g \<noteq> None
               then upd_eng e (\<lambda>g. g\<lparr>e_poll_mode_addr_virt := None\<rparr>)
                      (tell (Release (R_coherent (e_poll_mode_bus g) sizeof_xdma_poll_wb)) s)
               else s);
          s = (if e_desc g \<noteq> None
               then upd_eng e (\<lambda>g. g\<lparr>e_desc := None\<rparr>)
                      (tell (Release (R_coherent (e_desc_bus g)
                                        (unat (e_desc_max g) * sizeof_xdma_desc))) s)
               else s)
      in if e_cyclic_result g \<noteq> None
         then upd_eng e (\<lambda>g. g\<lparr>e_cyclic_result := None\<rparr>)
                (tell (Release (R_coherent (e_cyclic_result_bus g)
                                  (unat (e_desc_max g) * sizeof_xdma_result))) s)
         else s)"

definition engine_destroy ::
  "'k kenv_scheme \<Rightarrow> nat option \<Rightarrow> eng_id option \<Rightarrow> drv \<Rightarrow> int \<times> drv" where
  "engine_destroy K xdev engine s =
     (case xdev of None \<Rightarrow> (- EINVAL, s)
      | Some d \<Rightarrow> (case engine of None \<Rightarrow> (- EINVAL, s)
        | Some e \<Rightarrow>
          (let s = write_register 0 (e_regs (engs s e) + er_interrupt_enable_mask) s;
               s = (if st_c2h_credit K (engs s e)
                    then write_register (push_bit 16 (push_bit (e_channel (engs s e)) 1))
                           (sgdma_common d s + cc_credit_mode_enable_w1c) s
                    else s);
               s = (if poll_mode K \<noteq> 0 then xdma_thread_remove_work e s else s);
               s = engine_free_resource e s;
               s = upd_eng e (\<lambda>g. zero_engine) s
           in (0, upd_dev d (\<lambda>v. v\<lparr>dv_engines_num := dv_engines_num v - 1\<rparr>) s))))"

definition engine_writeback_setup :: "eng_id option \<Rightarrow> drv \<Rightarrow> int \<times> drv" where
  "engine_writeback_setup engine s =
     (case engine of None \<Rightarrow> (- EINVAL, s)
      | Some e \<Rightarrow> (case e_xdev (engs s e) of None \<Rightarrow> (- EINVAL, s)
        | Some _ \<Rightarrow>
          (let s = upd_eng e (\<lambda>g. g\<lparr>e_poll_mode_addr_virt :=
                                     map_option (\<lambda>_. 0) (e_poll_mode_addr_virt g)\<rparr>) s;
               g = engs s e;
               w = PCI_DMA_L (e_poll_mode_bus g);
               s = write_register w (e_regs g + er_poll_mode_wb_lo) s;
               w = PCI_DMA_H (e_poll_mode_bus g);
               s = write_register w (e_regs g + er_poll_mode_wb_hi) s
           in (0, s))))"

definition engine_init_regs :: "'k kenv_scheme \<Rightarrow> eng_id \<Rightarrow> drv \<Rightarrow> int \<times> drv" where
  "engine_init_regs K e s =
     (let s = write_register XDMA_CTRL_NON_INCR_ADDR (e_regs (engs s e) + er_control_w1c) s;
          s = engine_alignments K e s;
          reg_value = XDMA_CTRL_IE_DESC_ALIGN_MISMATCH;
          reg_value = reg_value OR XDMA_CTRL_IE_MAGIC_STOPPED;
          reg_value = reg_value OR XDMA_CTRL_IE_MAGIC_STOPPED;
          reg_value = reg_value OR XDMA_CTRL_IE_READ_ERROR;
          reg_value = reg_value OR XDMA_CTRL_IE_DESC_ERROR;
          (rv, s) = (if poll_mode K \<noteq> 0 then engine_writeback_setup (Some e) s else (0, s));
          reg_value = (if poll_mode K \<noteq> 0 then reg_value
                       else reg_value OR XDMA_CTRL_IE_DESC_STOPPED OR XDMA_CTRL_IE_DESC_COMPLETED)
      in if rv \<noteq> 0 then (rv, s)
         else let s = write_register reg_value (e_regs (engs s e) + er_interrupt_enable_mask) s;
                  s = upd_eng e (\<lambda>g. g\<lparr>e_interrupt_enable_mask_value := reg_value\<rparr>) s;
                  s = (if st_c2h_credit K (engs s e)
                       then write_register (push_bit 16 (push_bit (e_channel (engs s e)) 1))
                              (sgdma_common (the (e_xdev (engs s e))) s + cc_credit_mode_enable_w1s) s
                       else s)
              in (0, s))"

text \<open>
  The three allocations of \<open>engine_alloc_resource\<close>; each sets its pointer, also to null.
\<close>

definition coherent ::
  "'k aenv_scheme \<Rightarrow> nat \<Rightarrow> (u64 \<Rightarrow> xdma_engine \<Rightarrow> xdma_engine) \<Rightarrow> (xdma_engine \<Rightarrow> xdma_engine) \<Rightarrow>
   eng_id \<Rightarrow> drv \<Rightarrow> bool \<times> drv" where
  "coherent K len put clear e s =
     (case dma_alloc_coherent K (notices s) len of
        None \<Rightarrow> (False, upd_eng e clear s)
      | Some bus \<Rightarrow> (True, tell (Acquire (R_coherent bus len)) (upd_eng e (put bus) s)))"

definition alloc_desc :: "'k aenv_scheme \<Rightarrow> eng_id \<Rightarrow> drv \<Rightarrow> bool \<times> drv" where
  "alloc_desc K e s =
     (let n = unat (e_desc_max (engs s e))
      in coherent K (n * sizeof_xdma_desc)
           (\<lambda>bus g. g\<lparr>e_desc_bus := bus, e_desc := Some (replicate n zero_desc)\<rparr>)
           (\<lambda>g. g\<lparr>e_desc := None\<rparr>) e s)"

definition alloc_wb :: "'k aenv_scheme \<Rightarrow> eng_id \<Rightarrow> drv \<Rightarrow> bool \<times> drv" where
  "alloc_wb K e s =
     (if poll_mode K \<noteq> 0
      then coherent K sizeof_xdma_poll_wb
             (\<lambda>bus g. g\<lparr>e_poll_mode_bus := bus, e_poll_mode_addr_virt := Some 0\<rparr>)
             (\<lambda>g. g\<lparr>e_poll_mode_addr_virt := None\<rparr>) e s
      else (True, s))"

definition alloc_result :: "'k aenv_scheme \<Rightarrow> eng_id \<Rightarrow> drv \<Rightarrow> bool \<times> drv" where
  "alloc_result K e s =
     (if e_streaming (engs s e) \<and> e_dir (engs s e) = DMA_FROM_DEVICE
      then let n = unat (e_desc_max (engs s e))
           in coherent K (n * sizeof_xdma_result)
                (\<lambda>bus g. g\<lparr>e_cyclic_result_bus := bus, e_cyclic_result := Some (replicate n zero_result)\<rparr>)
                (\<lambda>g. g\<lparr>e_cyclic_result := None\<rparr>) e s
      else (True, s))"

definition engine_alloc_resource :: "'k aenv_scheme \<Rightarrow> eng_id \<Rightarrow> drv \<Rightarrow> int \<times> drv" where
  "engine_alloc_resource K e s =
     (let (ok, s) = alloc_desc K e s
      in if \<not> ok then (- ENOMEM, engine_free_resource e s)
      else let (ok, s) = alloc_wb K e s
      in if \<not> ok then (- ENOMEM, engine_free_resource e s)
      else let (ok, s) = alloc_result K e s
      in if \<not> ok then (- ENOMEM, engine_free_resource e s)
      else (0, s))"

text \<open>
  \<open>engine_init\<close> first fills in the engine and announces its interrupt to the device
  (\<open>engine_fill\<close>), then allocates its memory and programs its registers.
\<close>

definition irq_bit :: "int \<Rightarrow> u32" where
  "irq_bit num = push_bit (nat (num * int XDMA_ENG_IRQ_NUM)) (push_bit XDMA_ENG_IRQ_NUM 1 - 1)"

definition engine_fill ::
  "'k kenv_scheme \<Rightarrow> eng_id \<Rightarrow> nat \<Rightarrow> nat \<Rightarrow> dma_dir \<Rightarrow> nat \<Rightarrow> drv \<Rightarrow> drv" where
  "engine_fill K e xdev offset dir channel s =
     (let num = dv_engines_num (devs s xdev);
          s = upd_eng e (\<lambda>g. g\<lparr>e_magic := MAGIC_ENGINE, e_channel := channel mod 4,
                               e_irq_bitmask := irq_bit num,
                               e_bypass_offset := word_of_int num * BYPASS_MODE_SPACING,
                               e_xdev := Some xdev, e_regs := config_base s xdev + offset,
                               e_sgdma_regs := config_base s xdev + offset + SGDMA_OFFSET_FROM_CHANNEL\<rparr>) s;
          (val, s) = read_register K (e_regs (engs s e) + er_identifier) s;
          s = upd_eng e (\<lambda>g. g\<lparr>e_streaming := e_streaming g \<or> val AND 0x8000 \<noteq> 0\<rparr>) s;
          s = upd_eng e (\<lambda>g. g\<lparr>e_dir := dir\<rparr>) s;
          s = upd_eng e (\<lambda>g. g\<lparr>e_name := snprintf 16
                (dec_int (dv_idx (devs s xdev)) @ ''-'' @
                 (if dir = DMA_TO_DEVICE then ''H2C'' else ''C2H'') @ dec_nat channel @ ''-'' @
                 (if e_streaming g then ''ST'' else ''MM''))\<rparr>) s;
          s = upd_eng e (\<lambda>g. g\<lparr>e_desc_max := if st_c2h_credit K g then XDMA_ENGINE_CREDIT_XFER_MAX_DESC
                                              else XDMA_ENGINE_XFER_MAX_DESC\<rparr>) s;
          s = upd_dev xdev (\<lambda>v. if dir = DMA_TO_DEVICE
                                then v\<lparr>dv_mask_irq_h2c := dv_mask_irq_h2c v OR irq_bit num\<rparr>
                                else v\<lparr>dv_mask_irq_c2h := dv_mask_irq_c2h v OR irq_bit num\<rparr>) s
      in upd_dev xdev (\<lambda>v. v\<lparr>dv_engines_num := dv_engines_num v + 1\<rparr>) s)"

definition engine_init ::
  "'k aenv_scheme \<Rightarrow> eng_id \<Rightarrow> nat \<Rightarrow> nat \<Rightarrow> dma_dir \<Rightarrow> nat \<Rightarrow> drv \<Rightarrow> int \<times> drv" where
  "engine_init K e xdev offset dir channel s =
     (let s = engine_fill K e xdev offset dir channel s;
          (rv, s) = engine_alloc_resource K e s
      in if rv \<noteq> 0 then (rv, s)
      else let (rv, s) = engine_init_regs K e s
      in if rv \<noteq> 0 then (rv, s)
      else (0, if poll_mode K \<noteq> 0 then xdma_thread_add_work e s else s))"

subsection \<open>Coherent memory\<close>

text \<open>
  The coherent memory an engine owns, and what the driver holds beyond it: the surplus does
  not change when memory is allocated into or freed from the engine's pointers.
\<close>

definition owned :: "xdma_engine \<Rightarrow> resource list" where
  "owned g =
     (if e_poll_mode_addr_virt g \<noteq> None then [R_coherent (e_poll_mode_bus g) sizeof_xdma_poll_wb] else []) @
     (if e_desc g \<noteq> None then [R_coherent (e_desc_bus g) (unat (e_desc_max g) * sizeof_xdma_desc)] else []) @
     (if e_cyclic_result g \<noteq> None
      then [R_coherent (e_cyclic_result_bus g) (unat (e_desc_max g) * sizeof_xdma_result)] else [])"

definition surplus :: "resource \<Rightarrow> eng_id \<Rightarrow> drv \<Rightarrow> int" where
  "surplus r e s = held r s - int (count_list (owned (engs s e)) r)"

lemma surplus_cong:
  "notices s' = notices s \<Longrightarrow> owned (engs s' e) = owned (engs s e) \<Longrightarrow> surplus r e s' = surplus r e s"
  by (simp add: surplus_def held_def)

lemma owned_zero [simp]: "owned zero_engine = []"
  by (simp add: owned_def zero_engine_def)

lemma clear_absent:
  "e_poll_mode_addr_virt g = None \<Longrightarrow> g\<lparr>e_poll_mode_addr_virt := None\<rparr> = g"
  "e_desc g = None \<Longrightarrow> g\<lparr>e_desc := None\<rparr> = g"
  "e_cyclic_result g = None \<Longrightarrow> g\<lparr>e_cyclic_result := None\<rparr> = g"
  by (cases g; simp)+

lemma free_resource_engs:
  "engs (engine_free_resource e s) =
     (engs s)(e := (engs s e)\<lparr>e_poll_mode_addr_virt := None, e_desc := None, e_cyclic_result := None\<rparr>)"
proof (cases "e_poll_mode_addr_virt (engs s e) = None"; cases "e_desc (engs s e) = None";
    cases "e_cyclic_result (engs s e) = None")
qed (simp_all add: engine_free_resource_def Let_def clear_absent)

lemma free_resource_effect:
  "notices (engine_free_resource e s) = notices s @ map Release (owned (engs s e))"
  "devs (engine_free_resource e s) = devs s" "iolog (engine_free_resource e s) = iolog s"
  "cs_threads (engine_free_resource e s) = cs_threads s" "thread_cnt (engine_free_resource e s) = thread_cnt s"
  "xdev_list (engine_free_resource e s) = xdev_list s"
  by (simp_all add: engine_free_resource_def Let_def owned_def)

lemma count_map_release:
  "count_list (map Release rs) (Release r) = count_list rs r" "count_list (map Release rs) (Acquire r) = 0"
  by (induction rs) auto

lemma free_resource_held: "held r (engine_free_resource e s) = surplus r e s"
  using held_append [OF free_resource_effect(1)] by (simp add: surplus_def count_map_release)

lemma free_resource_surplus: "surplus r e (engine_free_resource e s) = surplus r e s"
  by (simp add: surplus_def [of r e "engine_free_resource e s"] free_resource_held
      free_resource_engs owned_def)

text \<open>The part of the state that memory management leaves alone.\<close>

definition aside where
  "aside s = (iolog s, devs s, xfers s, sgts s, xdev_list s, cs_threads s, thread_cnt s)"

lemma aside_simps [simp]:
  "aside (upd_eng e f s) = aside s" "aside (tell n s) = aside s" "aside (engine_free_resource e s) = aside s"
  by (simp_all add: aside_def engine_free_resource_def Let_def)

lemma coherent_effect:
  assumes "coherent K len put clear e s = (ok, s')" and "clear (engs s e) = engs s e"
    and "\<And>bus r. count_list (owned (put bus (engs s e))) r =
           count_list (owned (engs s e)) r + (if r = R_coherent bus len then 1 else 0)"
  shows "aside s' = aside s \<and> (\<forall>r. surplus r e s' = surplus r e s) \<and>
    (if ok then \<exists>bus. engs s' = (engs s)(e := put bus (engs s e)) else engs s' = engs s)"
  using assms
  by (auto simp: coherent_def surplus_def split: option.splits)

lemma alloc_desc_effect:
  assumes "alloc_desc K e s = (ok, s')" and "e_desc (engs s e) = None"
  shows "aside s' = aside s \<and> (\<forall>r. surplus r e s' = surplus r e s) \<and>
    (if ok then \<exists>bus. engs s' = (engs s)(e := (engs s e)
        \<lparr>e_desc_bus := bus, e_desc := Some (replicate (unat (e_desc_max (engs s e))) zero_desc)\<rparr>)
     else engs s' = engs s)"
  using assms(2) by (intro coherent_effect [OF assms(1) [unfolded alloc_desc_def Let_def]])
    (auto simp: clear_absent owned_def)

lemma alloc_wb_effect:
  assumes "alloc_wb K e s = (ok, s')" and "e_poll_mode_addr_virt (engs s e) = None"
  shows "aside s' = aside s \<and> (\<forall>r. surplus r e s' = surplus r e s) \<and>
    (if ok \<and> poll_mode K \<noteq> 0
     then \<exists>bus. engs s' = (engs s)(e := (engs s e)\<lparr>e_poll_mode_bus := bus, e_poll_mode_addr_virt := Some 0\<rparr>)
     else engs s' = engs s)"
proof (cases "poll_mode K = 0")
  case False
  then have "coherent K sizeof_xdma_poll_wb
      (\<lambda>bus g. g\<lparr>e_poll_mode_bus := bus, e_poll_mode_addr_virt := Some 0\<rparr>)
      (\<lambda>g. g\<lparr>e_poll_mode_addr_virt := None\<rparr>) e s = (ok, s')"
    using assms(1) by (simp add: alloc_wb_def)
  from coherent_effect [OF this] show ?thesis
    using assms(2) False by (auto simp: clear_absent owned_def)
qed (use assms(1) in \<open>simp add: alloc_wb_def\<close>)

lemma alloc_result_effect:
  assumes "alloc_result K e s = (ok, s')" and "e_cyclic_result (engs s e) = None"
  shows "aside s' = aside s \<and> (\<forall>r. surplus r e s' = surplus r e s) \<and>
    (if ok \<and> e_streaming (engs s e) \<and> e_dir (engs s e) = DMA_FROM_DEVICE
     then \<exists>bus. engs s' = (engs s)(e := (engs s e)\<lparr>e_cyclic_result_bus := bus,
            e_cyclic_result := Some (replicate (unat (e_desc_max (engs s e))) zero_result)\<rparr>)
     else engs s' = engs s)"
proof (cases "e_streaming (engs s e) \<and> e_dir (engs s e) = DMA_FROM_DEVICE")
  case True
  let ?n = "unat (e_desc_max (engs s e))"
  have "coherent K (?n * sizeof_xdma_result)
      (\<lambda>bus g. g\<lparr>e_cyclic_result_bus := bus, e_cyclic_result := Some (replicate ?n zero_result)\<rparr>)
      (\<lambda>g. g\<lparr>e_cyclic_result := None\<rparr>) e s = (ok, s')"
    using assms(1) True by (simp add: alloc_result_def Let_def)
  from coherent_effect [OF this] show ?thesis
    using assms(2) True by (auto simp: clear_absent owned_def)
qed (use assms(1) in \<open>auto simp: alloc_result_def\<close>)

text \<open>
  An engine's identity: everything but the pointers and bus addresses of its coherent
  memory.
\<close>

definition bare :: "xdma_engine \<Rightarrow> xdma_engine" where
  "bare g = g\<lparr>e_desc_bus := 0, e_desc := None, e_poll_mode_bus := 0, e_poll_mode_addr_virt := None,
     e_cyclic_result_bus := 0, e_cyclic_result := None\<rparr>"

lemma bare_updates [simp]:
  "bare (g\<lparr>e_desc_bus := b\<rparr>) = bare g" "bare (g\<lparr>e_desc := d\<rparr>) = bare g"
  "bare (g\<lparr>e_poll_mode_bus := b\<rparr>) = bare g" "bare (g\<lparr>e_poll_mode_addr_virt := w\<rparr>) = bare g"
  "bare (g\<lparr>e_cyclic_result_bus := b\<rparr>) = bare g" "bare (g\<lparr>e_cyclic_result := c\<rparr>) = bare g"
  by (simp_all add: bare_def)

definition equipped :: "'k kenv_scheme \<Rightarrow> xdma_engine \<Rightarrow> bool" where
  "equipped K g \<longleftrightarrow> e_desc g = Some (replicate (unat (e_desc_max g)) zero_desc) \<and>
     e_poll_mode_addr_virt g = (if poll_mode K \<noteq> 0 then Some 0 else None) \<and>
     e_cyclic_result g = (if e_streaming g \<and> e_dir g = DMA_FROM_DEVICE
                          then Some (replicate (unat (e_desc_max g)) zero_result) else None)"

lemma alloc_resource_effect:
  assumes "engine_alloc_resource K e s = (rv, s')" and "owned (engs s e) = []"
  shows "aside s' = aside s \<and> (\<forall>r. surplus r e s' = surplus r e s) \<and> bare (engs s' e) = bare (engs s e) \<and>
    (\<forall>x. x \<noteq> e \<longrightarrow> engs s' x = engs s x) \<and>
    (rv = 0 \<and> equipped K (engs s' e) \<or> rv = - ENOMEM \<and> owned (engs s' e) = [])"
proof -
  have none: "e_desc (engs s e) = None" "e_poll_mode_addr_virt (engs s e) = None" "e_cyclic_result (engs s e) = None"
    using assms(2) by (auto simp: owned_def split: if_splits)
  obtain ok1 s1 ok2 s2 ok3 s3 where al: "alloc_desc K e s = (ok1, s1)" "alloc_wb K e s1 = (ok2, s2)"
      "alloc_result K e s2 = (ok3, s3)" by (metis surj_pair)
  define good where "good x \<longleftrightarrow> aside x = aside s \<and> (\<forall>r. surplus r e x = surplus r e s) \<and>
    bare (engs x e) = bare (engs s e) \<and> (\<forall>y. y \<noteq> e \<longrightarrow> engs x y = engs s y)" for x
  have freed: "good (engine_free_resource e x) \<and> owned (engs (engine_free_resource e x) e) = []" if "good x" for x
    using that by (simp add: good_def free_resource_surplus free_resource_engs owned_def del: split_paired_All)
  note s1 = alloc_desc_effect [OF al(1) none(1)]
  have g1: "good s1" using s1 by (auto simp: good_def split: if_splits simp del: split_paired_All)
  have "e_poll_mode_addr_virt (engs s1 e) = None" "e_cyclic_result (engs s1 e) = None"
    using s1 none by (auto split: if_splits)
  note s2 = alloc_wb_effect [OF al(2) this(1)] and none2 = this(2)
  have g2: "good s2" using s2 g1 by (auto simp: good_def split: if_splits simp del: split_paired_All)
  have "e_cyclic_result (engs s2 e) = None" using s2 none2 by (auto split: if_splits)
  note s3 = alloc_result_effect [OF al(3) this] and none3 = this
  have g3: "good s3" using s3 g2 by (auto simp: good_def split: if_splits simp del: split_paired_All)
  have eq: "ok1 \<Longrightarrow> e_desc (engs s1 e) = Some (replicate (unat (e_desc_max (engs s1 e))) zero_desc) \<and>
      e_poll_mode_addr_virt (engs s1 e) = None"
    using s1 none by auto
  have "ok1 \<Longrightarrow> ok2 \<Longrightarrow> ok3 \<Longrightarrow> equipped K (engs s3 e)"
    using eq s2 s3 none3 by (auto simp: equipped_def split: if_splits)
  then have "good s' \<and> (rv = 0 \<and> equipped K (engs s' e) \<or> rv = - ENOMEM \<and> owned (engs s' e) = [])"
    using assms(1) al g3 freed [OF g1] freed [OF g2] freed [OF g3]
    by (auto simp: engine_alloc_resource_def split: if_splits)
  then show ?thesis by (auto simp: good_def)
qed

subsection \<open>Registers\<close>

definition ie_mask :: "'k kenv_scheme \<Rightarrow> u32" where
  "ie_mask K =
     XDMA_CTRL_IE_DESC_ALIGN_MISMATCH OR XDMA_CTRL_IE_MAGIC_STOPPED OR XDMA_CTRL_IE_READ_ERROR OR
     XDMA_CTRL_IE_DESC_ERROR OR
     (if poll_mode K \<noteq> 0 then 0 else XDMA_CTRL_IE_DESC_STOPPED OR XDMA_CTRL_IE_DESC_COMPLETED)"

definition init_regs_events :: "'k kenv_scheme \<Rightarrow> nat \<Rightarrow> xdma_engine \<Rightarrow> io_log" where
  "init_regs_events K common g =
     [IoWrite (e_regs g + er_control_w1c) XDMA_CTRL_NON_INCR_ADDR, IoRead (e_regs g + er_alignments)] @
     (if poll_mode K \<noteq> 0
      then [IoWrite (e_regs g + er_poll_mode_wb_lo) (PCI_DMA_L (e_poll_mode_bus g)),
            IoWrite (e_regs g + er_poll_mode_wb_hi) (PCI_DMA_H (e_poll_mode_bus g))] else []) @
     [IoWrite (e_regs g + er_interrupt_enable_mask) (ie_mask K)] @
     (if st_c2h_credit K g
      then [IoWrite (common + cc_credit_mode_enable_w1s) (push_bit 16 (push_bit (e_channel g) 1))] else [])"

lemma alignments_effect:
  "\<exists>a l b. engs (engine_alignments K e s) = (engs s)(e := (engs s e)
       \<lparr>e_addr_align := a, e_len_granularity := l, e_addr_bits := b\<rparr>)"
  "iolog (engine_alignments K e s) = iolog s @ [IoRead (e_regs (engs s e) + er_alignments)]"
  "devs (engine_alignments K e s) = devs s" "notices (engine_alignments K e s) = notices s"
  "cs_threads (engine_alignments K e s) = cs_threads s" "thread_cnt (engine_alignments K e s) = thread_cnt s"
  "xdev_list (engine_alignments K e s) = xdev_list s"
  by (auto simp: engine_alignments_def case_prod_unfold Let_def)

text \<open>The engine after its registers have been programmed.\<close>

definition regs_done :: "'k kenv_scheme \<Rightarrow> u8 \<Rightarrow> u8 \<Rightarrow> u8 \<Rightarrow> xdma_engine \<Rightarrow> xdma_engine" where
  "regs_done K a l b g =
     (let g = g\<lparr>e_addr_align := a, e_len_granularity := l, e_addr_bits := b\<rparr>;
          g = (if poll_mode K \<noteq> 0
               then g\<lparr>e_poll_mode_addr_virt := map_option (\<lambda>_. 0) (e_poll_mode_addr_virt g)\<rparr> else g)
      in g\<lparr>e_interrupt_enable_mask_value := ie_mask K\<rparr>)"

lemma init_regs_effect:
  assumes "e_xdev (engs s e) = Some d" and "engine_init_regs K e s = (rv, s')"
  shows "rv = 0 \<and> notices s' = notices s \<and> devs s' = devs s \<and> cs_threads s' = cs_threads s \<and>
    thread_cnt s' = thread_cnt s \<and> xdev_list s' = xdev_list s \<and>
    iolog s' = iolog s @ init_regs_events K (sgdma_common d s) (engs s e) \<and>
    (\<exists>a l b. engs s' = (engs s)(e := regs_done K a l b (engs s e)))"
proof -
  define s1 where "s1 = write_register XDMA_CTRL_NON_INCR_ADDR (e_regs (engs s e) + er_control_w1c) s"
  define s2 where "s2 = engine_alignments K e s1"
  obtain a l b where al: "engs s2 = (engs s)(e := (engs s e)
       \<lparr>e_addr_align := a, e_len_granularity := l, e_addr_bits := b\<rparr>)"
    using alignments_effect(1) [of K e s1] by (auto simp: s1_def s2_def)
  have s2: "notices s2 = notices s" "devs s2 = devs s" "cs_threads s2 = cs_threads s"
      "thread_cnt s2 = thread_cnt s" "xdev_list s2 = xdev_list s"
      "iolog s2 = iolog s @ [IoWrite (e_regs (engs s e) + er_control_w1c) XDMA_CTRL_NON_INCR_ADDR,
         IoRead (e_regs (engs s e) + er_alignments)]"
    by (simp_all add: s2_def alignments_effect s1_def)
  have regs: "engs s' = (engs s)(e := regs_done K a l b (engs s e))" "rv = 0" "notices s' = notices s"
      "devs s' = devs s" "cs_threads s' = cs_threads s" "thread_cnt s' = thread_cnt s" "xdev_list s' = xdev_list s"
    and log: "iolog s' = iolog s @ init_regs_events K (sgdma_common d s) (engs s e)"
    using assms unfolding engine_init_regs_def s1_def [symmetric] Let_def s2_def [symmetric]
    by (cases "poll_mode K = 0"; cases "st_c2h_credit K (engs s e)";
        force simp: al s2 engine_writeback_setup_def regs_done_def Let_def ie_mask_def or.assoc
          init_regs_events_def sgdma_common_def config_base_def st_c2h_credit_def)+
  then show ?thesis by blast
qed

subsection \<open>Initialising an engine\<close>

lemma irq_bit_pow: "irq_bit n = push_bit (nat n) 1"
  by (simp add: irq_bit_def XDMA_ENG_IRQ_NUM_def)

lemma bit_irq_bit: "bit (irq_bit n) k \<longleftrightarrow> k = nat n \<and> k < 32"
  by (auto simp: irq_bit_pow bit_simps)

lemma irq_bit_disjoint: "nat m \<noteq> nat n \<Longrightarrow> irq_bit m AND irq_bit n = 0"
  by (rule bit_eqI) (auto simp: bit_simps bit_irq_bit)

lemma irq_bit_nonzero: "n < 32 \<Longrightarrow> irq_bit n \<noteq> 0"
proof -
  assume "n < 32"
  then have "bit (irq_bit n) (nat n)" by (simp add: bit_irq_bit)
  then show "irq_bit n \<noteq> 0" by auto
qed

lemma fill_frame:
  "notices (engine_fill K e d off dir ch s) = notices s"
  "cs_threads (engine_fill K e d off dir ch s) = cs_threads s"
  "thread_cnt (engine_fill K e d off dir ch s) = thread_cnt s"
  "xdev_list (engine_fill K e d off dir ch s) = xdev_list s"
  "iolog (engine_fill K e d off dir ch s) = iolog s @ [IoRead (config_base s d + off + er_identifier)]"
  "x \<noteq> e \<Longrightarrow> engs (engine_fill K e d off dir ch s) x = engs s x"
  by (simp_all add: engine_fill_def Let_def case_prod_unfold)

lemma fill_device:
  "devs (engine_fill K e d off dir ch s) = (devs s)(d := (devs s d)
     \<lparr>dv_mask_irq_h2c := dv_mask_irq_h2c (devs s d) OR
        (if dir = DMA_TO_DEVICE then irq_bit (dv_engines_num (devs s d)) else 0),
      dv_mask_irq_c2h := dv_mask_irq_c2h (devs s d) OR
        (if dir = DMA_TO_DEVICE then 0 else irq_bit (dv_engines_num (devs s d))),
      dv_engines_num := dv_engines_num (devs s d) + 1\<rparr>)"
  by (simp add: engine_fill_def Let_def case_prod_unfold)

lemma fill_engine:
  fixes s e K d off dir ch
  defines "g \<equiv> engs (engine_fill K e d off dir ch s) e"
  shows "e_magic g = MAGIC_ENGINE" "e_channel g = ch mod 4" "e_xdev g = Some d" "e_dir g = dir"
    "e_irq_bitmask g = irq_bit (dv_engines_num (devs s d))"
    "e_regs g = config_base s d + off" "e_sgdma_regs g = config_base s d + off + SGDMA_OFFSET_FROM_CHANNEL"
    "e_desc_max g = (if st_c2h_credit K g then XDMA_ENGINE_CREDIT_XFER_MAX_DESC else XDMA_ENGINE_XFER_MAX_DESC)"
    "e_desc_idx g = e_desc_idx (engs s e)" "e_running g = e_running (engs s e)"
    "e_transfer_list g = e_transfer_list (engs s e)" "e_cmplthp g = e_cmplthp (engs s e)"
    "owned g = [] \<longleftrightarrow> owned (engs s e) = []" "e_shutdown g = e_shutdown (engs s e)"
  by (simp_all add: g_def engine_fill_def Let_def case_prod_unfold st_c2h_credit_def owned_def)

lemma config_base_fill: "config_base (engine_fill K e d off dir ch s) d = config_base s d"
  by (simp add: config_base_def fill_device)

lemma bare_fields:
  "e_magic (bare g) = e_magic g" "e_channel (bare g) = e_channel g" "e_xdev (bare g) = e_xdev g"
  "e_dir (bare g) = e_dir g" "e_irq_bitmask (bare g) = e_irq_bitmask g" "e_regs (bare g) = e_regs g"
  "e_sgdma_regs (bare g) = e_sgdma_regs g" "e_desc_max (bare g) = e_desc_max g"
  "e_desc_idx (bare g) = e_desc_idx g" "e_running (bare g) = e_running g"
  "e_transfer_list (bare g) = e_transfer_list g" "e_cmplthp (bare g) = e_cmplthp g"
  "e_streaming (bare g) = e_streaming g" "e_shutdown (bare g) = e_shutdown g"
  by (simp_all add: bare_def)

lemma bare_eqD:
  assumes "bare g = bare h"
  shows "e_magic g = e_magic h" "e_channel g = e_channel h" "e_xdev g = e_xdev h" "e_dir g = e_dir h"
    "e_irq_bitmask g = e_irq_bitmask h" "e_regs g = e_regs h" "e_sgdma_regs g = e_sgdma_regs h"
    "e_desc_max g = e_desc_max h" "e_desc_idx g = e_desc_idx h" "e_running g = e_running h"
    "e_transfer_list g = e_transfer_list h" "e_cmplthp g = e_cmplthp h" "e_streaming g = e_streaming h"
    "e_shutdown g = e_shutdown h"
  using assms by (metis bare_fields)+

lemma add_work_engs:
  "engs (xdma_thread_add_work e s) = (engs s)(e := (engs s e)
     \<lparr>e_intr_work_cpu := chosen_thread s, e_cmplthp := Some (chosen_thread s)\<rparr>)"
  "notices (xdma_thread_add_work e s) = notices s" "devs (xdma_thread_add_work e s) = devs s"
  "iolog (xdma_thread_add_work e s) = iolog s" "xdev_list (xdma_thread_add_work e s) = xdev_list s"
  by (simp_all add: xdma_thread_add_work_def Let_def chosen_thread_def)

lemma regs_done_fields [simp]:
  "e_magic (regs_done K a l b g) = e_magic g" "e_channel (regs_done K a l b g) = e_channel g"
  "e_xdev (regs_done K a l b g) = e_xdev g" "e_dir (regs_done K a l b g) = e_dir g"
  "e_irq_bitmask (regs_done K a l b g) = e_irq_bitmask g" "e_regs (regs_done K a l b g) = e_regs g"
  "e_sgdma_regs (regs_done K a l b g) = e_sgdma_regs g" "e_desc_max (regs_done K a l b g) = e_desc_max g"
  "e_desc_idx (regs_done K a l b g) = e_desc_idx g" "e_running (regs_done K a l b g) = e_running g"
  "e_transfer_list (regs_done K a l b g) = e_transfer_list g" "e_cmplthp (regs_done K a l b g) = e_cmplthp g"
  "e_streaming (regs_done K a l b g) = e_streaming g" "e_shutdown (regs_done K a l b g) = e_shutdown g"
  "e_interrupt_enable_mask_value (regs_done K a l b g) = ie_mask K" "e_desc (regs_done K a l b g) = e_desc g"
  "e_cyclic_result (regs_done K a l b g) = e_cyclic_result g" "owned (regs_done K a l b g) = owned g"
  "e_poll_mode_bus (regs_done K a l b g) = e_poll_mode_bus g" "e_desc_bus (regs_done K a l b g) = e_desc_bus g"
  by (auto simp: regs_done_def Let_def owned_def)

lemma regs_done_equipped: "equipped K g \<Longrightarrow> equipped K (regs_done K a l b g)"
  by (auto simp: regs_done_def Let_def equipped_def)

lemma owned_assigned [simp]: "owned (g\<lparr>e_intr_work_cpu := i, e_cmplthp := c\<rparr>) = owned g"
  by (simp add: owned_def)

text \<open>
  Initialising an engine that owns nothing: on success it is equipped and programmed, on
  failure (only ever for lack of memory) it owns nothing, and either way what the driver
  holds beyond the engine's memory is unchanged.
\<close>

lemma engine_init_effect:
  assumes "owned (engs s e) = []" and "engine_init K e d off dir ch s = (rv, s')"
  shows "(\<forall>r. surplus r e s' = surplus r e s) \<and>
    (rv = 0 \<or> rv = - ENOMEM \<and> owned (engs s' e) = []) \<and>
    devs s' = devs (engine_fill K e d off dir ch s) \<and> xdev_list s' = xdev_list s \<and>
    (\<forall>x. x \<noteq> e \<longrightarrow> engs s' x = engs s x) \<and>
    (\<exists>g. bare g = bare (engs (engine_fill K e d off dir ch s) e) \<and>
       (if rv \<noteq> 0 then engs s' e = g \<and> cs_threads s' = cs_threads s \<and> thread_cnt s' = thread_cnt s
        else equipped K g \<and>
          (\<exists>s2 a l b. cs_threads s2 = cs_threads s \<and> thread_cnt s2 = thread_cnt s \<and>
             engs s2 = (engs s)(e := regs_done K a l b g) \<and>
             s' = (if poll_mode K \<noteq> 0 then xdma_thread_add_work e s2 else s2) \<and>
             iolog s2 = iolog s @ IoRead (config_base s d + off + er_identifier) #
               init_regs_events K (config_base s d + 0x6 * TARGET_SPACING) g)))"
proof -
  define s0 where "s0 = engine_fill K e d off dir ch s"
  obtain rv1 s1 where al: "engine_alloc_resource K e s0 = (rv1, s1)" by fastforce
  have owned0: "owned (engs s0 e) = []" using assms(1) fill_engine(13) unfolding s0_def by blast
  note a1 = alloc_resource_effect [OF al owned0]
  have frame1: "devs s1 = devs s0" "cs_threads s1 = cs_threads s" "thread_cnt s1 = thread_cnt s"
      "iolog s1 = iolog s0" "xdev_list s1 = xdev_list s"
    using a1 by (simp_all add: aside_def s0_def fill_frame)
  have sur0: "surplus r e s0 = surplus r e s" for r
    using assms(1) owned0 by (intro surplus_cong) (simp_all add: s0_def fill_frame)
  have other: "\<forall>x. x \<noteq> e \<longrightarrow> engs s1 x = engs s x" using a1 by (simp add: s0_def fill_frame)
  show ?thesis
  proof (cases "rv1 = 0")
    case False
    then have "rv = rv1" "s' = s1" using assms(2) al by (simp_all add: engine_init_def s0_def [symmetric])
    then show ?thesis using a1 False frame1 sur0 other
      by (auto simp: s0_def simp del: split_paired_All)
  next
    case True
    obtain rv2 s2 where reg: "engine_init_regs K e s1 = (rv2, s2)" by fastforce
    have "e_xdev (engs s1 e) = Some d" using bare_eqD(3) a1 fill_engine(3) unfolding s0_def by metis
    note r2 = init_regs_effect [OF this reg]
    then obtain a l b where g: "engs s2 = (engs s1)(e := regs_done K a l b (engs s1 e))" by blast
    have common: "sgdma_common d s1 = config_base s d + 0x6 * TARGET_SPACING"
      using frame1(1) config_base_fill unfolding s0_def by (simp add: sgdma_common_def config_base_def)
    have s': "rv = 0" "s' = (if poll_mode K \<noteq> 0 then xdma_thread_add_work e s2 else s2)"
      using assms(2) al reg True r2 by (simp_all add: engine_init_def s0_def [symmetric])
    have eq: "(engs s1)(e := g) = (engs s)(e := g)" for g
      using other by (auto simp: fun_eq_iff)
    have "owned (engs s' e) = owned (engs s1 e)" "notices s' = notices s1" "devs s' = devs s1"
        "xdev_list s' = xdev_list s" "\<forall>x. x \<noteq> e \<longrightarrow> engs s' x = engs s x"
      using g r2 frame1(5) other by (simp_all add: s'(2) add_work_engs del: split_paired_All)
    note fin = this
    have sur: "surplus r e s' = surplus r e s" for r
      using surplus_cong [OF fin(2,1)] a1 sur0 by simp
    let ?ex = "\<exists>s2 a l b. cs_threads s2 = cs_threads s \<and> thread_cnt s2 = thread_cnt s \<and>
       engs s2 = (engs s)(e := regs_done K a l b (engs s1 e)) \<and>
       s' = (if poll_mode K \<noteq> 0 then xdma_thread_add_work e s2 else s2) \<and>
       iolog s2 = iolog s @ IoRead (config_base s d + off + er_identifier) #
         init_regs_events K (config_base s d + 0x6 * TARGET_SPACING) (engs s1 e)"
    have "iolog s2 = iolog s @ IoRead (config_base s d + off + er_identifier) #
         init_regs_events K (config_base s d + 0x6 * TARGET_SPACING) (engs s1 e)"
      using r2 frame1(4) common by (simp add: s0_def fill_frame)
    then have ex: ?ex using r2 frame1(2,3) g eq s'(2) by metis
    have "bare (engs s1 e) = bare (engs s0 e)" "equipped K (engs s1 e)"
      using a1 True by (auto simp: ENOMEM_def)
    then show ?thesis unfolding s'(1) s0_def [symmetric]
      using sur fin(3-5) frame1(1) ex by (intro conjI exI [of _ "engs s1 e"]) simp_all
  qed
qed

lemma coherent_succeeds:
  "\<forall>l n. dma_alloc_coherent K l n \<noteq> None \<Longrightarrow> fst (coherent K len put clear e s)"
  by (auto simp: coherent_def split: option.splits)

lemma engine_init_succeeds:
  assumes "\<forall>l n. dma_alloc_coherent K l n \<noteq> None" and "owned (engs s e) = []"
  obtains s' where "engine_init K e d off dir ch s = (0, s')"
proof -
  obtain rv s' where init: "engine_init K e d off dir ch s = (rv, s')" by fastforce
  define s0 where "s0 = engine_fill K e d off dir ch s"
  obtain rv1 s1 where al: "engine_alloc_resource K e s0 = (rv1, s1)" by fastforce
  have ok: "rv1 = 0"
    using al coherent_succeeds [OF assms(1)]
    by (auto simp: engine_alloc_resource_def alloc_desc_def alloc_wb_def alloc_result_def Let_def
        case_prod_unfold split: if_splits)
  have "rv = 0"
  proof -
    have "owned (engs s0 e) = []" using assms(2) fill_engine(13) unfolding s0_def by blast
    then have "e_xdev (engs s1 e) = Some d"
      using alloc_resource_effect [OF al] bare_eqD(3) fill_engine(3) unfolding s0_def by metis
    then have "fst (engine_init_regs K e s1) = 0"
      using init_regs_effect [where K = K and e = e and s = s1 and d = d] by (metis prod.collapse)
    then show ?thesis using init al ok
      by (simp add: engine_init_def s0_def [symmetric] case_prod_unfold Let_def)
  qed
  then show ?thesis using init that by simp
qed

lemma destroy_effect:
  obtains s' where "engine_destroy K (Some d) (Some e) s = (0, s')"
    and "\<forall>r. held r s' = surplus r e s" and "engs s' = (engs s)(e := zero_engine)"
    and "devs s' = (devs s)(d := (devs s d)\<lparr>dv_engines_num := dv_engines_num (devs s d) - 1\<rparr>)"
proof -
  define s1 where "s1 = write_register 0 (e_regs (engs s e) + er_interrupt_enable_mask) s"
  define s2 where "s2 = (if st_c2h_credit K (engs s1 e)
      then write_register (push_bit 16 (push_bit (e_channel (engs s1 e)) 1))
             (sgdma_common d s1 + cc_credit_mode_enable_w1c) s1 else s1)"
  define s3 where "s3 = (if poll_mode K \<noteq> 0 then xdma_thread_remove_work e s2 else s2)"
  have s3: "notices s3 = notices s" "owned (engs s3 e) = owned (engs s e)" "devs s3 = devs s"
      "\<forall>x. x \<noteq> e \<longrightarrow> engs s3 x = engs s x"
    by (auto simp: s3_def s2_def s1_def remove_work_effect xdma_thread_remove_work_def Let_def owned_def
        split: option.split)
  let ?s = "upd_dev d (\<lambda>v. v\<lparr>dv_engines_num := dv_engines_num v - 1\<rparr>)
      (upd_eng e (\<lambda>g. zero_engine) (engine_free_resource e s3))"
  have "engine_destroy K (Some d) (Some e) s = (0, ?s)"
    unfolding s3_def s2_def s1_def by (simp add: engine_destroy_def Let_def)
  moreover have "held r ?s = surplus r e s" for r
    using surplus_cong [OF s3(1,2)] by (simp add: free_resource_held)
  moreover have "engs ?s = (engs s)(e := zero_engine)"
    using s3(4) by (auto simp: fun_eq_iff free_resource_engs)
  ultimately show ?thesis using that [of ?s] s3(3) by (simp add: free_resource_effect)
qed

subsection \<open>Properties\<close>

text \<open>
  C19: Initialising a cleared engine succeeds when memory is available and leaves an engine
  that is ready for transfers: tagged, attached to its device, idle with an empty queue,
  its descriptor array allocated to its full length, the result array too for a streaming
  C2H engine. Its interrupt bit is the next free one and is announced in the device's mask
  for its direction. The interrupt mask the engine remembers is the one it wrote to the
  hardware, and in polled mode the two writeback registers hold the address of its
  writeback word and the engine has been given to a thread.
\<close>

theorem engine_init_ready:
  assumes "engs s e = zero_engine" and "\<forall>l n. dma_alloc_coherent K l n \<noteq> None" and "off < 0x2000"
    and "poll_mode K \<noteq> 0 \<longrightarrow> pool_inv s"
  shows "\<exists>s'. engine_init K e d off dir ch s = (0, s') \<and>
    (let g = engs s' e; n = dv_engines_num (devs s d); new = drop (length (iolog s)) (iolog s')
     in e_magic g = MAGIC_ENGINE \<and> e_xdev g = Some d \<and> e_dir g = dir \<and> e_channel g = ch mod 4 \<and>
        engine_ready g \<and> \<not> e_running g \<and> e_transfer_list g = [] \<and>
        (e_streaming g \<and> dir = DMA_FROM_DEVICE \<longrightarrow>
           e_cyclic_result g = Some (replicate (unat (e_desc_max g)) zero_result)) \<and>
        e_irq_bitmask g = irq_bit n \<and> dv_engines_num (devs s' d) = n + 1 \<and>
        dv_mask_irq_h2c (devs s' d) = dv_mask_irq_h2c (devs s d) OR (if dir = DMA_TO_DEVICE then irq_bit n else 0) \<and>
        dv_mask_irq_c2h (devs s' d) = dv_mask_irq_c2h (devs s d) OR (if dir = DMA_TO_DEVICE then 0 else irq_bit n) \<and>
        writes_to (e_regs g + er_interrupt_enable_mask) new = [e_interrupt_enable_mask_value g] \<and>
        (poll_mode K \<noteq> 0 \<longrightarrow>
           writes_to (e_regs g + er_poll_mode_wb_lo) new = [PCI_DMA_L (e_poll_mode_bus g)] \<and>
           writes_to (e_regs g + er_poll_mode_wb_hi) new = [PCI_DMA_H (e_poll_mode_bus g)] \<and>
           e_poll_mode_addr_virt g = Some 0 \<and> pool_inv s' \<and> e_cmplthp g \<noteq> None))"
proof -
  obtain s' where init: "engine_init K e d off dir ch s = (0, s')"
    using engine_init_succeeds [OF assms(2)] assms(1) by (metis owned_zero)
  define f where "f = engs (engine_fill K e d off dir ch s) e"
  obtain g s2 a l b where eff: "bare g = bare f" "equipped K g" "cs_threads s2 = cs_threads s"
      "thread_cnt s2 = thread_cnt s" "engs s2 = (engs s)(e := regs_done K a l b g)"
      "s' = (if poll_mode K \<noteq> 0 then xdma_thread_add_work e s2 else s2)"
      "iolog s2 = iolog s @ IoRead (config_base s d + off + er_identifier) #
         init_regs_events K (config_base s d + 0x6 * TARGET_SPACING) g"
      "devs s' = devs (engine_fill K e d off dir ch s)"
    using engine_init_effect [OF _ init] assms(1) by (auto simp: f_def)
  note bf = bare_eqD [OF eff(1)] fill_engine [where K = K and e = e and d = d and off = off and dir = dir
      and ch = ch and s = s, folded f_def]
  have zero: "e_desc_idx zero_engine = 0" "\<not> e_running zero_engine" "e_transfer_list zero_engine = []"
    "e_cmplthp zero_engine = None" by (simp_all add: zero_engine_def)
  have regs: "e_regs g = config_base s d + off" using bf by simp
  have log: "writes_to (e_regs g + er_interrupt_enable_mask)
      (init_regs_events K (config_base s d + 0x6 * TARGET_SPACING) g) = [ie_mask K]"
    "poll_mode K \<noteq> 0 \<Longrightarrow> writes_to (e_regs g + er_poll_mode_wb_lo)
      (init_regs_events K (config_base s d + 0x6 * TARGET_SPACING) g) = [PCI_DMA_L (e_poll_mode_bus g)]"
    "poll_mode K \<noteq> 0 \<Longrightarrow> writes_to (e_regs g + er_poll_mode_wb_hi)
      (init_regs_events K (config_base s d + 0x6 * TARGET_SPACING) g) = [PCI_DMA_H (e_poll_mode_bus g)]"
    using assms(3) by (simp_all add: init_regs_events_def regs TARGET_SPACING_def)
  have "engine_ready g" using eff(2) bf zero assms(1)
    by (auto simp: engine_ready_def equipped_def XDMA_ENGINE_CREDIT_XFER_MAX_DESC_def XDMA_ENGINE_XFER_MAX_DESC_def)
  moreover define h where "h = engs s' e"
  have h: "e_magic h = e_magic g" "e_channel h = e_channel g" "e_xdev h = e_xdev g" "e_dir h = e_dir g"
    "e_irq_bitmask h = e_irq_bitmask g" "e_regs h = e_regs g" "e_desc_max h = e_desc_max g"
    "e_desc_idx h = e_desc_idx g" "e_running h = e_running g" "e_transfer_list h = e_transfer_list g"
    "e_streaming h = e_streaming g" "e_interrupt_enable_mask_value h = ie_mask K" "e_desc h = e_desc g"
    "e_cyclic_result h = e_cyclic_result g" "e_poll_mode_bus h = e_poll_mode_bus g"
    "poll_mode K \<noteq> 0 \<Longrightarrow> e_cmplthp h \<noteq> None"
    by (simp_all add: h_def eff(5,6) add_work_engs)
  ultimately have ready: "engine_ready h" by (cases "e_desc g") (simp_all add: engine_ready_def)
  have new: "drop (length (iolog s)) (iolog s') = IoRead (config_base s d + off + er_identifier) #
      init_regs_events K (config_base s d + 0x6 * TARGET_SPACING) g"
    by (simp add: eff(6,7) add_work_engs)
  have poll: "pool_inv s' \<and> e_poll_mode_addr_virt h = Some 0" if "poll_mode K \<noteq> 0"
  proof -
    have same: "e_cmplthp (engs s2 x) = e_cmplthp (engs s x)" for x
      using bf zero(4) assms(1) by (simp add: eff(5))
    have "pool_inv s2" using assms(4) that eff(3,4) same
      by (simp add: pool_inv_def thread_ok_def del: split_paired_All)
    moreover have "e_cmplthp (engs s2 e) = None" using same assms(1) zero(4) by simp
    moreover have "equipped K (regs_done K a l b g)" using eff(2) by (rule regs_done_equipped)
    ultimately show ?thesis using that add_work_inv
      by (simp add: h_def eff(5,6) add_work_engs equipped_def)
  qed
  show ?thesis
    using init ready h bf zero assms(1) log poll eff(2)
    unfolding h_def [symmetric] eff(8) fill_device
    by (intro exI [of _ s'] conjI) (simp_all add: new Let_def h_def [symmetric] eff(8) fill_device equipped_def)
qed

definition sample_aenv :: "(notice list \<Rightarrow> u64 option) \<Rightarrow> aenv" where
  "sample_aenv mem = tenv.extend (sample_tenv [0] [Some 7]) \<lparr>dma_alloc_coherent = (\<lambda>l n. mem l)\<rparr>"

definition sample_cleared :: drv where
  "sample_cleared = sample_drv\<lparr>engs := (\<lambda>_. zero_engine)\<rparr>"

lemma sample_aenv_fields [simp]:
  "dma_alloc_coherent (sample_aenv mem) = (\<lambda>l n. mem l)" "poll_mode (sample_aenv mem) = 0"
  "enable_st_c2h_credit (sample_aenv mem) = 0" "engs sample_cleared = (\<lambda>_. zero_engine)"
  "dv_engines_num (devs sample_cleared d) = 0" "notices sample_cleared = []"
  by (simp_all add: sample_aenv_def sample_tenv_def tenv.defs kenv.defs sample_env_def sample_cleared_def
      sample_dev_def zero_dev_def)

theorem engine_init_ready_witness:
  "\<exists>s'. engine_init (sample_aenv (\<lambda>_. Some 0x1000)) (0, H2C, 0) 0 0 DMA_TO_DEVICE 0 sample_cleared = (0, s') \<and>
     engine_ready (engs s' (0, H2C, 0)) \<and> e_irq_bitmask (engs s' (0, H2C, 0)) = 1"
  using engine_init_ready [of sample_cleared "(0, H2C, 0)" "sample_aenv (\<lambda>_. Some 0x1000)" 0 0
      DMA_TO_DEVICE 0]
  by (auto simp: Let_def irq_bit_pow)

text \<open>
  C20: No memory is lost or freed twice. When initialising an engine fails, it fails for
  lack of memory and everything it had allocated has been freed again; when it succeeds,
  destroying the engine frees exactly what the initialisation allocated, clears the
  structure and takes the engine out of the device's count.
\<close>

theorem engine_memory_balanced:
  assumes "owned (engs s e) = []" and "engine_init K e d off dir ch s = (rv, s1)"
  shows "if rv = 0
    then \<exists>s2. engine_destroy K (Some d) (Some e) s1 = (0, s2) \<and> engs s2 e = zero_engine \<and>
      dv_engines_num (devs s2 d) = dv_engines_num (devs s d) \<and> (\<forall>r. held r s2 = held r s)
    else rv = - ENOMEM \<and> owned (engs s1 e) = [] \<and> (\<forall>r. held r s1 = held r s)"
proof -
  note eff = engine_init_effect [OF assms]
  obtain s2 where s2: "engine_destroy K (Some d) (Some e) s1 = (0, s2)" "\<forall>r. held r s2 = surplus r e s1"
      "engs s2 = (engs s1)(e := zero_engine)"
      "devs s2 = (devs s1)(d := (devs s1 d)\<lparr>dv_engines_num := dv_engines_num (devs s1 d) - 1\<rparr>)"
    by (rule destroy_effect [of K d e s1])
  show ?thesis
  proof (cases "rv = 0")
    case True
    then show ?thesis using s2 eff assms(1) by (simp add: surplus_def fill_device)
  next
    case False
    then show ?thesis using eff assms(1) by (auto simp: surplus_def ENOMEM_def)
  qed
qed

theorem engine_memory_balanced_witness:
  "\<exists>s1. engine_init (sample_aenv (\<lambda>_. None)) (0, H2C, 0) 0 0 DMA_TO_DEVICE 0 sample_cleared = (- ENOMEM, s1) \<and>
     held (R_coherent 0x1000 0x10000) s1 = 0"
proof -
  let ?r = "engine_init (sample_aenv (\<lambda>_. None)) (0, H2C, 0) 0 0 DMA_TO_DEVICE 0 sample_cleared"
  have "fst ?r \<noteq> 0"
    by (simp add: engine_init_def Let_def case_prod_unfold engine_alloc_resource_def alloc_desc_def
        coherent_def ENOMEM_def)
  then show ?thesis
    using engine_memory_balanced [OF _ pair_collapse [of ?r]]
    by (intro exI [of _ "snd ?r"]) (simp add: prod_eq_iff held_def)
qed

end
