(* ===== verification/Xdma_Irq.thy ===== *)
theory Xdma_Irq
  imports Xdma_EngineInit
begin

text \<open>
  Interrupts (libxdma.c, \<open>user_irq_service\<close> to \<open>xdma_channel_irq\<close> and the setup and teardown
  of MSI-X, MSI and legacy interrupts). A pointer to a user interrupt is the device and the
  index in its array. The PCI core is a parameter: the capabilities of the device, the
  vector of an entry, and what the allocation of vectors and \<open>request_irq\<close> return, which may
  depend on what the driver has told the kernel before.
\<close>

record ienv = aenv +
  user_handler :: "nat \<Rightarrow> nat \<Rightarrow> nat \<Rightarrow> int"
  pci_no_msi :: "nat \<Rightarrow> bool"
  pci_bus_no_msi :: "nat \<Rightarrow> bool list"
  pci_find_capability :: "nat \<Rightarrow> nat \<Rightarrow> nat"
  pci_alloc_irq_vectors :: "nat \<Rightarrow> nat \<Rightarrow> int"
  pci_enable_msi :: "nat \<Rightarrow> int"
  pci_irq_vector :: "nat \<Rightarrow> nat \<Rightarrow> u32"
  pdev_irq :: "nat \<Rightarrow> u32"
  request_irq :: "notice list \<Rightarrow> u32 \<Rightarrow> int"
  pci_read_config_word :: "notice list \<Rightarrow> nat \<Rightarrow> nat \<Rightarrow> u16"
  pci_read_config_byte :: "nat \<Rightarrow> nat \<Rightarrow> u8"

definition IRQ_NONE :: int where [xdma_const]: "IRQ_NONE = 0"
definition IRQ_HANDLED :: int where [xdma_const]: "IRQ_HANDLED = 1"
definition PCI_CAP_ID_MSI :: nat where [xdma_const]: "PCI_CAP_ID_MSI = 0x05"
definition PCI_CAP_ID_MSIX :: nat where [xdma_const]: "PCI_CAP_ID_MSIX = 0x11"
definition PCI_COMMAND :: nat where [xdma_const]: "PCI_COMMAND = 0x04"
definition PCI_COMMAND_INTX_DISABLE :: u16 where [xdma_const]: "PCI_COMMAND_INTX_DISABLE = 0x400"
definition PCI_STATUS :: nat where [xdma_const]: "PCI_STATUS = 0x06"
definition PCI_STATUS_INTERRUPT :: u16 where [xdma_const]: "PCI_STATUS_INTERRUPT = 0x08"
definition PCI_INTERRUPT_PIN :: nat where [xdma_const]: "PCI_INTERRUPT_PIN = 0x3d"

subsection \<open>Handlers\<close>

definition upd_user_irq :: "nat \<Rightarrow> nat \<Rightarrow> (xdma_user_irq \<Rightarrow> xdma_user_irq) \<Rightarrow> drv \<Rightarrow> drv" where
  "upd_user_irq d i f s =
     upd_dev d (\<lambda>v. v\<lparr>dv_user_irq := (dv_user_irq v)[i := f (dv_user_irq v ! i)]\<rparr>) s"

definition user_irq_service :: "'k ienv_scheme \<Rightarrow> (nat \<times> nat) option \<Rightarrow> drv \<Rightarrow> int \<times> drv" where
  "user_irq_service K user_irq s =
     (case user_irq of None \<Rightarrow> (IRQ_NONE, s)
      | Some (d, i) \<Rightarrow>
        (let u = dv_user_irq (devs s d) ! i
         in case u_handler u of
              Some h \<Rightarrow> (user_handler K h (u_user_idx u) (u_dev u),
                         tell (Call_user_handler h (u_user_idx u) (u_dev u)) s)
            | None \<Rightarrow>
                (IRQ_HANDLED,
                 if u_events_irq u = 0
                 then tell (Wake_user_events d i) (upd_user_irq d i (\<lambda>u. u\<lparr>u_events_irq := 1\<rparr>) s)
                 else s)))"

fun user_loop :: "'k ienv_scheme \<Rightarrow> nat \<Rightarrow> nat list \<Rightarrow> u32 \<Rightarrow> u32 \<Rightarrow> drv \<Rightarrow> drv" where
  "user_loop K d [] msk user_irq s = s"
| "user_loop K d (user # users) msk user_irq s =
     (if user_irq = 0 then s
      else if user_irq AND msk \<noteq> 0
      then user_loop K d users (push_bit 1 msk) (user_irq AND NOT msk)
             (snd (user_irq_service K (Some (d, user)) s))
      else user_loop K d users (push_bit 1 msk) user_irq s)"

fun channel_loop :: "nat \<Rightarrow> side \<Rightarrow> nat list \<Rightarrow> u32 \<Rightarrow> drv \<Rightarrow> drv" where
  "channel_loop d sd [] msk s = s"
| "channel_loop d sd (channel # channels) msk s =
     (if msk = 0 then s
      else let engine = (d, sd, channel)
           in if e_irq_bitmask (engs s engine) AND msk \<noteq> 0 \<and> e_magic (engs s engine) = MAGIC_ENGINE
              then channel_loop d sd channels (msk AND NOT (e_irq_bitmask (engs s engine)))
                     (tell (Schedule_work engine) s)
              else channel_loop d sd channels msk s)"

definition xdma_isr :: "'k ienv_scheme \<Rightarrow> nat option \<Rightarrow> drv \<Rightarrow> int \<times> drv" where
  "xdma_isr K dev_id s =
     (case dev_id of None \<Rightarrow> (- IRQ_NONE, s)
      | Some d \<Rightarrow>
        (let irq_regs = config_base s d + XDMA_OFS_INT_CTRL;
             (ch_irq, s) = read_register K (irq_regs + ir_channel_int_request) s;
             s = (if ch_irq \<noteq> 0 then channel_interrupts_disable d ch_irq s else s);
             (user_irq, s) = read_register K (irq_regs + ir_user_int_request) s;
             s = (if user_irq \<noteq> 0
                  then user_loop K d [0..<dv_user_max (devs s d)] 1 user_irq s else s);
             msk = ch_irq AND dv_mask_irq_h2c (devs s d);
             s = (if msk \<noteq> 0
                  then channel_loop d H2C [0..<dv_h2c_channel_max (devs s d)] msk s else s);
             msk = ch_irq AND dv_mask_irq_c2h (devs s d);
             s = (if msk \<noteq> 0
                  then channel_loop d C2H [0..<dv_c2h_channel_max (devs s d)] msk s else s)
         in (IRQ_HANDLED, upd_dev d (\<lambda>v. v\<lparr>dv_irq_count := dv_irq_count v + 1\<rparr>) s)))"

definition xdma_user_irq_handler :: "'k ienv_scheme \<Rightarrow> (nat \<times> nat) option \<Rightarrow> drv \<Rightarrow> int \<times> drv" where
  "xdma_user_irq_handler K dev_id s =
     (case dev_id of None \<Rightarrow> (IRQ_NONE, s) | Some u \<Rightarrow> user_irq_service K (Some u) s)"

definition xdma_channel_irq :: "'k ienv_scheme \<Rightarrow> eng_id option \<Rightarrow> drv \<Rightarrow> int \<times> drv" where
  "xdma_channel_irq K dev_id s =
     (case dev_id of None \<Rightarrow> (IRQ_NONE, s)
      | Some e \<Rightarrow> (case e_xdev (engs s e) of None \<Rightarrow> (IRQ_NONE, s)
        | Some d \<Rightarrow>
          (let irq_regs = config_base s d + XDMA_OFS_INT_CTRL;
               s = write_register (e_interrupt_enable_mask_value (engs s e))
                     (e_regs (engs s e) + er_interrupt_enable_mask_w1c) s;
               s = snd (read_register K (irq_regs + ir_channel_int_pending) s);
               s = tell (Schedule_work e) s
           in (IRQ_HANDLED, upd_dev d (\<lambda>v. v\<lparr>dv_irq_count := dv_irq_count v + 1\<rparr>) s))))"

subsection \<open>Enabling MSI and MSI-X\<close>

definition arch_msi_check_device :: "nat \<Rightarrow> nat \<Rightarrow> nat \<Rightarrow> int" where
  "arch_msi_check_device dev nvec type = 0"

definition msi_msix_capable :: "'k ienv_scheme \<Rightarrow> nat \<Rightarrow> nat \<Rightarrow> bool" where
  "msi_msix_capable K dev type \<longleftrightarrow>
     dev \<noteq> 0 \<and> \<not> pci_no_msi K dev \<and> (\<forall>no_msi\<in>set (pci_bus_no_msi K dev). \<not> no_msi) \<and>
     arch_msi_check_device dev 1 type = 0 \<and> pci_find_capability K dev type \<noteq> 0"

definition disable_msi_msix :: "nat \<Rightarrow> nat \<Rightarrow> drv \<Rightarrow> drv" where
  "disable_msi_msix d pdev s =
     (if dv_msix_enabled (devs s d)
      then upd_dev d (\<lambda>v. v\<lparr>dv_msix_enabled := False\<rparr>) (tell (Release (R_msix pdev)) s)
      else if dv_msi_enabled (devs s d)
      then upd_dev d (\<lambda>v. v\<lparr>dv_msi_enabled := False\<rparr>) (tell (Release (R_msi pdev)) s)
      else s)"

text \<open>A failing call acquires nothing; the driver sets its flag all the same.\<close>

definition enable_msi_msix :: "'k ienv_scheme \<Rightarrow> nat option \<Rightarrow> nat \<Rightarrow> drv \<Rightarrow> int \<times> drv" where
  "enable_msi_msix K xdev pdev s =
     (case xdev of None \<Rightarrow> (- EINVAL, s)
      | Some d \<Rightarrow>
        if pdev = 0 then (- EINVAL, s)
        else if (interrupt_mode K = 3 \<or> interrupt_mode K = 0) \<and> msi_msix_capable K pdev PCI_CAP_ID_MSIX
        then let req_nvec = dv_c2h_channel_max (devs s d) + dv_h2c_channel_max (devs s d) +
                            dv_user_max (devs s d);
                 rv = pci_alloc_irq_vectors K pdev req_nvec;
                 s = (if rv < 0 then s else tell (Acquire (R_msix pdev)) s)
             in (rv, upd_dev d (\<lambda>v. v\<lparr>dv_msix_enabled := True\<rparr>) s)
        else if (interrupt_mode K = 1 \<or> interrupt_mode K = 0) \<and> msi_msix_capable K pdev PCI_CAP_ID_MSI
        then let rv = pci_enable_msi K pdev;
                 s = (if rv < 0 then s else tell (Acquire (R_msi pdev)) s)
             in (rv, upd_dev d (\<lambda>v. v\<lparr>dv_msi_enabled := True\<rparr>) s)
        else (0, s))"

definition pci_check_intr_pend :: "'k ienv_scheme \<Rightarrow> nat \<Rightarrow> drv \<Rightarrow> drv" where
  "pci_check_intr_pend K pdev s =
     (let v = pci_read_config_word K (notices s) pdev PCI_STATUS
      in if v AND PCI_STATUS_INTERRUPT \<noteq> 0
         then tell (Pci_write_config pdev PCI_STATUS PCI_STATUS_INTERRUPT) s else s)"

definition pci_keep_intx_enabled :: "'k ienv_scheme \<Rightarrow> nat \<Rightarrow> drv \<Rightarrow> drv" where
  "pci_keep_intx_enabled K pdev s =
     (let pcmd = pci_read_config_word K (notices s) pdev PCI_COMMAND;
          pcmd_new = pcmd AND NOT PCI_COMMAND_INTX_DISABLE
      in if pcmd_new \<noteq> pcmd then tell (Pci_write_config pdev PCI_COMMAND pcmd_new) s else s)"

subsection \<open>Programming the vector registers\<close>

primrec pack_loop :: "nat \<Rightarrow> nat \<Rightarrow> nat \<Rightarrow> nat \<Rightarrow> u32 \<Rightarrow> nat \<times> u32" where
  "pack_loop 0 i mx shift val = (i, val)"
| "pack_loop (Suc k) i mx shift val =
     (if i < mx
      then pack_loop k (i + 1) mx (shift + 8) (val OR push_bit shift (of_nat i AND 0x1f))
      else (i, val))"

lemma pack_loop_index: "i \<le> mx \<Longrightarrow> fst (pack_loop k i mx sh v) = min mx (i + k)"
  by (induction k arbitrary: i sh v) auto

function prog_loop :: "nat \<Rightarrow> nat \<Rightarrow> nat \<Rightarrow> bool \<Rightarrow> nat \<Rightarrow> drv \<Rightarrow> drv" where
  "prog_loop vector j i clear mx s =
     (if \<not> i < mx then s
      else let (i, val) = (if clear then (i + 4, 0) else pack_loop 4 i mx 0 0)
           in prog_loop vector (j + 1) i clear mx (write_register val (vector + 4 * j) s))"
  by pat_completeness auto
termination
  by (relation "measure (\<lambda>(vector, j, i, clear, mx, s). mx - i)")
    (auto simp: pack_loop_index split: if_splits dest!: arg_cong [where f = fst])

declare prog_loop.simps [simp del]

definition prog_irq_msix_user :: "nat \<Rightarrow> bool \<Rightarrow> drv \<Rightarrow> drv" where
  "prog_irq_msix_user d clear s =
     (let int_regs = config_base s d + XDMA_OFS_INT_CTRL;
          i = dv_c2h_channel_max (devs s d) + dv_h2c_channel_max (devs s d);
          mx = i + dv_user_max (devs s d)
      in prog_loop (int_regs + ir_user_msi_vector) 0 i clear mx s)"

definition prog_irq_msix_channel :: "nat \<Rightarrow> bool \<Rightarrow> drv \<Rightarrow> drv" where
  "prog_irq_msix_channel d clear s =
     (let int_regs = config_base s d + XDMA_OFS_INT_CTRL;
          mx = dv_c2h_channel_max (devs s d) + dv_h2c_channel_max (devs s d)
      in prog_loop (int_regs + ir_channel_msi_vector) 0 0 clear mx s)"

subsection \<open>Requesting and releasing interrupt lines\<close>

definition ask_irq :: "'k ienv_scheme \<Rightarrow> u32 \<Rightarrow> irq_cookie \<Rightarrow> drv \<Rightarrow> int \<times> drv" where
  "ask_irq K line cookie s =
     (let rv = request_irq K (notices s) line
      in (rv, if rv = 0 then tell (Acquire (R_irq line cookie)) s else s))"

definition free_irq :: "u32 \<Rightarrow> irq_cookie \<Rightarrow> drv \<Rightarrow> drv" where
  "free_irq line cookie s = tell (Release (R_irq line cookie)) s"

fun teardown_loop :: "nat \<Rightarrow> side \<Rightarrow> nat list \<Rightarrow> drv \<Rightarrow> drv" where
  "teardown_loop d sd [] s = s"
| "teardown_loop d sd (i # is) s =
     (let engine = (d, sd, i)
      in if e_msix_irq_line (engs s engine) = 0 then s
         else teardown_loop d sd is (free_irq (e_msix_irq_line (engs s engine)) (Eng_cookie engine) s))"

definition irq_msix_channel_teardown :: "nat \<Rightarrow> drv \<Rightarrow> drv" where
  "irq_msix_channel_teardown d s =
     (if \<not> dv_msix_enabled (devs s d) then s
      else let s = prog_irq_msix_channel d True s;
               s = teardown_loop d H2C [0..<dv_h2c_channel_max (devs s d)] s
           in teardown_loop d C2H [0..<dv_c2h_channel_max (devs s d)] s)"

text \<open>The setup loop over the channels of one direction; \<open>j\<close> is the entry of its first channel.\<close>

fun setup_loop :: "'k ienv_scheme \<Rightarrow> nat \<Rightarrow> side \<Rightarrow> nat \<Rightarrow> nat list \<Rightarrow> drv \<Rightarrow> int \<times> drv" where
  "setup_loop K d sd j [] s = (0, s)"
| "setup_loop K d sd j (i # is) s =
     (let engine = (d, sd, i);
          vector = pci_irq_vector K (dv_pdev (devs s d)) (j + i);
          (rv, s) = ask_irq K vector (Eng_cookie engine) s
      in if rv \<noteq> 0 then (rv, s)
         else setup_loop K d sd j is (upd_eng engine (\<lambda>g. g\<lparr>e_msix_irq_line := vector\<rparr>) s))"

definition irq_msix_channel_setup :: "'k ienv_scheme \<Rightarrow> nat option \<Rightarrow> drv \<Rightarrow> int \<times> drv" where
  "irq_msix_channel_setup K xdev s =
     (case xdev of None \<Rightarrow> (- EINVAL, s)
      | Some d \<Rightarrow>
        if \<not> dv_msix_enabled (devs s d) then (0, s)
        else let j = dv_h2c_channel_max (devs s d);
                 (rv, s) = setup_loop K d H2C 0 [0..<dv_h2c_channel_max (devs s d)] s
             in if rv \<noteq> 0 then (rv, s)
                else setup_loop K d C2H j [0..<dv_c2h_channel_max (devs s d)] s)"

fun user_free_loop :: "'k ienv_scheme \<Rightarrow> nat \<Rightarrow> nat \<Rightarrow> nat list \<Rightarrow> drv \<Rightarrow> drv" where
  "user_free_loop K d j [] s = s"
| "user_free_loop K d j (i # is) s =
     user_free_loop K d j is
       (free_irq (pci_irq_vector K (dv_pdev (devs s d)) (j + i)) (User_cookie d i) s)"

definition irq_msix_user_teardown :: "'k ienv_scheme \<Rightarrow> nat option \<Rightarrow> drv \<Rightarrow> drv" where
  "irq_msix_user_teardown K xdev s =
     (case xdev of None \<Rightarrow> s
      | Some d \<Rightarrow>
        if \<not> dv_msix_enabled (devs s d) then s
        else let j = dv_h2c_channel_max (devs s d) + dv_c2h_channel_max (devs s d);
                 s = prog_irq_msix_user d True s
             in user_free_loop K d j [0..<dv_user_max (devs s d)] s)"

text \<open>The loop returns how many interrupts it has requested.\<close>

fun user_setup_loop :: "'k ienv_scheme \<Rightarrow> nat \<Rightarrow> nat \<Rightarrow> nat list \<Rightarrow> drv \<Rightarrow> int \<times> nat \<times> drv" where
  "user_setup_loop K d j [] s = (0, 0, s)"
| "user_setup_loop K d j (i # is) s =
     (let vector = pci_irq_vector K (dv_pdev (devs s d)) (j + i);
          (rv, s) = ask_irq K vector (User_cookie d i) s
      in if rv \<noteq> 0 then (rv, 0, s)
         else let (rv, n, s) = user_setup_loop K d j is s in (rv, Suc n, s))"

definition irq_msix_user_setup :: "'k ienv_scheme \<Rightarrow> nat \<Rightarrow> drv \<Rightarrow> int \<times> drv" where
  "irq_msix_user_setup K d s =
     (let j = dv_h2c_channel_max (devs s d) + dv_c2h_channel_max (devs s d);
          (rv, i, s) = user_setup_loop K d j [0..<dv_user_max (devs s d)] s
      in (rv, if rv \<noteq> 0 then user_free_loop K d j (rev [0..<i]) s else s))"

definition irq_msi_setup :: "'k ienv_scheme \<Rightarrow> nat \<Rightarrow> nat \<Rightarrow> drv \<Rightarrow> int \<times> drv" where
  "irq_msi_setup K d pdev s =
     (let s = upd_dev d (\<lambda>v. v\<lparr>dv_irq_line := sint (pdev_irq K pdev)\<rparr>) s
      in ask_irq K (pdev_irq K pdev) (Dev_cookie d) s)"

definition irq_legacy_setup :: "'k ienv_scheme \<Rightarrow> nat \<Rightarrow> nat \<Rightarrow> drv \<Rightarrow> int \<times> drv" where
  "irq_legacy_setup K d pdev s =
     (let val = pci_read_config_byte K pdev PCI_INTERRUPT_PIN
      in if val = 0 then (- EINVAL, s)
      else let s = (if 1 < val
                then let val = val - 1;
                         w = push_bit 24 (ucast val) OR push_bit 16 (ucast val) OR
                             push_bit 8 (ucast val) OR ucast val;
                         reg = config_base s d + 0x2080;
                         s = write_register w reg s;
                         s = write_register w (reg + 0x4) s;
                         s = write_register w (reg + 0x8) s;
                         s = write_register w (reg + 0xC) s;
                         reg = config_base s d + 0x20A0;
                         s = write_register w reg s
                     in write_register w (reg + 0x4) s
                else s);
               s = upd_dev d (\<lambda>v. v\<lparr>dv_irq_line := sint (pdev_irq K pdev)\<rparr>) s
           in ask_irq K (pdev_irq K pdev) (Dev_cookie d) s)"

definition irq_teardown :: "'k ienv_scheme \<Rightarrow> nat \<Rightarrow> drv \<Rightarrow> drv" where
  "irq_teardown K d s =
     (if dv_msix_enabled (devs s d)
      then irq_msix_user_teardown K (Some d) (irq_msix_channel_teardown d s)
      else if dv_irq_line (devs s d) \<noteq> -1
      then free_irq (word_of_int (dv_irq_line (devs s d))) (Dev_cookie d) s
      else s)"

definition irq_setup :: "'k ienv_scheme \<Rightarrow> nat \<Rightarrow> nat \<Rightarrow> drv \<Rightarrow> int \<times> drv" where
  "irq_setup K d pdev s =
     (let s = pci_keep_intx_enabled K pdev s
      in if dv_msix_enabled (devs s d)
         then let (rv, s) = irq_msix_channel_setup K (Some d) s
              in if rv \<noteq> 0 then (rv, s)
              else let (rv, s) = irq_msix_user_setup K d s
              in if rv \<noteq> 0 then (rv, s)
              else let s = prog_irq_msix_channel d False s
              in (0, prog_irq_msix_user d False s)
         else if dv_msi_enabled (devs s d) then irq_msi_setup K d pdev s
         else irq_legacy_setup K d pdev s)"

subsection \<open>Dispatching an interrupt\<close>

lemma mask_removed:
  fixes b c m :: u32
  assumes "b AND c = 0"
  shows "b AND (m AND NOT c) = b AND m"
proof (rule bit_eqI)
  fix n
  have "\<not> bit (b AND c) n" using assms by simp
  then show "bit (b AND (m AND NOT c)) n \<longleftrightarrow> bit (b AND m) n"
    by (auto simp: bit_simps dest: bit_imp_le_length)
qed

text \<open>The engines of one direction that have one of the bits, in the order of their channels.\<close>

definition fired :: "drv \<Rightarrow> nat \<Rightarrow> side \<Rightarrow> nat list \<Rightarrow> u32 \<Rightarrow> eng_id list" where
  "fired s d sd cs msk = map (\<lambda>c. (d, sd, c)) (filter (\<lambda>c.
     e_irq_bitmask (engs s (d, sd, c)) AND msk \<noteq> 0 \<and> e_magic (engs s (d, sd, c)) = MAGIC_ENGINE) cs)"

definition separate_bits :: "drv \<Rightarrow> nat \<Rightarrow> side \<Rightarrow> nat list \<Rightarrow> bool" where
  "separate_bits s d sd cs \<longleftrightarrow> (\<forall>i\<in>set cs. \<forall>j\<in>set cs. i \<noteq> j \<longrightarrow>
     e_irq_bitmask (engs s (d, sd, i)) AND e_irq_bitmask (engs s (d, sd, j)) = 0)"

lemma channel_loop_fired:
  assumes "distinct cs" and "separate_bits s d sd cs"
  shows "channel_loop d sd cs msk s = s\<lparr>notices := notices s @ map Schedule_work (fired s d sd cs msk)\<rparr>"
  using assms
proof (induction cs arbitrary: msk s)
  case (Cons c cs)
  let ?b = "\<lambda>i. e_irq_bitmask (engs s (d, sd, i))"
  have sep: "separate_bits s d sd cs" using Cons.prems(2) by (simp add: separate_bits_def)
  have ne: "?b i AND (msk AND NOT (?b c)) = ?b i AND msk" if "i \<in> set cs" for i
    using Cons.prems that by (intro mask_removed) (auto simp: separate_bits_def)
  show ?case
  proof (cases "?b c AND msk \<noteq> 0 \<and> e_magic (engs s (d, sd, c)) = MAGIC_ENGINE")
    case True
    let ?s = "tell (Schedule_work (d, sd, c)) s"
    have "fired ?s d sd cs (msk AND NOT (?b c)) = fired s d sd cs msk"
      unfolding fired_def by (intro arg_cong [where f = "map _"] filter_cong refl) (simp add: ne)
    moreover have "separate_bits ?s d sd cs" using sep by (simp add: separate_bits_def)
    ultimately have "channel_loop d sd cs (msk AND NOT (?b c)) ?s =
        ?s\<lparr>notices := notices ?s @ map Schedule_work (fired s d sd cs msk)\<rparr>"
      using Cons.IH [of ?s "msk AND NOT (?b c)"] Cons.prems(1) by simp
    moreover have "channel_loop d sd (c # cs) msk s = channel_loop d sd cs (msk AND NOT (?b c)) ?s"
      using True by (auto simp: Let_def)
    moreover have "fired s d sd (c # cs) msk = (d, sd, c) # fired s d sd cs msk"
      using True by (simp add: fired_def)
    ultimately show ?thesis by (simp add: tell_def)
  next
    case False
    then show ?thesis using Cons.IH [OF _ sep] Cons.prems(1) by (auto simp: fired_def)
  qed
qed (simp add: fired_def)

text \<open>The user interrupts whose bits are set are served in ascending order.\<close>

definition serve_users :: "'k ienv_scheme \<Rightarrow> nat \<Rightarrow> nat list \<Rightarrow> drv \<Rightarrow> drv" where
  "serve_users K d us s = fold (\<lambda>u s. snd (user_irq_service K (Some (d, u)) s)) us s"

lemma fired_none [simp]: "fired s d sd cs 0 = []"
  by (simp add: fired_def)

lemma user_loop_serves:
  assumes "n \<le> 32" and "\<forall>k\<ge>u. bit w k = bit (w0 :: u32) k"
  shows "user_loop K d [u..<n] (2 ^ u) w s = serve_users K d (filter (bit w0) [u..<n]) s"
  using assms(2)
proof (induction "n - u" arbitrary: u w s)
  case 0
  then show ?case by (simp add: serve_users_def)
next
  case (Suc m)
  then have us: "[u..<n] = u # [Suc u..<n]" "u < 32" using assms(1) by (simp_all add: upt_conv_Cons)
  have next_bit: "push_bit (Suc 0) (2 ^ u) = (2 ^ Suc u :: u32)" by (simp add: push_bit_eq_mult)
  show ?case
  proof (cases "w = 0")
    case True
    then have "filter (bit w0) [u..<n] = []" using Suc.prems by (auto simp: filter_empty_conv)
    then show ?thesis using True by (simp add: us(1) serve_users_def)
  next
    case False
    have rest: "\<forall>k\<ge>Suc u. bit (w AND NOT (2 ^ u)) k = bit w0 k" "\<forall>k\<ge>Suc u. bit w k = bit w0 k"
      using Suc.prems bit_imp_le_length [of w0] by (auto simp: bit_simps)
    have "m = n - Suc u" using Suc.hyps(2) by simp
    note IH = Suc.hyps(1) [OF this rest(1)] Suc.hyps(1) [OF this rest(2)]
    have "bit w u = bit w0 u" using Suc.prems by simp
    then show ?thesis using False
      by (simp add: us(1) and_exp_eq_0_iff_not_bit next_bit IH [simplified] serve_users_def del: push_bit_Suc)
  qed
qed

definition user_notices :: "nat \<Rightarrow> nat \<Rightarrow> xdma_user_irq \<Rightarrow> notice list" where
  "user_notices d i u =
     (case u_handler u of Some h \<Rightarrow> [Call_user_handler h (u_user_idx u) (u_dev u)]
      | None \<Rightarrow> if u_events_irq u = 0 then [Wake_user_events d i] else [])"

lemma user_service_effect:
  fixes s d i K
  defines "s' \<equiv> snd (user_irq_service K (Some (d, i)) s)"
  shows "notices s' = notices s @ user_notices d i (dv_user_irq (devs s d) ! i)"
    "engs s' = engs s" "iolog s' = iolog s"
    "j \<noteq> i \<Longrightarrow> dv_user_irq (devs s' d) ! j = dv_user_irq (devs s d) ! j"
    "dv_mask_irq_h2c (devs s' d) = dv_mask_irq_h2c (devs s d)" "dv_mask_irq_c2h (devs s' d) = dv_mask_irq_c2h (devs s d)"
    "dv_h2c_channel_max (devs s' d) = dv_h2c_channel_max (devs s d)"
    "dv_c2h_channel_max (devs s' d) = dv_c2h_channel_max (devs s d)"
  by (simp_all add: s'_def user_irq_service_def user_notices_def upd_user_irq_def Let_def split: option.split)

lemma serve_users_effect:
  assumes "distinct us"
  shows "notices (serve_users K d us s) =
      notices s @ concat (map (\<lambda>i. user_notices d i (dv_user_irq (devs s d) ! i)) us) \<and>
    engs (serve_users K d us s) = engs s \<and> iolog (serve_users K d us s) = iolog s \<and>
    dv_mask_irq_h2c (devs (serve_users K d us s) d) = dv_mask_irq_h2c (devs s d) \<and>
    dv_mask_irq_c2h (devs (serve_users K d us s) d) = dv_mask_irq_c2h (devs s d) \<and>
    dv_h2c_channel_max (devs (serve_users K d us s) d) = dv_h2c_channel_max (devs s d) \<and>
    dv_c2h_channel_max (devs (serve_users K d us s) d) = dv_c2h_channel_max (devs s d)"
  using assms
proof (induction us arbitrary: s)
  case (Cons u us)
  let ?s = "snd (user_irq_service K (Some (d, u)) s)"
  have eq: "serve_users K d (u # us) s = serve_users K d us ?s" by (simp add: serve_users_def)
  have "concat (map (\<lambda>i. user_notices d i (dv_user_irq (devs ?s d) ! i)) us) =
      concat (map (\<lambda>i. user_notices d i (dv_user_irq (devs s d) ! i)) us)"
    using Cons.prems by (intro arg_cong [where f = concat] map_cong refl arg_cong [where f = "user_notices d _"] user_service_effect(4)) auto
  then show ?case using Cons.IH [of ?s] Cons.prems unfolding eq by (simp add: user_service_effect)
qed (simp add: serve_users_def)

text \<open>
  C10: The shared interrupt handler dispatches exactly. It schedules the work of precisely
  those engines whose interrupt bit the hardware reports (among the bits of their
  direction), H2C channels first and each once, although its loops stop as soon as no bit
  is left; it serves precisely the user interrupts whose bit is set, in ascending order;
  and it disables the reported channel interrupts before it reads the user interrupts.
\<close>

theorem isr_dispatches_exactly:
  assumes "dv_user_max (devs s d) \<le> 32"
    and "separate_bits s d H2C [0..<dv_h2c_channel_max (devs s d)]"
    and "separate_bits s d C2H [0..<dv_c2h_channel_max (devs s d)]"
  shows "\<exists>s' ch us regs. xdma_isr K (Some d) s = (IRQ_HANDLED, s') \<and>
    regs = config_base s d + XDMA_OFS_INT_CTRL \<and> ch = ioread32 K (iolog s) (regs + ir_channel_int_request) \<and>
    iolog s' = iolog s @ [IoRead (regs + ir_channel_int_request)] @
      (if ch = 0 then [] else [IoWrite (regs + ir_channel_int_enable_w1c) ch]) @
      [IoRead (regs + ir_user_int_request)] \<and>
    us = filter (bit (ioread32 K (butlast (iolog s')) (regs + ir_user_int_request))) [0..<dv_user_max (devs s d)] \<and>
    notices s' = notices s @ concat (map (\<lambda>i. user_notices d i (dv_user_irq (devs s d) ! i)) us) @
      map Schedule_work (fired s d H2C [0..<dv_h2c_channel_max (devs s d)] (ch AND dv_mask_irq_h2c (devs s d))) @
      map Schedule_work (fired s d C2H [0..<dv_c2h_channel_max (devs s d)] (ch AND dv_mask_irq_c2h (devs s d)))"
proof -
  define regs where "regs = config_base s d + XDMA_OFS_INT_CTRL"
  define ch where "ch = ioread32 K (iolog s) (regs + ir_channel_int_request)"
  define s1 where "s1 = snd (read_register K (regs + ir_channel_int_request) s)"
  define s2 where "s2 = (if ch \<noteq> 0 then channel_interrupts_disable d ch s1 else s1)"
  define ui where "ui = ioread32 K (iolog s2) (regs + ir_user_int_request)"
  define s3 where "s3 = snd (read_register K (regs + ir_user_int_request) s2)"
  define us where "us = filter (bit ui) [0..<dv_user_max (devs s d)]"
  define s4 where "s4 = serve_users K d us s3"
  let ?h = "fired s d H2C [0..<dv_h2c_channel_max (devs s d)] (ch AND dv_mask_irq_h2c (devs s d))"
  let ?c = "fired s d C2H [0..<dv_c2h_channel_max (devs s d)] (ch AND dv_mask_irq_c2h (devs s d))"
  have s3: "devs s3 = devs s" "engs s3 = engs s" "notices s3 = notices s" "devs s2 = devs s"
    by (simp_all add: s3_def s2_def s1_def)
  have s4: "notices s4 = notices s @ concat (map (\<lambda>i. user_notices d i (dv_user_irq (devs s d) ! i)) us)"
      "engs s4 = engs s" "iolog s4 = iolog s3" "dv_mask_irq_h2c (devs s4 d) = dv_mask_irq_h2c (devs s d)"
      "dv_mask_irq_c2h (devs s4 d) = dv_mask_irq_c2h (devs s d)"
      "dv_h2c_channel_max (devs s4 d) = dv_h2c_channel_max (devs s d)"
      "dv_c2h_channel_max (devs s4 d) = dv_c2h_channel_max (devs s d)"
    using serve_users_effect [of us K d s3] by (simp_all add: s4_def us_def s3)
  have users: "(if ui \<noteq> 0 then user_loop K d [0..<dv_user_max (devs s3 d)] 1 ui s3 else s3) = s4"
  proof (cases "ui = 0")
    case False
    then show ?thesis using user_loop_serves [OF assms(1), of 0 ui ui K d s3]
      by (simp add: s3 s4_def us_def)
  qed (simp add: s4_def us_def serve_users_def)
  define s5 where "s5 = s4\<lparr>notices := notices s4 @ map Schedule_work ?h\<rparr>"
  have fired_eq: "fired s' d sd cs m = fired s d sd cs m" "separate_bits s' d sd cs = separate_bits s d sd cs"
    if "engs s' = engs s" for s' sd cs m
    using that by (simp_all add: fired_def separate_bits_def)
  have h2c: "(if ch AND dv_mask_irq_h2c (devs s d) \<noteq> 0
      then channel_loop d H2C [0..<dv_h2c_channel_max (devs s d)] (ch AND dv_mask_irq_h2c (devs s d)) s4 else s4) = s5"
    using channel_loop_fired [of "[0..<dv_h2c_channel_max (devs s d)]" s4 d H2C] assms(2) fired_eq [OF s4(2)]
    by (cases "ch AND dv_mask_irq_h2c (devs s d) = 0") (simp_all add: s5_def)
  define s6 where "s6 = s5\<lparr>notices := notices s5 @ map Schedule_work ?c\<rparr>"
  have s5: "engs s5 = engs s" "devs s5 = devs s4" using s4(2) by (simp_all add: s5_def)
  have c2h: "(if ch AND dv_mask_irq_c2h (devs s d) \<noteq> 0
      then channel_loop d C2H [0..<dv_c2h_channel_max (devs s d)] (ch AND dv_mask_irq_c2h (devs s d)) s5 else s5) = s6"
    using channel_loop_fired [of "[0..<dv_c2h_channel_max (devs s d)]" s5 d C2H] assms(3) fired_eq [OF s5(1)]
    by (cases "ch AND dv_mask_irq_c2h (devs s d) = 0") (simp_all add: s6_def)
  have isr: "xdma_isr K (Some d) s = (IRQ_HANDLED, upd_dev d (\<lambda>v. v\<lparr>dv_irq_count := dv_irq_count v + 1\<rparr>) s6)"
    unfolding xdma_isr_def option.case Let_def case_prod_unfold regs_def [symmetric] s1_def [symmetric]
      read_register_value ch_def [symmetric] s2_def [symmetric] s3_def [symmetric] ui_def [symmetric]
      users s4(4-7) h2c s5(2) c2h ..
  have log: "iolog s6 = iolog s @ [IoRead (regs + ir_channel_int_request)] @
      (if ch = 0 then [] else [IoWrite (regs + ir_channel_int_enable_w1c) ch]) @ [IoRead (regs + ir_user_int_request)]"
    "butlast (iolog s6) = iolog s2"
    by (simp_all add: s6_def s5_def s4(3) s3_def s2_def s1_def channel_interrupts_disable_def regs_def config_base_def)
  have told: "notices s6 = notices s @ concat (map (\<lambda>i. user_notices d i (dv_user_irq (devs s d) ! i)) us) @
      map Schedule_work ?h @ map Schedule_work ?c"
    by (simp add: s6_def s5_def s4(1))
  show ?thesis
    by (intro exI conjI, rule isr, rule regs_def, rule ch_def)
      (simp_all only: upd_dev_simps log(1) log(2) [unfolded log(1)] us_def ui_def told)
qed

text \<open>
  Two engines, one per direction, with bits 0 and 1; the hardware reports channel bits 0 and
  1 and user bit 2.
\<close>

definition sample_ienv :: "hardware \<Rightarrow> (notice list \<Rightarrow> u32 \<Rightarrow> int) \<Rightarrow> ienv" where
  "sample_ienv hw req = aenv.extend (sample_aenv (\<lambda>_. Some 0x1000)\<lparr>ioread32 := hw\<rparr>)
     \<lparr>user_handler = (\<lambda>h i v. 1), pci_no_msi = (\<lambda>p. False), pci_bus_no_msi = (\<lambda>p. []),
      pci_find_capability = (\<lambda>p c. 1), pci_alloc_irq_vectors = (\<lambda>p n. int n), pci_enable_msi = (\<lambda>p. 0),
      pci_irq_vector = (\<lambda>p i. 40 + of_nat (i mod 32)), pdev_irq = (\<lambda>p. 11), request_irq = req,
      pci_read_config_word = (\<lambda>l p r. 0), pci_read_config_byte = (\<lambda>p r. 1)\<rparr>"

lemma sample_ienv_fields [simp]:
  "ioread32 (sample_ienv hw req) = hw" "request_irq (sample_ienv hw req) = req"
  "pci_irq_vector (sample_ienv hw req) p i = 40 + of_nat (i mod 32)" "poll_mode (sample_ienv hw req) = 0"
  by (simp_all add: sample_ienv_def aenv.defs)

definition sample_two :: drv where
  "sample_two = sample_drv
     \<lparr>engs := (\<lambda>(d, sd, c). sample_engine\<lparr>e_irq_bitmask := if sd = H2C then 1 else 2\<rparr>),
      devs := (\<lambda>_. sample_dev\<lparr>dv_h2c_channel_max := 1, dv_c2h_channel_max := 1, dv_user_max := 3,
                              dv_mask_irq_h2c := 1, dv_mask_irq_c2h := 2, dv_msix_enabled := True\<rparr>)\<rparr>"

theorem isr_dispatches_exactly_witness:
  "\<exists>s'. xdma_isr (sample_ienv (\<lambda>l a. if a = XDMA_OFS_INT_CTRL + ir_channel_int_request then 3 else 4) (\<lambda>_ _. 0))
       (Some 0) sample_two = (IRQ_HANDLED, s') \<and>
     notices s' = [Wake_user_events 0 2, Schedule_work (0, H2C, 0), Schedule_work (0, C2H, 0)]"
proof -
  let ?hw = "\<lambda>l a. if a = XDMA_OFS_INT_CTRL + ir_channel_int_request then 3 else 4"
  let ?K = "sample_ienv ?hw (\<lambda>_ _. 0)"
  have dev: "dv_user_max (devs sample_two 0) = 3" "dv_h2c_channel_max (devs sample_two 0) = 1"
    "dv_c2h_channel_max (devs sample_two 0) = 1" "config_base sample_two 0 = 0"
    "dv_mask_irq_h2c (devs sample_two 0) = 1" "dv_mask_irq_c2h (devs sample_two 0) = 2"
    "user_notices 0 2 (dv_user_irq (devs sample_two 0) ! 2) = [Wake_user_events 0 2]"
    "notices sample_two = []"
    by (simp_all add: sample_two_def config_base_def sample_dev_def zero_dev_def XDMA_BAR_NUM_def user_notices_def)
  have "fired sample_two 0 H2C [0] (3 AND 1) = [(0, H2C, 0)]" "fired sample_two 0 C2H [0] (3 AND 2) = [(0, C2H, 0)]"
    by (simp_all add: fired_def sample_two_def)
  moreover have "filter (bit (4 :: u32)) [0..<3] = [2]" by (simp add: upt_conv_Cons bit_numeral_rec bit_iff_odd)
  ultimately show ?thesis
    using isr_dispatches_exactly [of sample_two 0 ?K]
    by (auto simp: dev separate_bits_def)
qed

end
