(* ===== verification/Xdma_Irq_Lines.thy ===== *)
theory Xdma_Irq_Lines
  imports Xdma_Irq
begin

text \<open>
  The interrupt lines and the vector registers: what \<open>irq_setup\<close> programs and requests, and
  that \<open>irq_teardown\<close> gives back what it requested.
\<close>

subsection \<open>Vector registers\<close>

definition packed :: "nat \<Rightarrow> nat \<Rightarrow> u32" where
  "packed i mx = snd (pack_loop 4 i mx 0 0)"

lemma pack_loop_bits:
  assumes "sh + 8 * k \<le> 32"
  shows "bit (snd (pack_loop k i mx sh v)) n \<longleftrightarrow> bit v n \<or>
    (\<exists>m<k. i + m < mx \<and> sh + 8 * m \<le> n \<and> n < sh + 8 * m + 5 \<and> bit (of_nat (i + m) :: u32) (n - (sh + 8 * m)))"
  using assms
proof (induction k arbitrary: i sh v)
  case (Suc k)
  show ?case
  proof (cases "i < mx")
    case True
    have new: "bit (push_bit sh (of_nat i AND 0x1f) :: u32) n \<longleftrightarrow>
        sh \<le> n \<and> n < sh + 5 \<and> bit (of_nat i :: u32) (n - sh)"
    proof -
      have m: "(0x1f :: u32) = mask 5" by (simp add: mask_eq_exp_minus_1)
      show ?thesis unfolding m using Suc.prems by (auto simp: bit_simps)
    qed
    have "bit (snd (pack_loop (Suc k) i mx sh v)) n \<longleftrightarrow>
        bit (v OR push_bit sh (of_nat i AND 0x1f)) n \<or>
        (\<exists>m<k. Suc i + m < mx \<and> sh + 8 + 8 * m \<le> n \<and> n < sh + 8 + 8 * m + 5 \<and>
           bit (of_nat (Suc i + m) :: u32) (n - (sh + 8 + 8 * m)))"
      using Suc.IH [of "sh + 8" "Suc i" "v OR push_bit sh (of_nat i AND 0x1f)"] Suc.prems True by simp
    then show ?thesis using True new
      by (simp add: bit_or_iff Ex_less_Suc2 algebra_simps del: of_nat_Suc of_nat_add pack_loop.simps)
  next
    case False
    then show ?thesis by auto
  qed
qed simp

lemma packed_byte:
  assumes "k < 4" and "i + k < mx"
  shows "drop_bit (8 * k) (packed i mx) AND 0xff = of_nat (i + k) AND 0x1f"
proof (rule bit_eqI)
  fix n
  have m: "(0xff :: u32) = mask 8" "(0x1f :: u32) = mask 5" by (simp_all add: mask_eq_exp_minus_1)
  have "bit (packed i mx) (8 * k + n) \<longleftrightarrow> n < 5 \<and> bit (of_nat (i + k) :: u32) n" if "n < 8"
  proof -
    have key: "8 * m \<le> 8 * k + n \<Longrightarrow> 8 * k + n < 8 * m + 5 \<Longrightarrow> m = k \<and> n < 5" for m
      using that by presburger
    have "bit (packed i mx) (8 * k + n) \<longleftrightarrow> (\<exists>m<4. i + m < mx \<and> 8 * m \<le> 8 * k + n \<and>
        8 * k + n < 8 * m + 5 \<and> bit (of_nat (i + m) :: u32) (8 * k + n - 8 * m))"
      unfolding packed_def by (subst pack_loop_bits) simp_all
    also have "\<dots> \<longleftrightarrow> n < 5 \<and> bit (of_nat (i + k) :: u32) n"
      using assms key by (metis add_diff_cancel_left' add_less_cancel_left le_add1)
    finally show ?thesis .
  qed
  then show "bit (drop_bit (8 * k) (packed i mx) AND 0xff) n \<longleftrightarrow> bit (of_nat (i + k) AND 0x1f :: u32) n"
    unfolding m by (auto simp: bit_simps add.commute)
qed

text \<open>The registers the programming loop writes, and with what.\<close>

lemma prog_loop_effect:
  "\<exists>n. prog_loop vector j i False mx s =
     s\<lparr>iolog := iolog s @ map (\<lambda>m. IoWrite (vector + 4 * (j + m)) (packed (i + 4 * m) mx)) [0..<n]\<rparr> \<and>
     (\<forall>m. m < n \<longleftrightarrow> i + 4 * m < mx)"
proof (induction "mx - i" arbitrary: i j s rule: less_induct)
  case less
  show ?case
  proof (cases "i < mx")
    case False
    then show ?thesis by (intro exI [of _ 0]) (simp add: prog_loop.simps)
  next
    case True
    let ?v = "packed i mx" and ?i = "min mx (i + 4)"
    let ?s = "write_register ?v (vector + 4 * j) s"
    have step: "prog_loop vector j i False mx s = prog_loop vector (Suc j) ?i False mx ?s"
      using True pack_loop_index [of i mx 4 0 0]
      by (subst prog_loop.simps) (simp add: packed_def case_prod_unfold)
    have "mx - ?i < mx - i" using True by simp
    from less [OF this, of "Suc j" ?s] obtain n where n: "prog_loop vector (Suc j) ?i False mx ?s =
        ?s\<lparr>iolog := iolog ?s @ map (\<lambda>m. IoWrite (vector + 4 * (Suc j + m)) (packed (?i + 4 * m) mx)) [0..<n]\<rparr>"
        "\<forall>m. m < n \<longleftrightarrow> ?i + 4 * m < mx" by blast
    have i: "?i = i + 4" if "0 < n" using n(2) that by (metis add.right_neutral min_def mult_0_right nat_neq_iff)
    have maps: "map (\<lambda>m. IoWrite (vector + 4 * (Suc j + m)) (packed (?i + 4 * m) mx)) [0..<n] =
        map (\<lambda>m. IoWrite (vector + 4 * (j + Suc m)) (packed (i + 4 * Suc m) mx)) [0..<n]"
    proof (cases "n = 0")
      case False
      then have "?i = i + 4" using i by simp
      then show ?thesis by (simp only: mult_Suc_right add_Suc add_Suc_right add.assoc)
    qed simp
    have "m < Suc n \<longleftrightarrow> i + 4 * m < mx" for m
    proof (cases m)
      case (Suc k)
      have "k < n \<longleftrightarrow> ?i + 4 * k < mx" using n(2) by blast
      then show ?thesis using Suc by (cases "mx \<le> i + 4") (simp_all add: add.assoc)
    qed (use True in simp)
    moreover have "prog_loop vector j i False mx s =
        s\<lparr>iolog := iolog s @ map (\<lambda>m. IoWrite (vector + 4 * (j + m)) (packed (i + 4 * m) mx)) [0..<Suc n]\<rparr>"
      unfolding step n(1) maps by (simp add: map_upt_Suc write_register_def del: upt_Suc)
    ultimately show ?thesis by blast
  qed
qed

lemma writes_to_registers:
  "writes_to (vector + 4 * m) (map (\<lambda>k. IoWrite (vector + 4 * k) (f k)) [0..<n]) = (if m < n then [f m] else [])"
  by (induction n) (auto simp: less_Suc_eq)

lemma prog_loop_writes:
  assumes "m < mx - i"
  shows "writes_to (vector + 4 * (m div 4)) (drop (length (iolog s)) (iolog (prog_loop vector 0 i False mx s))) =
    [packed (i + 4 * (m div 4)) mx]"
    and "drop_bit (8 * (m mod 4)) (packed (i + 4 * (m div 4)) mx) AND 0xff = of_nat (i + m) AND 0x1f"
proof -
  obtain n where n: "prog_loop vector 0 i False mx s =
      s\<lparr>iolog := iolog s @ map (\<lambda>k. IoWrite (vector + 4 * k) (packed (i + 4 * k) mx)) [0..<n]\<rparr>"
      "\<forall>k. k < n \<longleftrightarrow> i + 4 * k < mx"
    using prog_loop_effect [of vector 0 i mx s] by auto
  have "i + 4 * (m div 4) < mx" using assms by linarith
  then have "m div 4 < n" using n(2) by blast
  then show "writes_to (vector + 4 * (m div 4)) (drop (length (iolog s)) (iolog (prog_loop vector 0 i False mx s))) =
      [packed (i + 4 * (m div 4)) mx]"
    by (simp add: n(1) writes_to_registers)
  have "i + 4 * (m div 4) + m mod 4 = i + m" by (simp add: add.assoc)
  then show "drop_bit (8 * (m mod 4)) (packed (i + 4 * (m div 4)) mx) AND 0xff = of_nat (i + m) AND 0x1f"
    using packed_byte [of "m mod 4" "i + 4 * (m div 4)" mx] assms by (simp add: add.commute)
qed

text \<open>
  C23: The MSI-X vector registers. After programming, the register that belongs to channel
  interrupt \<open>m\<close> has been written exactly once, and the byte of it that belongs to \<open>m\<close> is the
  vector number \<open>m\<close>; the byte of user interrupt \<open>m\<close> is the number of the \<open>m\<close>-th vector
  after those of the channels: four vectors to a register, none overlapping another. (The
  driver has at most 24 vectors, so the five bits of the field do not truncate them.)
\<close>

theorem msix_vectors_programmed:
  fixes s d
  defines "channels \<equiv> dv_c2h_channel_max (devs s d) + dv_h2c_channel_max (devs s d)"
    and "regs \<equiv> config_base s d + XDMA_OFS_INT_CTRL"
  assumes "channels \<le> 8" and "dv_user_max (devs s d) \<le> 16"
  shows "(m < channels \<longrightarrow> (\<exists>v. writes_to (regs + ir_channel_msi_vector + 4 * (m div 4))
        (drop (length (iolog s)) (iolog (prog_irq_msix_channel d False s))) = [v] \<and>
        unat (drop_bit (8 * (m mod 4)) v AND 0xff) = m)) \<and>
    (m < dv_user_max (devs s d) \<longrightarrow> (\<exists>v. writes_to (regs + ir_user_msi_vector + 4 * (m div 4))
        (drop (length (iolog s)) (iolog (prog_irq_msix_user d False s))) = [v] \<and>
        unat (drop_bit (8 * (m mod 4)) v AND 0xff) = channels + m))"
proof -
  have small: "unat (of_nat n AND 0x1f :: u32) = n" if "n < 32" for n
  proof -
    have "(0x1f :: u32) = mask 5" by (simp add: mask_eq_exp_minus_1)
    then have "of_nat n AND 0x1f = (take_bit 5 (of_nat n) :: u32)" by (simp only: take_bit_eq_mask)
    then show ?thesis using that by (simp add: unat_of_nat take_bit_eq_mod unat_mod)
  qed
  have "\<exists>v. writes_to (regs + ir_channel_msi_vector + 4 * (m div 4))
        (drop (length (iolog s)) (iolog (prog_irq_msix_channel d False s))) = [v] \<and>
        unat (drop_bit (8 * (m mod 4)) v AND 0xff) = m" if "m < channels"
    using prog_loop_writes(1) [of m channels 0 "regs + ir_channel_msi_vector" s]
      prog_loop_writes(2) [of m channels 0] that small [of m] assms(3)
    by (simp add: prog_irq_msix_channel_def Let_def regs_def channels_def)
  moreover have "\<exists>v. writes_to (regs + ir_user_msi_vector + 4 * (m div 4))
        (drop (length (iolog s)) (iolog (prog_irq_msix_user d False s))) = [v] \<and>
        unat (drop_bit (8 * (m mod 4)) v AND 0xff) = channels + m" if "m < dv_user_max (devs s d)"
    using prog_loop_writes(1) [of m "channels + dv_user_max (devs s d)" channels "regs + ir_user_msi_vector" s]
      prog_loop_writes(2) [of m "channels + dv_user_max (devs s d)" channels] that small [of "channels + m"] assms(3,4)
    by (simp add: prog_irq_msix_user_def Let_def regs_def channels_def)
  ultimately show ?thesis by blast
qed

theorem msix_vectors_programmed_witness:
  "\<exists>v. writes_to (XDMA_OFS_INT_CTRL + ir_user_msi_vector)
     (iolog (prog_irq_msix_user 0 False sample_two)) = [v] \<and>
     unat (drop_bit 16 v AND 0xff) = 4"
proof -
  have "dv_user_max (devs sample_two 0) = 3" "dv_h2c_channel_max (devs sample_two 0) = 1"
    "dv_c2h_channel_max (devs sample_two 0) = 1" "config_base sample_two 0 = 0" "iolog sample_two = []"
    by (simp_all add: sample_two_def config_base_def sample_dev_def zero_dev_def XDMA_BAR_NUM_def)
  moreover have "(x = 4) = (x = Suc (Suc (Suc (Suc 0))))" for x :: nat by (simp add: eval_nat_numeral)
  ultimately show ?thesis using msix_vectors_programmed [of sample_two 0 2] by simp
qed

subsection \<open>Lines\<close>

text \<open>The lines of the channels of one direction, and of the user interrupts.\<close>

definition channel_lines :: "'k ienv_scheme \<Rightarrow> drv \<Rightarrow> nat \<Rightarrow> side \<Rightarrow> nat \<Rightarrow> nat list \<Rightarrow> resource list" where
  "channel_lines K s d sd j cs =
     map (\<lambda>i. R_irq (pci_irq_vector K (dv_pdev (devs s d)) (j + i)) (Eng_cookie (d, sd, i))) cs"

definition user_lines :: "'k ienv_scheme \<Rightarrow> drv \<Rightarrow> nat \<Rightarrow> nat \<Rightarrow> nat list \<Rightarrow> resource list" where
  "user_lines K s d j us =
     map (\<lambda>i. R_irq (pci_irq_vector K (dv_pdev (devs s d)) (j + i)) (User_cookie d i)) us"

lemma count_map_acquire:
  "count_list (map Acquire rs) (Acquire r) = count_list rs r" "count_list (map Acquire rs) (Release r) = 0"
  by (induction rs) auto

lemma setup_loop_effect:
  assumes "setup_loop K d sd j cs s = (0, s')" and "distinct cs"
  shows "notices s' = notices s @ map Acquire (channel_lines K s d sd j cs) \<and> devs s' = devs s \<and>
    iolog s' = iolog s \<and>
    (\<forall>i. e_msix_irq_line (engs s' (d, sd, i)) = (if i \<in> set cs then pci_irq_vector K (dv_pdev (devs s d)) (j + i)
       else e_msix_irq_line (engs s (d, sd, i)))) \<and>
    (\<forall>x sd' i. sd' \<noteq> sd \<or> x \<noteq> d \<longrightarrow> engs s' (x, sd', i) = engs s (x, sd', i))"
  using assms
proof (induction cs arbitrary: s)
  case (Cons c cs)
  let ?v = "pci_irq_vector K (dv_pdev (devs s d)) (j + c)"
  let ?s = "upd_eng (d, sd, c) (\<lambda>g. g\<lparr>e_msix_irq_line := ?v\<rparr>) (tell (Acquire (R_irq ?v (Eng_cookie (d, sd, c)))) s)"
  have "setup_loop K d sd j cs ?s = (0, s')"
    using Cons.prems(1) by (simp add: ask_irq_def Let_def split: if_splits)
  from Cons.IH [OF this] Cons.prems(2) show ?case
    by (auto simp: channel_lines_def)
qed (simp add: channel_lines_def)

lemma setup_loop_devs: "devs (snd (setup_loop K d sd j cs s)) = devs s"
  by (induction cs arbitrary: s) (simp_all add: Let_def ask_irq_def)

lemma teardown_loop_effect:
  assumes "\<forall>i\<in>set cs. e_msix_irq_line (engs s (d, sd, i)) \<noteq> 0"
  shows "teardown_loop d sd cs s = s\<lparr>notices := notices s @
    map Release (map (\<lambda>i. R_irq (e_msix_irq_line (engs s (d, sd, i))) (Eng_cookie (d, sd, i))) cs)\<rparr>"
  using assms
proof (induction cs arbitrary: s)
  case (Cons c cs)
  then show ?case using Cons.IH [of "free_irq (e_msix_irq_line (engs s (d, sd, c))) (Eng_cookie (d, sd, c)) s"]
    by (simp add: Let_def free_irq_def tell_def)
qed simp

lemma user_free_loop_effect:
  "user_free_loop K d j us s = s\<lparr>notices := notices s @ map Release (user_lines K s d j us)\<rparr>"
  by (induction us arbitrary: s) (simp_all add: user_lines_def free_irq_def tell_def)

lemma user_setup_loop_effect:
  assumes "user_setup_loop K d j us s = (rv, n, s')"
  shows "n \<le> length us \<and> (rv = 0 \<longrightarrow> n = length us) \<and>
    s' = s\<lparr>notices := notices s @ map Acquire (user_lines K s d j (take n us))\<rparr>"
  using assms
proof (induction us arbitrary: s n)
  case (Cons u us)
  let ?v = "pci_irq_vector K (dv_pdev (devs s d)) (j + u)"
  show ?case
  proof (cases "request_irq K (notices s) ?v = 0")
    case True
    let ?s = "tell (Acquire (R_irq ?v (User_cookie d u))) s"
    obtain m where m: "user_setup_loop K d j us ?s = (rv, m, s')" "n = Suc m"
      using Cons.prems True by (auto simp: ask_irq_def split: prod.splits)
    from Cons.IH [OF m(1)] show ?thesis by (auto simp: m(2) user_lines_def tell_def)
  next
    case False
    then show ?thesis using Cons.prems by (auto simp: ask_irq_def user_lines_def)
  qed
qed (simp add: user_lines_def)

lemma prog_loop_frame:
  "\<exists>l. prog_loop vector j i clear mx s = s\<lparr>iolog := l\<rparr>"
proof (induction vector j i clear mx s rule: prog_loop.induct)
  case (1 vector j i clear mx s)
  show ?case
  proof (cases "i < mx")
    case True
    then show ?thesis using 1 [OF _ refl prod.collapse]
      by (subst prog_loop.simps) (auto simp: case_prod_unfold write_register_def)
  qed (auto simp: prog_loop.simps intro: exI [of _ "iolog s"])
qed

lemma prog_irq_frame:
  "notices (prog_irq_msix_channel d c s) = notices s" "engs (prog_irq_msix_channel d c s) = engs s"
  "devs (prog_irq_msix_channel d c s) = devs s"
  "notices (prog_irq_msix_user d c s) = notices s" "engs (prog_irq_msix_user d c s) = engs s"
  "devs (prog_irq_msix_user d c s) = devs s"
  unfolding prog_irq_msix_channel_def prog_irq_msix_user_def Let_def
  by (metis prog_loop_frame drv.select_convs(2,4,6) drv.surjective drv.update_convs(1))+

lemma keep_intx_held: "held r (pci_keep_intx_enabled K pdev s) = held r s"
  "devs (pci_keep_intx_enabled K pdev s) = devs s" "engs (pci_keep_intx_enabled K pdev s) = engs s"
  by (simp_all add: pci_keep_intx_enabled_def Let_def)

text \<open>All lines of a device in MSI-X mode.\<close>

definition msix_lines :: "'k ienv_scheme \<Rightarrow> drv \<Rightarrow> nat \<Rightarrow> resource list" where
  "msix_lines K s d =
     channel_lines K s d H2C 0 [0..<dv_h2c_channel_max (devs s d)] @
     channel_lines K s d C2H (dv_h2c_channel_max (devs s d)) [0..<dv_c2h_channel_max (devs s d)] @
     user_lines K s d (dv_h2c_channel_max (devs s d) + dv_c2h_channel_max (devs s d)) [0..<dv_user_max (devs s d)]"

text \<open>The lines recorded in the engines, which teardown goes by.\<close>

definition lines_recorded :: "'k ienv_scheme \<Rightarrow> drv \<Rightarrow> nat \<Rightarrow> bool" where
  "lines_recorded K s d \<longleftrightarrow>
     (\<forall>i<dv_h2c_channel_max (devs s d). e_msix_irq_line (engs s (d, H2C, i)) = pci_irq_vector K (dv_pdev (devs s d)) i) \<and>
     (\<forall>i<dv_c2h_channel_max (devs s d). e_msix_irq_line (engs s (d, C2H, i)) =
        pci_irq_vector K (dv_pdev (devs s d)) (dv_h2c_channel_max (devs s d) + i))"

lemma msix_setup_effect:
  assumes "irq_setup K d pdev s = (0, s')" and "dv_msix_enabled (devs s d)"
  shows "(\<forall>r. held r s' = held r s + int (count_list (msix_lines K s d) r)) \<and> devs s' = devs s \<and> lines_recorded K s' d"
proof -
  define s0 where "s0 = pci_keep_intx_enabled K pdev s"
  have s0: "devs s0 = devs s" "held r s0 = held r s" for r by (simp_all add: s0_def keep_intx_held)
  let ?h = "dv_h2c_channel_max (devs s d)" and ?c = "dv_c2h_channel_max (devs s d)" and ?u = "dv_user_max (devs s d)"
  obtain rv1 s1 where a1: "setup_loop K d H2C 0 [0..<?h] s0 = (rv1, s1)" by fastforce
  obtain rv2 s2 where a2: "setup_loop K d C2H ?h [0..<?c] s1 = (rv2, s2)" by fastforce
  obtain rv3 n s3 where a3: "user_setup_loop K d (?h + ?c) [0..<?u] s2 = (rv3, n, s3)" by (metis surj_pair)
  have d1: "devs s1 = devs s" using setup_loop_devs [of K d H2C 0 "[0..<?h]" s0] a1 s0(1) by simp
  have start: "irq_setup K d pdev s = (if rv1 \<noteq> 0 then (rv1, s1) else if rv2 \<noteq> 0 then (rv2, s2) else
      let (rv, x) = irq_msix_user_setup K d s2 in if rv \<noteq> 0 then (rv, x)
      else (0, prog_irq_msix_user d False (prog_irq_msix_channel d False x)))"
    using assms(2) a1 a2 s0(1) d1
    by (simp add: irq_setup_def Let_def s0_def [symmetric] irq_msix_channel_setup_def case_prod_unfold)
  have rv12: "rv1 = 0" "rv2 = 0" using assms(1) start by (auto split: if_splits)
  note e1 = setup_loop_effect [OF a1 [unfolded rv12], simplified]
  note e2 = setup_loop_effect [OF a2 [unfolded rv12], simplified]
  have devs2: "devs s2 = devs s" using e1 e2 s0(1) by simp
  have user: "irq_msix_user_setup K d s2 = (rv3, if rv3 \<noteq> 0 then user_free_loop K d (?h + ?c) (rev [0..<n]) s3 else s3)"
    using a3 devs2 by (simp add: irq_msix_user_setup_def Let_def)
  have rv3: "rv3 = 0" "s' = prog_irq_msix_user d False (prog_irq_msix_channel d False s3)"
    using assms(1) start user rv12 by (auto split: if_splits)
  note e3 = user_setup_loop_effect [OF a3, unfolded rv3(1), simplified]
  have lines: "channel_lines K s0 d H2C 0 [0..<?h] = channel_lines K s d H2C 0 [0..<?h]"
      "channel_lines K s1 d C2H ?h [0..<?c] = channel_lines K s d C2H ?h [0..<?c]"
      "user_lines K s2 d (?h + ?c) [0..<?u] = user_lines K s d (?h + ?c) [0..<?u]"
    by (simp_all add: channel_lines_def user_lines_def s0(1) d1 devs2)
  have "notices s1 = notices s0 @ map Acquire (channel_lines K s d H2C 0 [0..<?h])"
    using conjunct1 [OF e1] lines(1) by simp
  moreover have "notices s2 = notices s1 @ map Acquire (channel_lines K s d C2H ?h [0..<?c])"
    using conjunct1 [OF e2] lines(2) by simp
  moreover have s3: "notices s3 = notices s2 @ map Acquire (user_lines K s d (?h + ?c) [0..<?u])"
      "devs s3 = devs s2" "engs s3 = engs s2"
    using e3 lines(3) by simp_all
  ultimately have "notices s' = notices s0 @ map Acquire (msix_lines K s d)"
    by (simp add: rv3(2) prog_irq_frame msix_lines_def)
  moreover have fin: "devs s' = devs s" "engs s' = engs s2"
    using s3 devs2 by (simp_all add: rv3(2) prog_irq_frame)
  moreover have "lines_recorded K s' d"
  proof -
    have "\<forall>i. e_msix_irq_line (engs s1 (d, H2C, i)) = (if i \<in> set [0..<?h]
        then pci_irq_vector K (dv_pdev (devs s d)) (0 + i) else e_msix_irq_line (engs s0 (d, H2C, i)))"
      using e1 s0(1) by simp
    moreover have "\<forall>i. e_msix_irq_line (engs s2 (d, C2H, i)) = (if i \<in> set [0..<?c]
        then pci_irq_vector K (dv_pdev (devs s d)) (?h + i) else e_msix_irq_line (engs s1 (d, C2H, i)))"
      using e2 d1 by simp
    moreover have "\<forall>i. engs s2 (d, H2C, i) = engs s1 (d, H2C, i)" using e2 by simp
    ultimately show ?thesis by (simp add: lines_recorded_def fin)
  qed
  ultimately show ?thesis using held_append [of s' s0] s0(2) by (simp add: count_map_acquire)
qed

lemma msix_teardown_effect:
  assumes "dv_msix_enabled (devs s d)" and "lines_recorded K s d" and "\<forall>p i. pci_irq_vector K p i \<noteq> 0"
  shows "held r (irq_teardown K d s) = held r s - int (count_list (msix_lines K s d) r)"
    and "devs (irq_teardown K d s) = devs s" and "engs (irq_teardown K d s) = engs s"
proof -
  let ?h = "dv_h2c_channel_max (devs s d)" and ?c = "dv_c2h_channel_max (devs s d)" and ?u = "dv_user_max (devs s d)"
  define s1 where "s1 = prog_irq_msix_channel d True s"
  have s1: "devs s1 = devs s" "engs s1 = engs s" "notices s1 = notices s" by (simp_all add: s1_def prog_irq_frame)
  define s2 where "s2 = teardown_loop d H2C [0..<?h] s1"
  define s3 where "s3 = teardown_loop d C2H [0..<?c] s2"
  have rel: "map (\<lambda>i. R_irq (e_msix_irq_line (engs s (d, H2C, i))) (Eng_cookie (d, H2C, i))) [0..<?h] =
      channel_lines K s d H2C 0 [0..<?h]"
    "map (\<lambda>i. R_irq (e_msix_irq_line (engs s (d, C2H, i))) (Eng_cookie (d, C2H, i))) [0..<?c] =
      channel_lines K s d C2H ?h [0..<?c]"
    using assms(2) by (auto simp: lines_recorded_def channel_lines_def)
  have s2: "s2 = s1\<lparr>notices := notices s1 @ map Release (channel_lines K s d H2C 0 [0..<?h])\<rparr>"
    using teardown_loop_effect [of "[0..<?h]" s1 d H2C] assms(2,3) rel(1)
    by (simp add: s2_def s1 lines_recorded_def)
  have d2: "devs s2 = devs s" by (simp add: s2 s1)
  have s3: "s3 = s2\<lparr>notices := notices s2 @ map Release (channel_lines K s d C2H ?h [0..<?c])\<rparr>"
    using teardown_loop_effect [of "[0..<?c]" s2 d C2H] assms(2,3) rel(2)
    by (simp add: s3_def s2 s1 lines_recorded_def)
  have d3: "devs s3 = devs s" by (simp add: s3 s2 s1)
  define s4 where "s4 = prog_irq_msix_user d True s3"
  have s4: "devs s4 = devs s" "engs s4 = engs s" "notices s4 = notices s3"
    by (simp_all add: s4_def prog_irq_frame s3 s2 s1)
  have "irq_msix_channel_teardown d s = s3"
    using assms(1) by (simp add: irq_msix_channel_teardown_def Let_def s1_def [symmetric] s1(1) s2_def [symmetric]
        d2 s3_def [symmetric])
  moreover have "irq_msix_user_teardown K (Some d) s3 = user_free_loop K d (?h + ?c) [0..<?u] s4"
    using assms(1) d3 by (simp add: irq_msix_user_teardown_def Let_def s4_def [symmetric] s4(1))
  moreover have "user_lines K s4 d (?h + ?c) [0..<?u] = user_lines K s d (?h + ?c) [0..<?u]"
    by (simp add: user_lines_def s4(1))
  ultimately have fin: "irq_teardown K d s = s4\<lparr>notices := notices s @ map Release (msix_lines K s d)\<rparr>"
    using assms(1) s4(3) by (simp add: irq_teardown_def user_free_loop_effect s3 s2 s1 msix_lines_def)
  then show "held r (irq_teardown K d s) = held r s - int (count_list (msix_lines K s d) r)"
    using held_append [of "irq_teardown K d s" s "map Release (msix_lines K s d)" r]
    by (simp add: count_map_release)
  show "devs (irq_teardown K d s) = devs s" "engs (irq_teardown K d s) = engs s"
    by (simp_all add: fin s4)
qed

lemma legacy_setup_effect:
  assumes "irq_legacy_setup K d pdev s = (0, s')"
  shows "held r s' = held r s + (if r = R_irq (pdev_irq K pdev) (Dev_cookie d) then 1 else 0)"
    and "dv_irq_line (devs s' d) = sint (pdev_irq K pdev)"
    and "dv_msix_enabled (devs s' d) = dv_msix_enabled (devs s d)"
  using assms by (auto simp: irq_legacy_setup_def Let_def ask_irq_def EINVAL_def split: if_splits)

lemma line_setup_effect:
  assumes "irq_setup K d pdev s = (0, s1)" and "\<not> dv_msix_enabled (devs s d)"
  shows "held r s1 = held r s + (if r = R_irq (pdev_irq K pdev) (Dev_cookie d) then 1 else 0)"
    and "dv_irq_line (devs s1 d) = sint (pdev_irq K pdev)" and "\<not> dv_msix_enabled (devs s1 d)"
proof -
  have "held r s1 = held r s + (if r = R_irq (pdev_irq K pdev) (Dev_cookie d) then 1 else 0) \<and>
      dv_irq_line (devs s1 d) = sint (pdev_irq K pdev) \<and> \<not> dv_msix_enabled (devs s1 d)"
  proof (cases "dv_msi_enabled (devs s d)")
    case True
    then show ?thesis using assms
      by (auto simp: irq_setup_def keep_intx_held irq_msi_setup_def ask_irq_def Let_def split: if_splits)
  next
    case leg: False
    then have "irq_legacy_setup K d pdev (pci_keep_intx_enabled K pdev s) = (0, s1)"
      using assms by (simp add: irq_setup_def keep_intx_held Let_def)
    from legacy_setup_effect [OF this] show ?thesis using assms(2) by (simp add: keep_intx_held)
  qed
  then show "held r s1 = held r s + (if r = R_irq (pdev_irq K pdev) (Dev_cookie d) then 1 else 0)"
    "dv_irq_line (devs s1 d) = sint (pdev_irq K pdev)" "\<not> dv_msix_enabled (devs s1 d)"
    by simp_all
qed

lemma line_present: "sint w \<noteq> -1" if "w \<noteq> -1" for w :: u32
proof
  assume "sint w = -1"
  then have "word_of_int (sint w) = (-1 :: u32)" by simp
  then show False using that by simp
qed

text \<open>
  C21: Interrupt lines are given back. In each of the three modes, if \<open>irq_setup\<close> succeeds,
  a later \<open>irq_teardown\<close> frees exactly the lines it requested, for the same cookies, so
  that the driver holds as much of every resource as before. (Linux never hands out line 0,
  which teardown takes for \<open>not requested\<close>, nor line \<open>-1\<close>, which marks the absence of a
  line.)
\<close>

theorem irq_lines_balanced:
  assumes "irq_setup K d pdev s = (0, s1)" and "\<forall>p i. pci_irq_vector K p i \<noteq> 0" and "pdev_irq K pdev \<noteq> -1"
  shows "held r (irq_teardown K d s1) = held r s"
proof (cases "dv_msix_enabled (devs s d)")
  case True
  note e = msix_setup_effect [OF assms(1) True]
  have "msix_lines K s1 d = msix_lines K s d"
    using e by (simp add: msix_lines_def channel_lines_def user_lines_def)
  then show ?thesis using msix_teardown_effect(1) [of s1 d K r] e True assms(2) by simp
next
  case False
  then show ?thesis using line_setup_effect [OF assms(1) False] line_present [OF assms(3)]
    by (simp add: irq_teardown_def free_irq_def)
qed

lemma sample_vector_nonzero: "(40 :: u32) + of_nat (i mod 32) \<noteq> 0"
proof -
  have "(40 :: u32) + of_nat (i mod 32) = of_nat (40 + i mod 32)" by simp
  moreover have "unat (of_nat (40 + i mod 32) :: u32) = 40 + i mod 32" by (rule unat_of_nat_small) simp
  ultimately have "unat (40 + of_nat (i mod 32) :: u32) \<noteq> 0" by simp
  then show ?thesis by (metis unat_0)
qed

theorem irq_lines_balanced_witness:
  "\<exists>s1. irq_setup (sample_ienv (\<lambda>_ _. 0) (\<lambda>_ _. 0)) 0 1 (upd_dev 0 (\<lambda>v. v\<lparr>dv_msix_enabled := False\<rparr>) sample_two) = (0, s1) \<and>
     held (R_irq 11 (Dev_cookie 0)) s1 = 1 \<and>
     held (R_irq 11 (Dev_cookie 0)) (irq_teardown (sample_ienv (\<lambda>_ _. 0) (\<lambda>_ _. 0)) 0 s1) = 0"
proof -
  let ?K = "sample_ienv (\<lambda>_ _. 0) (\<lambda>_ _. 0)"
  let ?s = "upd_dev 0 (\<lambda>v. v\<lparr>dv_msix_enabled := False\<rparr>) sample_two"
  let ?r = "irq_setup ?K 0 1 ?s"
  have K: "pci_read_config_byte ?K p r = 1" "pdev_irq ?K p = 11" "pci_read_config_word ?K l p r = 0" for l p r
    by (simp_all add: sample_ienv_def aenv.defs)
  have r: "fst ?r = 0" "held (R_irq 11 (Dev_cookie 0)) (snd ?r) = 1" "held (R_irq 11 (Dev_cookie 0)) ?s = 0"
    by (simp_all add: irq_setup_def pci_keep_intx_enabled_def Let_def K irq_legacy_setup_def ask_irq_def
        sample_two_def sample_dev_def zero_dev_def held_def)
  have "pci_irq_vector ?K p i \<noteq> 0" for p i by (simp add: sample_vector_nonzero)
  then have "held (R_irq 11 (Dev_cookie 0)) (irq_teardown ?K 0 (snd ?r)) = held (R_irq 11 (Dev_cookie 0)) ?s"
    using irq_lines_balanced [of ?K 0 1 ?s "snd ?r" "R_irq 11 (Dev_cookie 0)"] r(1) K(2) by (simp add: prod_eq_iff)
  then show ?thesis using r by (intro exI [of _ "snd ?r"]) (simp add: prod_eq_iff)
qed

end
