(* ===== verification/Xdma_Bars.thy ===== *)
theory Xdma_Bars
  imports Xdma_Irq_Lines
begin

text \<open>
  Mapping the BARs of a device and finding out which of them holds the DMA registers
  (libxdma.c, \<open>unmap_bars\<close> to \<open>map_bars\<close>; \<open>XDMA_CONFIG_BAR_NUM\<close> is not defined). The PCI
  core is a parameter: the length of a BAR and the address at which \<open>pci_iomap\<close> maps it,
  0 when it cannot be mapped.
\<close>

record benv = ienv +
  pci_resource_len :: "nat \<Rightarrow> nat \<Rightarrow> nat"
  pci_iomap :: "notice list \<Rightarrow> nat \<Rightarrow> nat \<Rightarrow> nat \<Rightarrow> nat"

definition INT_MAX :: nat where [xdma_const]: "INT_MAX = 0x7fffffff"

definition set_bar :: "nat \<Rightarrow> nat \<Rightarrow> nat \<Rightarrow> drv \<Rightarrow> drv" where
  "set_bar d i a s = upd_dev d (\<lambda>v. v\<lparr>dv_bar := (dv_bar v)[i := a]\<rparr>) s"

fun unmap_loop :: "nat \<Rightarrow> nat list \<Rightarrow> drv \<Rightarrow> drv" where
  "unmap_loop d [] s = s"
| "unmap_loop d (i # is) s =
     unmap_loop d is
       (if dv_bar (devs s d) ! i \<noteq> 0
        then set_bar d i 0 (tell (Release (R_bar (dv_bar (devs s d) ! i))) s) else s)"

definition unmap_bars :: "nat \<Rightarrow> nat \<Rightarrow> drv \<Rightarrow> drv" where
  "unmap_bars d pdev s = unmap_loop d [0..<XDMA_BAR_NUM] s"

definition map_single_bar :: "'k benv_scheme \<Rightarrow> nat \<Rightarrow> nat \<Rightarrow> nat \<Rightarrow> drv \<Rightarrow> int \<times> drv" where
  "map_single_bar K d pdev idx s =
     (let bar_len = pci_resource_len K pdev idx;
          s = set_bar d idx 0 s
      in if bar_len = 0 then (0, s)
      else let map_len = (if bar_len > INT_MAX then INT_MAX else bar_len);
               addr = pci_iomap K (notices s) pdev idx map_len;
               s = set_bar d idx addr s
      in if addr = 0 then (-1, s)
         else (int map_len, tell (Acquire (R_bar addr)) s))"

definition is_config_bar :: "'k kenv_scheme \<Rightarrow> nat \<Rightarrow> nat \<Rightarrow> drv \<Rightarrow> bool \<times> drv" where
  "is_config_bar K d idx s =
     (let msk = 0xffff0000;
          irq_regs = dv_bar (devs s d) ! idx + XDMA_OFS_INT_CTRL;
          cfg_regs = dv_bar (devs s d) ! idx + XDMA_OFS_CONFIG;
          (irq_id, s) = read_register K (irq_regs + ir_identifier) s;
          (cfg_id, s) = read_register K (cfg_regs + offsetof config_regs ''identifier'') s
      in (irq_id AND msk = IRQ_BLOCK_ID \<and> cfg_id AND msk = CONFIG_BLOCK_ID, s))"

definition identify_bars ::
  "nat option \<Rightarrow> nat list option \<Rightarrow> nat \<Rightarrow> nat \<Rightarrow> drv \<Rightarrow> int \<times> drv" where
  "identify_bars xdev bar_id_list num_bars config_bar_pos s =
     (case xdev of None \<Rightarrow> (- EINVAL, s)
      | Some d \<Rightarrow> (case bar_id_list of None \<Rightarrow> (- EINVAL, s)
        | Some ids \<Rightarrow>
          (0, if num_bars = 2
              then if config_bar_pos = 0
                   then upd_dev d (\<lambda>v. v\<lparr>dv_bypass_bar_idx := int (ids ! 1)\<rparr>) s
                   else if config_bar_pos = 1
                   then upd_dev d (\<lambda>v. v\<lparr>dv_user_bar_idx := int (ids ! 0)\<rparr>) s
                   else s
              else if num_bars = 3 \<or> num_bars = 4
              then if config_bar_pos = 1 \<or> config_bar_pos = 2
                   then upd_dev d (\<lambda>v. v\<lparr>dv_user_bar_idx := int (ids ! 0),
                                        dv_bypass_bar_idx := int (ids ! (num_bars - 1))\<rparr>) s
                   else s
              else s)))"

text \<open>
  The loop over the BARs. It collects the indices of the BARs present and the position of
  the configuration BAR among them; \<open>None\<close> when a BAR cannot be mapped.
\<close>

fun bars_loop ::
  "'k benv_scheme \<Rightarrow> nat \<Rightarrow> nat \<Rightarrow> nat list \<Rightarrow> nat list \<Rightarrow> nat \<Rightarrow> drv \<Rightarrow> (nat list \<times> nat) option \<times> drv" where
  "bars_loop K d pdev [] ids pos s = (Some (ids, pos), s)"
| "bars_loop K d pdev (i # is) ids pos s =
     (let (bar_len, s) = map_single_bar K d pdev i s
      in if bar_len = 0 then bars_loop K d pdev is ids pos s
      else if bar_len < 0 then (None, s)
      else let (found, s) = (if int XDMA_BAR_SIZE \<le> bar_len \<and> dv_config_bar_idx (devs s d) < 0
                             then is_config_bar K d i s else (False, s));
               s = (if found then upd_dev d (\<lambda>v. v\<lparr>dv_config_bar_idx := int i\<rparr>) s else s);
               pos = (if found then length ids else pos)
           in bars_loop K d pdev is (ids @ [i]) pos s)"

definition map_bars :: "'k benv_scheme \<Rightarrow> nat \<Rightarrow> nat \<Rightarrow> drv \<Rightarrow> int \<times> drv" where
  "map_bars K d pdev s =
     (let (r, s) = bars_loop K d pdev [0..<XDMA_BAR_NUM] [] 0 s
      in case r of None \<Rightarrow> (- EINVAL, unmap_bars d pdev s)
         | Some (ids, pos) \<Rightarrow>
             if dv_config_bar_idx (devs s d) < 0 then (- EINVAL, unmap_bars d pdev s)
             else let (rv, s) = identify_bars (Some d) (Some ids) (length ids) pos s
                  in if rv < 0 then (rv, s) else (0, s))"

subsection \<open>Mapped windows\<close>

text \<open>The windows a device holds, and what the driver holds beyond them.\<close>

definition windows :: "xdma_dev \<Rightarrow> resource list" where
  "windows v = map R_bar (filter (\<lambda>a. a \<noteq> 0) (dv_bar v))"

definition beyond :: "resource \<Rightarrow> nat \<Rightarrow> drv \<Rightarrow> int" where
  "beyond r d s = held r s - int (count_list (windows (devs s d)) r)"

lemma count_window_set:
  assumes "i < length xs" and "xs ! i = 0"
  shows "count_list (map R_bar (filter (\<lambda>a. a \<noteq> 0) (xs[i := a]))) r =
    count_list (map R_bar (filter (\<lambda>a. a \<noteq> 0) xs)) r + (if a \<noteq> 0 \<and> r = R_bar a then 1 else 0)"
proof -
  have xs: "xs = take i xs @ 0 # drop (Suc i) xs" using assms by (metis id_take_nth_drop)
  have "xs[i := a] = take i xs @ a # drop (Suc i) xs" using assms(1) by (rule upd_conv_take_nth_drop)
  then show ?thesis by (subst (2) xs) simp
qed

lemma windows_set:
  assumes "i < length (dv_bar v)" and "dv_bar v ! i = 0"
  shows "count_list (windows (v\<lparr>dv_bar := (dv_bar v)[i := a]\<rparr>)) r =
    count_list (windows v) r + (if a \<noteq> 0 \<and> r = R_bar a then 1 else 0)"
  using count_window_set [OF assms] by (simp add: windows_def)

lemma windows_clear:
  assumes "i < length (dv_bar v)" and "dv_bar v ! i = a" and "a \<noteq> 0"
  shows "count_list (windows v) r =
    count_list (windows (v\<lparr>dv_bar := (dv_bar v)[i := 0]\<rparr>)) r + (if r = R_bar a then 1 else 0)"
  using count_window_set [of i "(dv_bar v)[i := 0]" a r] assms by (auto simp: windows_def)

lemma windows_none: "\<forall>i<length (dv_bar v). dv_bar v ! i = 0 \<Longrightarrow> windows v = []"
  by (auto simp: windows_def filter_empty_conv in_set_conv_nth)

text \<open>The part of a device that mapping and unmapping leaves alone.\<close>

definition sans_bars :: "xdma_dev \<Rightarrow> xdma_dev" where
  "sans_bars v = v\<lparr>dv_bar := [], dv_config_bar_idx := 0, dv_user_bar_idx := 0, dv_bypass_bar_idx := 0\<rparr>"

lemma sans_bars_simps [simp]:
  "sans_bars (v\<lparr>dv_bar := b\<rparr>) = sans_bars v" "sans_bars (v\<lparr>dv_config_bar_idx := i\<rparr>) = sans_bars v"
  "sans_bars (v\<lparr>dv_user_bar_idx := i\<rparr>) = sans_bars v" "sans_bars (v\<lparr>dv_bypass_bar_idx := i\<rparr>) = sans_bars v"
  by (simp_all add: sans_bars_def)

definition bars_frame :: "nat \<Rightarrow> drv \<Rightarrow> drv \<Rightarrow> bool" where
  "bars_frame d s s' \<longleftrightarrow> engs s' = engs s \<and> xdev_list s' = xdev_list s \<and> cs_threads s' = cs_threads s \<and>
     thread_cnt s' = thread_cnt s \<and> sans_bars (devs s' d) = sans_bars (devs s d) \<and>
     length (dv_bar (devs s' d)) = length (dv_bar (devs s d)) \<and>
     (\<forall>x. x \<noteq> d \<longrightarrow> devs s' x = devs s x) \<and> (\<forall>r. beyond r d s' = beyond r d s)"

lemma bars_frame_refl [simp]: "bars_frame d s s"
  by (simp add: bars_frame_def)

lemma bars_frame_trans: "bars_frame d s s' \<Longrightarrow> bars_frame d s' s'' \<Longrightarrow> bars_frame d s s''"
  by (auto simp: bars_frame_def)

lemma unmap_one:
  assumes "i < length (dv_bar (devs s d))" and "dv_bar (devs s d) ! i \<noteq> 0"
  shows "bars_frame d s (set_bar d i 0 (tell (Release (R_bar (dv_bar (devs s d) ! i))) s))"
proof -
  have "beyond r d (set_bar d i 0 (tell (Release (R_bar (dv_bar (devs s d) ! i))) s)) = beyond r d s" for r
    using windows_clear [OF assms(1) refl assms(2), of r] by (simp add: beyond_def set_bar_def)
  then show ?thesis by (simp add: bars_frame_def set_bar_def)
qed

lemma unmap_loop_effect:
  assumes "\<forall>i\<in>set is. i < length (dv_bar (devs s d))" and "distinct is"
  shows "bars_frame d s (unmap_loop d is s) \<and> dv_config_bar_idx (devs (unmap_loop d is s) d) = dv_config_bar_idx (devs s d) \<and>
    (\<forall>i. dv_bar (devs (unmap_loop d is s) d) ! i = (if i \<in> set is then 0 else dv_bar (devs s d) ! i))"
  using assms
proof (induction "is" arbitrary: s)
  case (Cons i "is")
  let ?s = "if dv_bar (devs s d) ! i \<noteq> 0
      then set_bar d i 0 (tell (Release (R_bar (dv_bar (devs s d) ! i))) s) else s"
  have one: "bars_frame d s ?s" "length (dv_bar (devs ?s d)) = length (dv_bar (devs s d))"
      "dv_config_bar_idx (devs ?s d) = dv_config_bar_idx (devs s d)"
      "\<forall>j. dv_bar (devs ?s d) ! j = (if j = i then 0 else dv_bar (devs s d) ! j)"
    using unmap_one [of i s d] Cons.prems(1) by (auto simp: set_bar_def nth_list_update)
  note IH = Cons.IH [of ?s]
  then show ?case using one Cons.prems by (auto intro: bars_frame_trans)
qed simp

lemma unmap_bars_effect:
  assumes "length (dv_bar (devs s d)) = XDMA_BAR_NUM"
  shows "bars_frame d s (unmap_bars d pdev s)" and "\<forall>i<XDMA_BAR_NUM. dv_bar (devs (unmap_bars d pdev s) d) ! i = 0"
    and "held r (unmap_bars d pdev s) = beyond r d s"
proof -
  note eff = unmap_loop_effect [of "[0..<XDMA_BAR_NUM]" s d] assms
  then show fr: "bars_frame d s (unmap_bars d pdev s)"
    and zero: "\<forall>i<XDMA_BAR_NUM. dv_bar (devs (unmap_bars d pdev s) d) ! i = 0"
    by (simp_all add: unmap_bars_def)
  have "windows (devs (unmap_bars d pdev s) d) = []"
    using fr zero assms by (intro windows_none) (simp add: bars_frame_def)
  then show "held r (unmap_bars d pdev s) = beyond r d s"
    using fr by (simp add: bars_frame_def beyond_def)
qed

lemma map_single_effect:
  assumes "map_single_bar K d pdev i s = (len, s')" and "i < length (dv_bar (devs s d))" and "dv_bar (devs s d) ! i = 0"
  shows "bars_frame d s s'" and "dv_config_bar_idx (devs s' d) = dv_config_bar_idx (devs s d)"
    and "j \<noteq> i \<Longrightarrow> dv_bar (devs s' d) ! j = dv_bar (devs s d) ! j"
    and "0 < len \<Longrightarrow> dv_bar (devs s' d) ! i \<noteq> 0"
    and "int XDMA_BAR_SIZE \<le> len \<Longrightarrow> XDMA_BAR_SIZE \<le> pci_resource_len K pdev i"
proof -
  let ?addr = "pci_iomap K (notices (set_bar d i 0 s)) pdev i
      (if pci_resource_len K pdev i > INT_MAX then INT_MAX else pci_resource_len K pdev i)"
  have set: "set_bar d i a (set_bar d i 0 s) = set_bar d i a s" for a
    by (simp add: set_bar_def upd_dev_def)
  have s': "s' = (if pci_resource_len K pdev i = 0 then set_bar d i 0 s
      else if ?addr = 0 then set_bar d i 0 s else tell (Acquire (R_bar ?addr)) (set_bar d i ?addr s))"
    using assms(1) by (auto simp: map_single_bar_def Let_def set split: if_splits)
  have "beyond r d (set_bar d i 0 s) = beyond r d s"
    "a \<noteq> 0 \<Longrightarrow> beyond r d (tell (Acquire (R_bar a)) (set_bar d i a s)) = beyond r d s" for r a
    using windows_set [OF assms(2,3), of _ r] by (simp_all add: beyond_def set_bar_def)
  then show "bars_frame d s s'" by (simp add: s' bars_frame_def) (simp add: set_bar_def)
  show "dv_config_bar_idx (devs s' d) = dv_config_bar_idx (devs s d)"
    and "j \<noteq> i \<Longrightarrow> dv_bar (devs s' d) ! j = dv_bar (devs s d) ! j"
    by (simp_all add: s' set_bar_def)
  show "0 < len \<Longrightarrow> dv_bar (devs s' d) ! i \<noteq> 0"
    using assms(1,2) by (auto simp: map_single_bar_def Let_def set set_bar_def split: if_splits)
  show "int XDMA_BAR_SIZE \<le> len \<Longrightarrow> XDMA_BAR_SIZE \<le> pci_resource_len K pdev i"
    using assms(1) by (auto simp: map_single_bar_def Let_def XDMA_BAR_SIZE_def INT_MAX_def split: if_splits)
qed

text \<open>The window at an address has answered with the identifiers of the DMA core.\<close>

definition answers :: "'k kenv_scheme \<Rightarrow> nat \<Rightarrow> bool" where
  "answers K a \<longleftrightarrow> (\<exists>l l'.
     ioread32 K l (a + XDMA_OFS_INT_CTRL + ir_identifier) AND 0xffff0000 = IRQ_BLOCK_ID \<and>
     ioread32 K l' (a + XDMA_OFS_CONFIG + offsetof config_regs ''identifier'') AND 0xffff0000 = CONFIG_BLOCK_ID)"

lemma is_config_bar_answers: "fst (is_config_bar K d i s) \<Longrightarrow> answers K (dv_bar (devs s d) ! i)"
  unfolding answers_def is_config_bar_def Let_def case_prod_unfold fst_conv read_register_value by blast

text \<open>
  Either no configuration BAR has been found yet or it is mapped, large enough and has
  answered.
\<close>

definition config_ok :: "'k benv_scheme \<Rightarrow> nat \<Rightarrow> nat \<Rightarrow> drv \<Rightarrow> bool" where
  "config_ok K d pdev s \<longleftrightarrow> dv_config_bar_idx (devs s d) < 0 \<or>
     (\<exists>i<length (dv_bar (devs s d)). dv_config_bar_idx (devs s d) = int i \<and> dv_bar (devs s d) ! i \<noteq> 0 \<and>
        XDMA_BAR_SIZE \<le> pci_resource_len K pdev i \<and> answers K (dv_bar (devs s d) ! i))"

lemma is_config_bar_frame:
  "devs (snd (is_config_bar K d i s)) = devs s" "engs (snd (is_config_bar K d i s)) = engs s"
  "notices (snd (is_config_bar K d i s)) = notices s" "xdev_list (snd (is_config_bar K d i s)) = xdev_list s"
  "cs_threads (snd (is_config_bar K d i s)) = cs_threads s" "thread_cnt (snd (is_config_bar K d i s)) = thread_cnt s"
  by (simp_all add: is_config_bar_def Let_def case_prod_unfold)

lemma bars_loop_effect:
  assumes "bars_loop K d pdev is ids pos s = (r, s')" and "\<forall>i\<in>set is. i < length (dv_bar (devs s d)) \<and> dv_bar (devs s d) ! i = 0"
    and "distinct is" and "config_ok K d pdev s"
  shows "bars_frame d s s' \<and> config_ok K d pdev s'"
  using assms
proof (induction "is" arbitrary: ids pos s)
  case (Cons i "is")
  obtain len s1 where m: "map_single_bar K d pdev i s = (len, s1)" by fastforce
  have i: "i < length (dv_bar (devs s d))" "dv_bar (devs s d) ! i = 0" using Cons.prems(2) by auto
  note e = map_single_effect [OF m i]
  have len1: "length (dv_bar (devs s1 d)) = length (dv_bar (devs s d))" using e(1) by (simp add: bars_frame_def)
  have other: "dv_bar (devs s1 d) ! j = dv_bar (devs s d) ! j" if "j \<noteq> i" for j
    using map_single_effect(3) [OF m i that] .
  have rest: "\<forall>j\<in>set is. j < length (dv_bar (devs s1 d)) \<and> dv_bar (devs s1 d) ! j = 0"
    using Cons.prems(2,3) other len1 by (metis distinct.simps(2) list.set_intros(2))
  have ok1: "config_ok K d pdev s1"
    using Cons.prems(4) other len1 i(2) unfolding config_ok_def e(2) by metis
  show ?case
  proof (cases "0 < len")
    case False
    then consider "len = 0" | "len < 0" by linarith
    then show ?thesis
    proof cases
      case 1
      then have "bars_loop K d pdev is ids pos s1 = (r, s')" using Cons.prems(1) m by simp
      from Cons.IH [OF this rest _ ok1] show ?thesis using e(1) Cons.prems(3) by (auto intro: bars_frame_trans)
    next
      case 2
      then show ?thesis using Cons.prems(1) m e(1) ok1 by simp
    qed
  next
    case True
    define cond where "cond \<longleftrightarrow> int XDMA_BAR_SIZE \<le> len \<and> dv_config_bar_idx (devs s1 d) < 0"
    define found where "found \<longleftrightarrow> cond \<and> fst (is_config_bar K d i s1)"
    define s2 where "s2 = (if cond then snd (is_config_bar K d i s1) else s1)"
    define s3 where "s3 = (if found then upd_dev d (\<lambda>v. v\<lparr>dv_config_bar_idx := int i\<rparr>) s2 else s2)"
    have loop: "bars_loop K d pdev is (ids @ [i]) (if found then length ids else pos) s3 = (r, s')"
      using Cons.prems(1) m True
      by (cases cond; cases "is_config_bar K d i s1")
        (auto simp: s3_def s2_def found_def cond_def Let_def split: if_splits)
    have d2: "devs s2 = devs s1" by (simp add: s2_def is_config_bar_frame)
    have bar3: "dv_bar (devs s3 d) = dv_bar (devs s1 d)" by (simp add: s3_def d2)
    have fr: "bars_frame d s1 s3"
      by (simp add: bars_frame_def s3_def s2_def is_config_bar_frame beyond_def windows_def held_def)
    have "config_ok K d pdev s3"
      using ok1 e(4) [OF True] e(5) i(1) len1 is_config_bar_answers [of K d i s1]
      by (auto simp: config_ok_def s3_def d2 found_def cond_def)
    moreover have "\<forall>j\<in>set is. j < length (dv_bar (devs s3 d)) \<and> dv_bar (devs s3 d) ! j = 0"
      using rest by (simp add: bar3)
    ultimately show ?thesis using Cons.IH [OF loop] Cons.prems(3) fr e(1)
      by (auto intro: bars_frame_trans)
  qed
qed simp

lemma map_bars_effect:
  assumes "map_bars K d pdev s = (rv, s')" and "dv_bar (devs s d) = replicate XDMA_BAR_NUM 0"
    and "dv_config_bar_idx (devs s d) = -1"
  shows "bars_frame d s s' \<and>
    (rv = 0 \<and> (\<exists>i<XDMA_BAR_NUM. dv_config_bar_idx (devs s' d) = int i \<and> dv_bar (devs s' d) ! i \<noteq> 0 \<and>
                XDMA_BAR_SIZE \<le> pci_resource_len K pdev i \<and> answers K (dv_bar (devs s' d) ! i)) \<or>
     rv = - EINVAL \<and> (\<forall>i<XDMA_BAR_NUM. dv_bar (devs s' d) ! i = 0))"
proof -
  obtain r s1 where loop: "bars_loop K d pdev [0..<XDMA_BAR_NUM] [] 0 s = (r, s1)" by fastforce
  have e: "bars_frame d s s1" "config_ok K d pdev s1"
    using bars_loop_effect [OF loop] assms(2,3) by (auto simp: config_ok_def)
  have len: "length (dv_bar (devs s1 d)) = XDMA_BAR_NUM" using e(1) assms(2) by (simp add: bars_frame_def)
  note un = unmap_bars_effect [OF len]
  have fail: "bars_frame d s (unmap_bars d pdev s1)" using e(1) un(1) by (rule bars_frame_trans)
  show ?thesis
  proof (cases "r = None \<or> dv_config_bar_idx (devs s1 d) < 0")
    case True
    then have "rv = - EINVAL" "s' = unmap_bars d pdev s1"
      using assms(1) loop by (auto simp: map_bars_def split: option.splits prod.splits)
    then show ?thesis using fail un(2) by simp
  next
    case False
    then obtain ids pos where r: "r = Some (ids, pos)" by (metis option.exhaust surj_pair)
    then have s': "rv = 0" "s' = snd (identify_bars (Some d) (Some ids) (length ids) pos s1)"
      using assms(1) loop False by (auto simp: map_bars_def identify_bars_def Let_def)
    have "bars_frame d s1 s'" "dv_bar (devs s' d) = dv_bar (devs s1 d)"
      "dv_config_bar_idx (devs s' d) = dv_config_bar_idx (devs s1 d)"
      by (auto simp: s' identify_bars_def bars_frame_def beyond_def windows_def held_def)
    then show ?thesis using e False s'(1) len by (auto simp: config_ok_def intro: bars_frame_trans)
  qed
qed

text \<open>BARs that are absent are passed over.\<close>

lemma bars_loop_absent:
  assumes "\<forall>i\<in>set is. pci_resource_len K pdev i = 0"
  obtains s' where "bars_loop K d pdev is ids pos s = (Some (ids, pos), s')" and "notices s' = notices s"
    and "dv_config_bar_idx (devs s' d) = dv_config_bar_idx (devs s d)"
  using assms
proof (induction "is" arbitrary: s thesis)
  case (Cons i "is")
  then have "map_single_bar K d pdev i s = (0, set_bar d i 0 s)" by (simp add: map_single_bar_def)
  moreover obtain s' where "bars_loop K d pdev is ids pos (set_bar d i 0 s) = (Some (ids, pos), s')"
      "notices s' = notices s" "dv_config_bar_idx (devs s' d) = dv_config_bar_idx (devs s d)"
    using Cons.IH [of "set_bar d i 0 s"] Cons.prems(2) by (auto simp: set_bar_def)
  ultimately show ?case using Cons.prems(1) by simp
qed simp

subsection \<open>Properties\<close>

text \<open>
  C24: Mapping the BARs of a fresh device either finds the register window or leaves nothing
  behind. On success the configuration BAR is one of the six, it is mapped, at least as large
  as the register space and has answered with the identifiers of the DMA core, and
  \<open>unmap_bars\<close> later unmaps exactly the windows that were mapped; on failure (always
  \<open>-EINVAL\<close>) every window mapped on the way has been unmapped again.
\<close>

theorem map_bars_sound:
  assumes "map_bars K d pdev s = (rv, s1)" and "dv_bar (devs s d) = replicate XDMA_BAR_NUM 0"
    and "dv_config_bar_idx (devs s d) = -1"
  shows "if rv = 0
    then (\<exists>i<XDMA_BAR_NUM. dv_config_bar_idx (devs s1 d) = int i \<and> dv_bar (devs s1 d) ! i \<noteq> 0 \<and>
           XDMA_BAR_SIZE \<le> pci_resource_len K pdev i \<and> answers K (dv_bar (devs s1 d) ! i)) \<and>
         (\<forall>r. held r (unmap_bars d pdev s1) = held r s)
    else rv = - EINVAL \<and> (\<forall>i<XDMA_BAR_NUM. dv_bar (devs s1 d) ! i = 0) \<and> (\<forall>r. held r s1 = held r s)"
proof -
  note eff = map_bars_effect [OF assms]
  have len: "length (dv_bar (devs s1 d)) = XDMA_BAR_NUM" and bey: "beyond r d s1 = beyond r d s" for r
    using eff assms(2) by (auto simp: bars_frame_def)
  have start: "beyond r d s = held r s" for r by (simp add: beyond_def windows_none assms(2))
  have "held r s1 = beyond r d s1" if "\<forall>i<XDMA_BAR_NUM. dv_bar (devs s1 d) ! i = 0" for r
    using that len by (simp add: beyond_def windows_none)
  then show ?thesis
    using eff unmap_bars_effect(3) [OF len] bey start by (auto simp: EINVAL_def)
qed

text \<open>
  One BAR of 64 kB at index 0 whose registers answer, with a DMA channel in each direction.
\<close>

definition sample_benv :: "ienv \<Rightarrow> benv" where
  "sample_benv K = ienv.extend K \<lparr>pci_resource_len = (\<lambda>p i. if i = 0 then 0x10000 else 0),
     pci_iomap = (\<lambda>l p i n. 0x100000 + i)\<rparr>"

definition sample_core :: hardware where
  "sample_core l a = (if a = 0x100000 + XDMA_OFS_INT_CTRL + ir_identifier then IRQ_BLOCK_ID
     else if a = 0x100000 + XDMA_OFS_CONFIG + offsetof config_regs ''identifier'' then CONFIG_BLOCK_ID
     else if a = 0x100000 + er_identifier then 0x1fc00000
     else if a = 0x100000 + H2C_CHANNEL_OFFSET + er_identifier then 0x1fc10000 else 0)"

definition sample_unmapped :: drv where
  "sample_unmapped = upd_dev 0 (\<lambda>v. v\<lparr>dv_config_bar_idx := -1\<rparr>) sample_drv"

lemma sample_benv_fields [simp]:
  "pci_resource_len (sample_benv K) = (\<lambda>p i. if i = 0 then 0x10000 else 0)"
  "pci_iomap (sample_benv K) = (\<lambda>l p i n. 0x100000 + i)" "ioread32 (sample_benv K) = ioread32 K"
  by (simp_all add: sample_benv_def ienv.defs)

text \<open>Such a BAR is found in every state of a fresh device.\<close>

lemma sample_map_bars:
  assumes "pci_resource_len K = (\<lambda>p i. if i = 0 then 0x10000 else 0)" and "pci_iomap K = (\<lambda>l p i n. 0x100000 + i)"
    and "ioread32 K = sample_core" and "dv_bar (devs s d) = replicate XDMA_BAR_NUM 0" and "dv_config_bar_idx (devs s d) = -1"
  shows "\<exists>s'. map_bars K d p s = (0, s') \<and> dv_config_bar_idx (devs s' d) = 0 \<and>
    notices s' = notices s @ [Acquire (R_bar 0x100000)]"
proof -
  have found: "fst (is_config_bar K d 0 x)" if "dv_bar (devs x d) ! 0 = 0x100000" for x
    using that assms(3) by (simp add: is_config_bar_def Let_def case_prod_unfold sample_core_def
        XDMA_OFS_INT_CTRL_def XDMA_OFS_CONFIG_def IRQ_BLOCK_ID_def CONFIG_BLOCK_ID_def)
  define s0 where "s0 = tell (Acquire (R_bar 0x100000)) (set_bar d 0 0x100000 (set_bar d 0 0 s))"
  have one: "map_single_bar K d p 0 s = (0x10000, s0)"
    by (simp add: map_single_bar_def INT_MAX_def s0_def assms(1,2))
  have s0: "dv_bar (devs s0 d) ! 0 = 0x100000" "dv_config_bar_idx (devs s0 d) = -1"
      "notices s0 = notices s @ [Acquire (R_bar 0x100000)]"
    by (simp_all add: s0_def set_bar_def assms(4,5) XDMA_BAR_NUM_def)
  define s1 where "s1 = upd_dev d (\<lambda>v. v\<lparr>dv_config_bar_idx := 0\<rparr>) (snd (is_config_bar K d 0 s0))"
  have s1: "dv_config_bar_idx (devs s1 d) = 0" "notices s1 = notices s @ [Acquire (R_bar 0x100000)]"
    by (simp_all add: s1_def is_config_bar_frame s0)
  have "[0..<XDMA_BAR_NUM] = 0 # [1..<XDMA_BAR_NUM]" by (simp add: XDMA_BAR_NUM_def upt_conv_Cons)
  then have loop: "bars_loop K d p [0..<XDMA_BAR_NUM] [] 0 s = bars_loop K d p [1..<XDMA_BAR_NUM] [0] 0 s1"
    using found [OF s0(1)] by (simp add: one s0(2) s1_def XDMA_BAR_SIZE_def case_prod_unfold)
  obtain s2 where s2: "bars_loop K d p [1..<XDMA_BAR_NUM] [0] 0 s1 = (Some ([0], 0), s2)"
      "notices s2 = notices s1" "dv_config_bar_idx (devs s2 d) = dv_config_bar_idx (devs s1 d)"
    by (rule bars_loop_absent [of "[1..<XDMA_BAR_NUM]" K p d "[0]" 0 s1]) (auto simp: assms(1))
  show ?thesis unfolding map_bars_def loop s2(1) by (simp add: identify_bars_def s2(2,3) s1)
qed

theorem map_bars_sound_witness:
  "\<exists>s1. map_bars (sample_benv (sample_ienv sample_core (\<lambda>_ _. 0))) 0 2 sample_unmapped = (0, s1) \<and>
     dv_config_bar_idx (devs s1 0) = 0 \<and> held (R_bar 0x100000) s1 = 1 \<and>
     held (R_bar 0x100000) (unmap_bars 0 2 s1) = 0"
proof -
  let ?K = "sample_benv (sample_ienv sample_core (\<lambda>_ _. 0))"
  have bars: "dv_bar (devs sample_unmapped 0) = replicate XDMA_BAR_NUM 0"
      "dv_config_bar_idx (devs sample_unmapped 0) = -1" "notices sample_unmapped = []"
    by (simp_all add: sample_unmapped_def sample_dev_def zero_dev_def)
  obtain s1 where s1: "map_bars ?K 0 2 sample_unmapped = (0, s1)" "dv_config_bar_idx (devs s1 0) = 0"
      "notices s1 = [Acquire (R_bar 0x100000)]"
    using sample_map_bars [of ?K sample_unmapped 0 2] bars by auto
  then show ?thesis using map_bars_sound [OF s1(1) bars(1,2)] bars(3) by (simp add: held_def)
qed

end
