(* ===== verification/Xdma_Device.thy ===== *)
theory Xdma_Device
  imports Xdma_Bars Xdma_Submit
begin

text \<open>
  The life of a device (libxdma.c, \<open>xdev_list_add\<close> and \<open>alloc_dev_instance\<close> to
  \<open>engine_addrmode_set\<close>): it is allocated, entered into the list of devices, its BARs are
  mapped, its engines probed and its interrupts set up, and all of this is undone when the
  device is closed or an error occurs on the way. The second list, \<open>xdev_rcu_list\<close>, is never
  read and is left out. The channel and interrupt counts are natural numbers: no caller
  passes a negative one.
\<close>

record denv = benv +
  kzalloc_dev :: "notice list \<Rightarrow> nat option"
  pci_enable_device :: "nat \<Rightarrow> int"
  pci_request_regions :: "nat \<Rightarrow> int"
  pci_set_dma_mask :: "nat \<Rightarrow> nat \<Rightarrow> int"
  get_user :: "nat \<Rightarrow> u64 option"

definition PCI_EXP_DEVCTL_RELAX_EN :: u16 where [xdma_const]: "PCI_EXP_DEVCTL_RELAX_EN = 0x10"
definition PCI_EXP_DEVCTL_EXT_TAG :: u16 where [xdma_const]: "PCI_EXP_DEVCTL_EXT_TAG = 0x100"

subsection \<open>The list of devices\<close>

definition xdev_list_add :: "'k denv_scheme \<Rightarrow> nat \<Rightarrow> drv \<Rightarrow> int \<times> drv" where
  "xdev_list_add K d s =
     (if xdev_list s = []
      then let s = upd_dev d (\<lambda>v. v\<lparr>dv_idx := 0\<rparr>) s;
               (rv, s) = (if poll_mode K \<noteq> 0
                          then xdma_threads_create K (dv_h2c_channel_max (devs s d) + dv_c2h_channel_max (devs s d)) s
                          else (0, s))
           in if rv < 0 then (rv, s) else (0, s\<lparr>xdev_list := xdev_list s @ [d]\<rparr>)
      else let s = upd_dev d (\<lambda>v. v\<lparr>dv_idx := dv_idx (devs s (last (xdev_list s))) + 1\<rparr>) s
           in (0, s\<lparr>xdev_list := xdev_list s @ [d]\<rparr>))"

definition xdev_list_remove :: "'k denv_scheme \<Rightarrow> nat \<Rightarrow> drv \<Rightarrow> drv" where
  "xdev_list_remove K d s =
     (let s = s\<lparr>xdev_list := remove1 d (xdev_list s)\<rparr>
      in if poll_mode K \<noteq> 0 \<and> xdev_list s = [] then xdma_threads_destroy K s else s)"

subsection \<open>Allocation and PCI setup\<close>

definition fresh_dev :: "nat \<Rightarrow> xdma_dev" where
  "fresh_dev pdev = zero_dev\<lparr>dv_magic := MAGIC_DEVICE, dv_config_bar_idx := -1, dv_user_bar_idx := -1,
     dv_bypass_bar_idx := -1, dv_irq_line := -1, dv_pdev := pdev,
     dv_user_irq := map (\<lambda>i. \<lparr>u_user_idx = i, u_events_irq = 0, u_handler = None, u_dev = 0\<rparr>) [0..<16]\<rparr>"

definition alloc_dev_instance :: "'k denv_scheme \<Rightarrow> nat \<Rightarrow> drv \<Rightarrow> nat option \<times> drv" where
  "alloc_dev_instance K pdev s =
     (if pdev = 0 then (None, s)
      else case kzalloc_dev K (notices s) of None \<Rightarrow> (None, s)
         | Some d \<Rightarrow>
             (Some d, (tell (Acquire (R_dev d)) s)
                \<lparr>devs := (devs s)(d := fresh_dev pdev),
                 engs := (\<lambda>e. if fst e = d then zero_engine else engs s e)\<rparr>))"

definition request_regions :: "'k denv_scheme \<Rightarrow> nat option \<Rightarrow> nat \<Rightarrow> drv \<Rightarrow> int \<times> drv" where
  "request_regions K xdev pdev s =
     (case xdev of None \<Rightarrow> (- EINVAL, s)
      | Some d \<Rightarrow>
        if pdev = 0 then (- EINVAL, s)
        else let rv = pci_request_regions K pdev
             in (rv, if rv \<noteq> 0 then upd_dev d (\<lambda>v. v\<lparr>dv_regions_in_use := True\<rparr>) s
                     else upd_dev d (\<lambda>v. v\<lparr>dv_got_regions := True\<rparr>) (tell (Acquire (R_regions pdev)) s)))"

definition set_dma_mask :: "'k denv_scheme \<Rightarrow> nat \<Rightarrow> drv \<Rightarrow> int \<times> drv" where
  "set_dma_mask K pdev s =
     (if pdev = 0 then (- EINVAL, s)
      else if pci_set_dma_mask K pdev 64 = 0 then (0, tell (Pci_set_consistent_dma_mask pdev 64) s)
      else if pci_set_dma_mask K pdev 32 = 0 then (0, tell (Pci_set_consistent_dma_mask pdev 32) s)
      else (- EINVAL, s))"

definition pci_enable_capability :: "nat \<Rightarrow> u16 \<Rightarrow> drv \<Rightarrow> drv" where
  "pci_enable_capability pdev cap s = tell (Pcie_set_devctl pdev cap) s"

text \<open>Reads six registers; what it finds is only logged.\<close>

definition check_nonzero_interrupt_status :: "'k kenv_scheme \<Rightarrow> nat \<Rightarrow> drv \<Rightarrow> drv" where
  "check_nonzero_interrupt_status K d s =
     (let reg = config_base s d + XDMA_OFS_INT_CTRL;
          s = snd (read_register K (reg + ir_user_int_enable) s);
          s = snd (read_register K (reg + ir_channel_int_enable) s);
          s = snd (read_register K (reg + ir_user_int_request) s);
          s = snd (read_register K (reg + ir_channel_int_request) s);
          s = snd (read_register K (reg + ir_user_int_pending) s)
      in snd (read_register K (reg + ir_channel_int_pending) s))"

subsection \<open>Probing and removing engines\<close>

definition get_engine_channel_id :: "'k kenv_scheme \<Rightarrow> nat \<Rightarrow> drv \<Rightarrow> int \<times> drv" where
  "get_engine_channel_id K regs s =
     (if regs = 0 then (- EINVAL, s)
      else let (val, s) = read_register K (regs + er_identifier) s
           in (uint (drop_bit 8 (val AND 0x00000f00)), s))"

definition get_engine_id :: "'k kenv_scheme \<Rightarrow> nat \<Rightarrow> drv \<Rightarrow> int \<times> drv" where
  "get_engine_id K regs s =
     (if regs = 0 then (- EINVAL, s)
      else let (val, s) = read_register K (regs + er_identifier) s
           in (uint (drop_bit 16 (val AND 0xffff0000)), s))"

text \<open>The direction of the channels of a side.\<close>

definition side_dir :: "side \<Rightarrow> dma_dir" where
  "side_dir sd = (if sd = H2C then DMA_TO_DEVICE else DMA_FROM_DEVICE)"

definition probe_for_engine :: "'k aenv_scheme \<Rightarrow> nat \<Rightarrow> side \<Rightarrow> nat \<Rightarrow> drv \<Rightarrow> int \<times> drv" where
  "probe_for_engine K d sd channel s =
     (let offset = channel * CHANNEL_SPACING + (if sd = H2C then 0 else H2C_CHANNEL_OFFSET);
          engine_id_expected = (if sd = H2C then XDMA_ID_H2C else XDMA_ID_C2H);
          regs = config_base s d + offset;
          (engine_id, s) = get_engine_id K regs s;
          (channel_id, s) = get_engine_channel_id K regs s
      in if word_of_int engine_id \<noteq> engine_id_expected \<or> word_of_int channel_id \<noteq> (of_nat channel :: u32)
         then (- EINVAL, s)
         else let (rv, s) = engine_init K (d, sd, channel) d offset (side_dir sd) channel s
              in if rv \<noteq> 0 then (rv, s) else (0, s))"

text \<open>The loop over the channels of one side returns the channel at which it stopped.\<close>

fun probe_loop :: "'k aenv_scheme \<Rightarrow> nat \<Rightarrow> side \<Rightarrow> nat list \<Rightarrow> nat \<Rightarrow> drv \<Rightarrow> nat \<times> drv" where
  "probe_loop K d sd [] n s = (n, s)"
| "probe_loop K d sd (i # is) n s =
     (let (rv, s) = probe_for_engine K d sd i s
      in if rv \<noteq> 0 then (i, s) else probe_loop K d sd is n s)"

definition probe_engines :: "'k aenv_scheme \<Rightarrow> nat option \<Rightarrow> drv \<Rightarrow> int \<times> drv" where
  "probe_engines K xdev s =
     (case xdev of None \<Rightarrow> (- EINVAL, s)
      | Some d \<Rightarrow>
        (let n = dv_h2c_channel_max (devs s d);
             (i, s) = probe_loop K d H2C [0..<n] n s;
             s = upd_dev d (\<lambda>v. v\<lparr>dv_h2c_channel_max := i\<rparr>) s;
             n = dv_c2h_channel_max (devs s d);
             (i, s) = probe_loop K d C2H [0..<n] n s
         in (0, upd_dev d (\<lambda>v. v\<lparr>dv_c2h_channel_max := i\<rparr>) s)))"

definition remove_engine :: "'k kenv_scheme \<Rightarrow> nat \<Rightarrow> eng_id \<Rightarrow> drv \<Rightarrow> drv" where
  "remove_engine K d e s =
     (if e_magic (engs s e) = MAGIC_ENGINE then snd (engine_destroy K (Some d) (Some e) s) else s)"

definition remove_engines :: "'k kenv_scheme \<Rightarrow> nat option \<Rightarrow> drv \<Rightarrow> drv" where
  "remove_engines K xdev s =
     (case xdev of None \<Rightarrow> s
      | Some d \<Rightarrow>
        (let s = fold (\<lambda>i. remove_engine K d (d, H2C, i)) [0..<dv_h2c_channel_max (devs s d)] s
         in fold (\<lambda>i. remove_engine K d (d, C2H, i)) [0..<dv_c2h_channel_max (devs s d)] s))"

subsection \<open>Opening and closing\<close>

text \<open>The error labels of \<open>xdma_device_open\<close>; control falls from each to the next.\<close>

definition free_xdev :: "nat \<Rightarrow> drv \<Rightarrow> drv" where
  "free_xdev d s = tell (Release (R_dev d)) s"

definition err_enable :: "'k denv_scheme \<Rightarrow> nat \<Rightarrow> drv \<Rightarrow> drv" where
  "err_enable K d s = free_xdev d (xdev_list_remove K d s)"

definition err_regions :: "'k denv_scheme \<Rightarrow> nat \<Rightarrow> nat \<Rightarrow> drv \<Rightarrow> drv" where
  "err_regions K d pdev s =
     err_enable K d (if \<not> dv_regions_in_use (devs s d) then tell (Release (R_pci pdev)) s else s)"

definition err_map :: "'k denv_scheme \<Rightarrow> nat \<Rightarrow> nat \<Rightarrow> drv \<Rightarrow> drv" where
  "err_map K d pdev s =
     err_regions K d pdev (if dv_got_regions (devs s d) then tell (Release (R_regions pdev)) s else s)"

definition err_mask :: "'k denv_scheme \<Rightarrow> nat \<Rightarrow> nat \<Rightarrow> drv \<Rightarrow> drv" where
  "err_mask K d pdev s = err_map K d pdev (unmap_bars d pdev s)"

definition err_engines :: "'k denv_scheme \<Rightarrow> nat \<Rightarrow> nat \<Rightarrow> drv \<Rightarrow> drv" where
  "err_engines K d pdev s = err_mask K d pdev (remove_engines K (Some d) s)"

definition err_msix :: "'k denv_scheme \<Rightarrow> nat \<Rightarrow> nat \<Rightarrow> drv \<Rightarrow> drv" where
  "err_msix K d pdev s = err_engines K d pdev (disable_msi_msix d pdev s)"

definition mask_interrupts :: "'k kenv_scheme \<Rightarrow> nat \<Rightarrow> drv \<Rightarrow> drv" where
  "mask_interrupts K d s =
     snd (read_interrupts K d (user_interrupts_disable d (-1) (channel_interrupts_disable d (-1) s)))"

definition clamp :: "nat \<Rightarrow> nat \<Rightarrow> nat" where
  "clamp n mx = (if n = 0 \<or> n > mx then mx else n)"

text \<open>
  \<open>xdma_device_open\<close> up to the request of the BAR regions (\<open>open_pci\<close>), the mapping and
  probing (\<open>open_hw\<close>), and the interrupts (\<open>open_irqs\<close>). The handle comes with the three counts written
  back to the caller.
\<close>

definition open_pci :: "'k denv_scheme \<Rightarrow> string \<Rightarrow> nat \<Rightarrow> nat \<Rightarrow> nat \<Rightarrow> nat \<Rightarrow> drv \<Rightarrow> nat option \<times> drv" where
  "open_pci K mname pdev user_max h2c_channel_max c2h_channel_max s =
     (let (xdev, s) = alloc_dev_instance K pdev s
      in case xdev of None \<Rightarrow> (None, s)
      | Some d \<Rightarrow>
        let s = upd_dev d (\<lambda>v. v\<lparr>dv_mod_name := mname, dv_user_max := user_max,
                  dv_h2c_channel_max := h2c_channel_max, dv_c2h_channel_max := c2h_channel_max\<rparr>) s;
            s = xdma_device_flag_set d XDEV_FLAG_OFFLINE s;
            s = upd_dev d (\<lambda>v. v\<lparr>dv_user_max := clamp (dv_user_max v) MAX_USER_IRQ\<rparr>) s;
            s = upd_dev d (\<lambda>v. v\<lparr>dv_h2c_channel_max := clamp (dv_h2c_channel_max v) XDMA_CHANNEL_NUM_MAX\<rparr>) s;
            s = upd_dev d (\<lambda>v. v\<lparr>dv_c2h_channel_max := clamp (dv_c2h_channel_max v) XDMA_CHANNEL_NUM_MAX\<rparr>) s;
            (rv, s) = xdev_list_add K d s
        in if rv < 0 then (None, free_xdev d s)
        else if pci_enable_device K pdev \<noteq> 0 then (None, err_enable K d s)
        else let s = tell (Acquire (R_pci pdev)) s;
                 s = pci_check_intr_pend K pdev s;
                 s = pci_enable_capability pdev PCI_EXP_DEVCTL_RELAX_EN s;
                 s = pci_enable_capability pdev PCI_EXP_DEVCTL_EXT_TAG s;
                 s = tell (Pcie_set_readrq pdev 512) s;
                 s = tell (Pci_set_master pdev) s;
                 (rv, s) = request_regions K (Some d) pdev s
             in if rv \<noteq> 0 then (None, err_regions K d pdev s) else (Some d, s))"

definition open_hw :: "'k denv_scheme \<Rightarrow> nat \<Rightarrow> nat \<Rightarrow> drv \<Rightarrow> bool \<times> drv" where
  "open_hw K d pdev s =
     (let (rv, s) = map_bars K d pdev s
      in if rv \<noteq> 0 then (False, err_map K d pdev s)
      else let (rv, s) = set_dma_mask K pdev s
      in if rv \<noteq> 0 then (False, err_mask K d pdev s)
      else let s = check_nonzero_interrupt_status K d s;
               s = mask_interrupts K d s;
               (rv, s) = probe_engines K (Some d) s
           in if rv \<noteq> 0 then (False, err_mask K d pdev s) else (True, s))"

definition open_irqs :: "'k denv_scheme \<Rightarrow> nat \<Rightarrow> nat \<Rightarrow> drv \<Rightarrow> (nat \<times> nat \<times> nat \<times> nat) option \<times> drv" where
  "open_irqs K d pdev s =
     (let (rv, s) = enable_msi_msix K (Some d) pdev s
      in if rv < 0 then (None, err_engines K d pdev s)
      else let (rv, s) = irq_setup K d pdev s
      in if rv < 0 then (None, err_msix K d pdev s)
      else let s = (if poll_mode K = 0 then channel_interrupts_enable d (-1) s else s);
               s = snd (read_interrupts K d s);
               counts = (dv_user_max (devs s d), dv_h2c_channel_max (devs s d), dv_c2h_channel_max (devs s d))
           in (Some (d, counts), xdma_device_flag_clear d XDEV_FLAG_OFFLINE s))"

definition xdma_device_open ::
  "'k denv_scheme \<Rightarrow> string \<Rightarrow> nat \<Rightarrow> nat \<Rightarrow> nat \<Rightarrow> nat \<Rightarrow> drv \<Rightarrow> (nat \<times> nat \<times> nat \<times> nat) option \<times> drv" where
  "xdma_device_open K mname pdev user_max h2c_channel_max c2h_channel_max s =
     (let (xdev, s) = open_pci K mname pdev user_max h2c_channel_max c2h_channel_max s
      in case xdev of None \<Rightarrow> (None, s)
      | Some d \<Rightarrow>
        let (ok, s) = open_hw K d pdev s
        in if \<not> ok then (None, s) else open_irqs K d pdev s)"

definition xdma_device_close :: "'k denv_scheme \<Rightarrow> nat \<Rightarrow> nat option \<Rightarrow> drv \<Rightarrow> drv" where
  "xdma_device_close K pdev dev_hndl s =
     (case dev_hndl of None \<Rightarrow> s
      | Some d \<Rightarrow>
        if debug_check_dev_hndl pdev d s < 0 then s
        else let s = mask_interrupts K d s;
                 s = irq_teardown K d s;
                 s = disable_msi_msix d pdev s;
                 s = remove_engines K (Some d) s;
                 s = unmap_bars d pdev s;
                 s = (if dv_got_regions (devs s d) then tell (Release (R_regions pdev)) s else s);
                 s = (if \<not> dv_regions_in_use (devs s d) then tell (Release (R_pci pdev)) s else s);
                 s = xdev_list_remove K d s
             in tell (Release (R_dev d)) s)"

subsection \<open>Taking a device offline and back\<close>

definition stop_engine :: "'k kenv_scheme \<Rightarrow> eng_id \<Rightarrow> drv \<Rightarrow> drv" where
  "stop_engine K e s =
     (if e_magic (engs s e) = MAGIC_ENGINE
      then let s = upd_eng e (\<lambda>g. g\<lparr>e_shutdown := e_shutdown g OR ENGINE_SHUTDOWN_REQUEST\<rparr>) s
           in snd (xdma_engine_stop K (Some e) s)
      else s)"

definition xdma_device_offline :: "'k denv_scheme \<Rightarrow> nat \<Rightarrow> nat option \<Rightarrow> drv \<Rightarrow> drv" where
  "xdma_device_offline K pdev dev_hndl s =
     (case dev_hndl of None \<Rightarrow> s
      | Some d \<Rightarrow>
        if debug_check_dev_hndl pdev d s < 0 then s
        else let s = xdma_device_flag_set d XDEV_FLAG_OFFLINE s;
                 s = fold (\<lambda>i. stop_engine K (d, H2C, i)) [0..<dv_h2c_channel_max (devs s d)] s;
                 s = fold (\<lambda>i. stop_engine K (d, C2H, i)) [0..<dv_c2h_channel_max (devs s d)] s;
                 s = mask_interrupts K d s
             in irq_teardown K d s)"

definition restart_engine :: "'k kenv_scheme \<Rightarrow> eng_id \<Rightarrow> drv \<Rightarrow> drv" where
  "restart_engine K e s =
     (if e_magic (engs s e) = MAGIC_ENGINE
      then let s = snd (engine_init_regs K e s)
           in upd_eng e (\<lambda>g. g\<lparr>e_shutdown := e_shutdown g AND NOT ENGINE_SHUTDOWN_REQUEST\<rparr>) s
      else s)"

definition xdma_device_online :: "'k denv_scheme \<Rightarrow> nat \<Rightarrow> nat option \<Rightarrow> drv \<Rightarrow> drv" where
  "xdma_device_online K pdev dev_hndl s =
     (case dev_hndl of None \<Rightarrow> s
      | Some d \<Rightarrow>
        if debug_check_dev_hndl pdev d s < 0 then s
        else let s = fold (\<lambda>i. restart_engine K (d, H2C, i)) [0..<dv_h2c_channel_max (devs s d)] s;
                 s = fold (\<lambda>i. restart_engine K (d, C2H, i)) [0..<dv_c2h_channel_max (devs s d)] s;
                 s = (if poll_mode K = 0
                      then let s = snd (irq_setup K d pdev s);
                               s = channel_interrupts_enable d (-1) s;
                               s = user_interrupts_enable d (dv_mask_irq_user (devs s d)) s
                           in snd (read_interrupts K d s)
                      else s)
             in xdma_device_flag_clear d XDEV_FLAG_OFFLINE s)"

definition xdma_device_restart :: "nat \<Rightarrow> nat option \<Rightarrow> drv \<Rightarrow> int" where
  "xdma_device_restart pdev dev_hndl s =
     (case dev_hndl of None \<Rightarrow> - EINVAL
      | Some d \<Rightarrow> if debug_check_dev_hndl pdev d s < 0 then - EINVAL else - EINVAL)"

subsection \<open>User interrupts\<close>

fun register_loop :: "nat \<Rightarrow> nat option \<Rightarrow> nat \<Rightarrow> nat list \<Rightarrow> u32 \<Rightarrow> drv \<Rightarrow> drv" where
  "register_loop d handler dev [] msk s = s"
| "register_loop d handler dev (i # is) msk s =
     (if msk = 0 then s
      else if push_bit i 1 AND msk = 0 then register_loop d handler dev is msk s
      else register_loop d handler dev is (msk AND NOT (push_bit i 1))
             (upd_user_irq d i (\<lambda>u. u\<lparr>u_handler := handler, u_dev := dev\<rparr>) s))"

definition xdma_user_isr_register ::
  "nat option \<Rightarrow> u32 \<Rightarrow> nat option \<Rightarrow> nat \<Rightarrow> drv \<Rightarrow> int \<times> drv" where
  "xdma_user_isr_register dev_hndl msk handler dev s =
     (case dev_hndl of None \<Rightarrow> (- EINVAL, s)
      | Some d \<Rightarrow>
        if debug_check_dev_hndl (dv_pdev (devs s d)) d s < 0 then (- EINVAL, s)
        else (0, register_loop d handler dev [0..<dv_user_max (devs s d)] msk s))"

definition xdma_user_isr_enable :: "'k kenv_scheme \<Rightarrow> nat option \<Rightarrow> u32 \<Rightarrow> drv \<Rightarrow> int \<times> drv" where
  "xdma_user_isr_enable K dev_hndl msk s =
     (case dev_hndl of None \<Rightarrow> (- EINVAL, s)
      | Some d \<Rightarrow>
        if debug_check_dev_hndl (dv_pdev (devs s d)) d s < 0 then (- EINVAL, s)
        else let s = upd_dev d (\<lambda>v. v\<lparr>dv_mask_irq_user := dv_mask_irq_user v OR msk\<rparr>) s;
                 s = user_interrupts_enable d msk s
             in (0, snd (read_interrupts K d s)))"

definition xdma_user_isr_disable :: "'k kenv_scheme \<Rightarrow> nat option \<Rightarrow> u32 \<Rightarrow> drv \<Rightarrow> int \<times> drv" where
  "xdma_user_isr_disable K dev_hndl msk s =
     (case dev_hndl of None \<Rightarrow> (- EINVAL, s)
      | Some d \<Rightarrow>
        if debug_check_dev_hndl (dv_pdev (devs s d)) d s < 0 then (- EINVAL, s)
        else let s = upd_dev d (\<lambda>v. v\<lparr>dv_mask_irq_user := dv_mask_irq_user v AND NOT msk\<rparr>) s;
                 s = user_interrupts_disable d msk s
             in (0, snd (read_interrupts K d s)))"

text \<open>\<open>get_user\<close> returns \<open>-EFAULT\<close> when the argument cannot be read.\<close>

definition engine_addrmode_set :: "'k denv_scheme \<Rightarrow> eng_id \<Rightarrow> nat \<Rightarrow> drv \<Rightarrow> int \<times> drv" where
  "engine_addrmode_set K e arg s =
     (let w = XDMA_CTRL_NON_INCR_ADDR;
          (rv, s) = (case get_user K arg of None \<Rightarrow> (- EFAULT, s)
                     | Some dst \<Rightarrow>
                         (0, let s = upd_eng e (\<lambda>g. g\<lparr>e_non_incr_addr := dst \<noteq> 0\<rparr>) s
                             in if e_non_incr_addr (engs s e)
                                then write_register w (e_regs (engs s e) + er_control_w1s) s
                                else write_register w (e_regs (engs s e) + er_control_w1c) s))
      in (rv, engine_alignments K e s))"

end
