(* ===== verification/Xdma_Owner.thy ===== *)
theory Xdma_Owner
  imports Xdma_Device
begin

text \<open>
  Who owns what. A device is torn down in stages, each of which gives back what its part of
  the driver owns; the stages are the same when the device is closed and when opening it
  fails, only the starting point differs. The contract of such a family of owners is a
  locale, interpreted twice: for the engines of a device and for the stages themselves.
\<close>

subsection \<open>Families of owners\<close>

text \<open>
  Each member has resources, and giving them back takes exactly these off the balance. A
  member may be undone before another if that leaves the other's resources alone.
\<close>

locale owners =
  fixes balance :: "'r \<Rightarrow> 's \<Rightarrow> int"
    and valid :: "'i \<Rightarrow> 's \<Rightarrow> bool"
    and owns :: "'i \<Rightarrow> 's \<Rightarrow> 'r list"
    and undo :: "'i \<Rightarrow> 's \<Rightarrow> 's"
    and before :: "'i \<Rightarrow> 'i \<Rightarrow> bool"
  assumes gives_back: "valid i s \<Longrightarrow> balance r (undo i s) = balance r s - int (count_list (owns i s) r)"
    and keeps_valid: "before i j \<Longrightarrow> valid i s \<Longrightarrow> valid j s \<Longrightarrow> valid j (undo i s)"
    and keeps_owns: "before i j \<Longrightarrow> valid i s \<Longrightarrow> owns j (undo i s) = owns j s"
begin

definition all_owned :: "'i list \<Rightarrow> 's \<Rightarrow> 'r list" where
  "all_owned xs s = concat (map (\<lambda>i. owns i s) xs)"

lemma all_owned_simps [simp]:
  "all_owned [] s = []" "all_owned (i # xs) s = owns i s @ all_owned xs s"
  by (simp_all add: all_owned_def)

lemma all_owned_undo:
  assumes "\<forall>j\<in>set xs. before i j" and "valid i s"
  shows "all_owned xs (undo i s) = all_owned xs s"
  unfolding all_owned_def using assms by (intro arg_cong [where f = concat] map_cong refl keeps_owns) auto

lemma undo_all:
  assumes "sorted_wrt before xs" and "\<forall>i\<in>set xs. valid i s"
  shows "balance r (fold undo xs s) = balance r s - int (count_list (all_owned xs s) r)"
  using assms
proof (induction xs arbitrary: s)
  case (Cons i xs)
  then have "\<forall>j\<in>set xs. valid j (undo i s)" using keeps_valid by simp
  from Cons.IH [OF _ this] Cons.prems show ?case
    by (simp add: gives_back all_owned_undo)
qed simp

text \<open>What was acquired is given back.\<close>

lemma undo_restores:
  assumes "sorted_wrt before xs" and "\<forall>i\<in>set xs. valid i s"
    and "balance r s = b + int (count_list (all_owned xs s) r)"
  shows "balance r (fold undo xs s) = b"
  using undo_all [OF assms(1,2)] assms(3) by simp

end

subsection \<open>The engines of a device\<close>

lemma destroy_frame:
  "xdev_list (snd (engine_destroy K (Some d) (Some e) s)) = xdev_list s"
proof -
  obtain s' where "engine_destroy K (Some d) (Some e) s = (0, s')" by (rule destroy_effect)
  then show ?thesis
    by (auto simp: engine_destroy_def Let_def xdma_thread_remove_work_def free_resource_effect
        split: if_splits option.splits)
qed

definition engine_owns :: "eng_id \<Rightarrow> drv \<Rightarrow> resource list" where
  "engine_owns e s = (if e_magic (engs s e) = MAGIC_ENGINE then owned (engs s e) else [])"

lemma remove_engine_effect:
  "held r (remove_engine K d e s) = held r s - int (count_list (engine_owns e s) r)"
  "x \<noteq> e \<Longrightarrow> engs (remove_engine K d e s) x = engs s x"
  "xdev_list (remove_engine K d e s) = xdev_list s"
  "y \<noteq> d \<Longrightarrow> devs (remove_engine K d e s) y = devs s y"
  "\<exists>n. devs (remove_engine K d e s) d = (devs s d)\<lparr>dv_engines_num := n\<rparr>"
proof -
  obtain s' where s': "engine_destroy K (Some d) (Some e) s = (0, s')" "\<forall>r. held r s' = surplus r e s"
      "engs s' = (engs s)(e := zero_engine)"
      "devs s' = (devs s)(d := (devs s d)\<lparr>dv_engines_num := dv_engines_num (devs s d) - 1\<rparr>)"
    by (rule destroy_effect [of K d e s])
  then show "held r (remove_engine K d e s) = held r s - int (count_list (engine_owns e s) r)"
    "x \<noteq> e \<Longrightarrow> engs (remove_engine K d e s) x = engs s x"
    "y \<noteq> d \<Longrightarrow> devs (remove_engine K d e s) y = devs s y" for x
    by (simp_all add: remove_engine_def engine_owns_def surplus_def)
  have "devs (remove_engine K d e s) d = (devs s d)
      \<lparr>dv_engines_num := dv_engines_num (devs s d) - (if e_magic (engs s e) = MAGIC_ENGINE then 1 else 0)\<rparr>"
    using s' by (simp add: remove_engine_def)
  then show "\<exists>n. devs (remove_engine K d e s) d = (devs s d)\<lparr>dv_engines_num := n\<rparr>" by (rule exI)
  show "xdev_list (remove_engine K d e s) = xdev_list s"
    by (simp add: remove_engine_def destroy_frame)
qed

interpretation eng: owners held "\<lambda>e s. True" engine_owns "remove_engine K d" "(\<noteq>)" for K d
  by unfold_locales (simp_all add: remove_engine_effect engine_owns_def)

definition dev_engines :: "drv \<Rightarrow> nat \<Rightarrow> eng_id list" where
  "dev_engines s d = map (\<lambda>i. (d, H2C, i)) [0..<dv_h2c_channel_max (devs s d)] @
     map (\<lambda>i. (d, C2H, i)) [0..<dv_c2h_channel_max (devs s d)]"

lemma dev_engines_distinct: "sorted_wrt (\<noteq>) (dev_engines s d)"
proof -
  have eq: "distinct xs \<Longrightarrow> sorted_wrt (\<noteq>) xs" for xs :: "eng_id list" by (induction xs) auto
  show ?thesis by (rule eq) (auto simp: dev_engines_def distinct_map inj_on_def)
qed

lemma remove_fold_frame:
  "xdev_list (fold (remove_engine K d) es s) = xdev_list s \<and>
   (\<exists>n. devs (fold (remove_engine K d) es s) = (devs s)(d := (devs s d)\<lparr>dv_engines_num := n\<rparr>))"
proof (induction es arbitrary: s)
  case (Cons e es)
  let ?s = "remove_engine K d e s"
  obtain n where n: "devs ?s = (devs s)(d := (devs s d)\<lparr>dv_engines_num := n\<rparr>)"
    using remove_engine_effect(4) [where d = d and K = K and e = e and s = s]
      remove_engine_effect(5) [of K d e s] by (auto simp: fun_eq_iff)
  obtain m where "devs (fold (remove_engine K d) es ?s) = (devs ?s)(d := (devs ?s d)\<lparr>dv_engines_num := m\<rparr>)"
    using Cons.IH [of ?s] by blast
  then have "devs (fold (remove_engine K d) (e # es) s) = (devs s)(d := (devs s d)\<lparr>dv_engines_num := m\<rparr>)"
    by (simp add: n)
  then show ?case using Cons.IH [of ?s] by (auto simp: remove_engine_effect)
next
  case Nil
  show ?case by (intro conjI exI [of _ "dv_engines_num (devs s d)"]) simp_all
qed

lemma remove_engines_fold: "remove_engines K (Some d) s = fold (remove_engine K d) (dev_engines s d) s"
proof -
  let ?s = "fold (remove_engine K d) (map (\<lambda>i. (d, H2C, i)) [0..<dv_h2c_channel_max (devs s d)]) s"
  have "dv_c2h_channel_max (devs ?s d) = dv_c2h_channel_max (devs s d)"
    using remove_fold_frame [of K d "map (\<lambda>i. (d, H2C, i)) [0..<dv_h2c_channel_max (devs s d)]" s] by auto
  then show ?thesis by (simp add: remove_engines_def dev_engines_def fold_map comp_def)
qed

subsection \<open>The stages of a device's teardown\<close>

datatype stage = St_lines | St_msi | St_engines | St_bars | St_regions | St_pci | St_dev

definition stage_owns :: "'k denv_scheme \<Rightarrow> nat \<Rightarrow> nat \<Rightarrow> stage \<Rightarrow> drv \<Rightarrow> resource list" where
  "stage_owns K d pdev st s =
     (let v = devs s d
      in case st of
           St_lines \<Rightarrow> if dv_msix_enabled v then msix_lines K s d
             else if dv_irq_line v \<noteq> -1 then [R_irq (word_of_int (dv_irq_line v)) (Dev_cookie d)] else []
         | St_msi \<Rightarrow> if dv_msix_enabled v then [R_msix pdev] else if dv_msi_enabled v then [R_msi pdev] else []
         | St_engines \<Rightarrow> concat (map (\<lambda>e. engine_owns e s) (dev_engines s d))
         | St_bars \<Rightarrow> windows v
         | St_regions \<Rightarrow> if dv_got_regions v then [R_regions pdev] else []
         | St_pci \<Rightarrow> if \<not> dv_regions_in_use v then [R_pci pdev] else []
         | St_dev \<Rightarrow> [R_dev d])"

definition stage_undo :: "'k denv_scheme \<Rightarrow> nat \<Rightarrow> nat \<Rightarrow> stage \<Rightarrow> drv \<Rightarrow> drv" where
  "stage_undo K d pdev st s =
     (case st of
        St_lines \<Rightarrow> irq_teardown K d s
      | St_msi \<Rightarrow> disable_msi_msix d pdev s
      | St_engines \<Rightarrow> remove_engines K (Some d) s
      | St_bars \<Rightarrow> unmap_bars d pdev s
      | St_regions \<Rightarrow> if dv_got_regions (devs s d) then tell (Release (R_regions pdev)) s else s
      | St_pci \<Rightarrow> if \<not> dv_regions_in_use (devs s d) then tell (Release (R_pci pdev)) s else s
      | St_dev \<Rightarrow> tell (Release (R_dev d)) (xdev_list_remove K d s))"

definition stage_valid :: "'k denv_scheme \<Rightarrow> nat \<Rightarrow> stage \<Rightarrow> drv \<Rightarrow> bool" where
  "stage_valid K d st s =
     (case st of
        St_lines \<Rightarrow> (\<forall>p i. pci_irq_vector K p i \<noteq> 0) \<and> (dv_msix_enabled (devs s d) \<longrightarrow> lines_recorded K s d)
      | St_bars \<Rightarrow> length (dv_bar (devs s d)) = XDMA_BAR_NUM
      | St_dev \<Rightarrow> poll_mode K = 0 \<or> remove1 d (xdev_list s) \<noteq> []
      | _ \<Rightarrow> True)"

primrec stage_rank :: "stage \<Rightarrow> nat" where
  "stage_rank St_lines = 0" | "stage_rank St_msi = 1" | "stage_rank St_engines = 2" | "stage_rank St_bars = 3"
| "stage_rank St_regions = 4" | "stage_rank St_pci = 5" | "stage_rank St_dev = 6"

definition earlier :: "stage \<Rightarrow> stage \<Rightarrow> bool" where
  "earlier i j \<longleftrightarrow> stage_rank i < stage_rank j"

text \<open>What each stage leaves alone.\<close>

lemma teardown_loop_frame: "\<exists>ns. teardown_loop d sd cs s = s\<lparr>notices := ns\<rparr>"
proof (induction cs arbitrary: s)
  case (Cons c cs)
  obtain ns where "teardown_loop d sd cs (free_irq (e_msix_irq_line (engs s (d, sd, c))) (Eng_cookie (d, sd, c)) s) =
      (free_irq (e_msix_irq_line (engs s (d, sd, c))) (Eng_cookie (d, sd, c)) s)\<lparr>notices := ns\<rparr>"
    using Cons.IH by blast
  then show ?case by (cases "e_msix_irq_line (engs s (d, sd, c)) = 0")
      (auto simp: Let_def free_irq_def tell_def intro: exI [of _ "notices s"])
next
  case Nil
  show ?case by (rule exI [of _ "notices s"]) simp
qed

lemma prog_irq_list:
  "xdev_list (prog_irq_msix_channel d c s) = xdev_list s" "xdev_list (prog_irq_msix_user d c s) = xdev_list s"
  unfolding prog_irq_msix_channel_def prog_irq_msix_user_def Let_def
  by (metis prog_loop_frame drv.select_convs(7) drv.surjective drv.update_convs(1))+

lemma irq_teardown_frame:
  "devs (irq_teardown K d s) = devs s" "engs (irq_teardown K d s) = engs s"
  "xdev_list (irq_teardown K d s) = xdev_list s"
proof -
  have loop: "devs (teardown_loop d sd cs s) = devs s" "engs (teardown_loop d sd cs s) = engs s"
    "xdev_list (teardown_loop d sd cs s) = xdev_list s" for sd cs s
    using teardown_loop_frame [of d sd cs s] by auto
  show "devs (irq_teardown K d s) = devs s" "engs (irq_teardown K d s) = engs s"
    "xdev_list (irq_teardown K d s) = xdev_list s"
    by (simp_all add: irq_teardown_def irq_msix_channel_teardown_def irq_msix_user_teardown_def Let_def
        user_free_loop_effect loop prog_irq_frame prog_irq_list free_irq_def)
qed

lemma remove_engines_effect:
  "held r (remove_engines K (Some d) s) =
     held r s - int (count_list (concat (map (\<lambda>e. engine_owns e s) (dev_engines s d))) r)"
  "xdev_list (remove_engines K (Some d) s) = xdev_list s"
  "\<exists>n. devs (remove_engines K (Some d) s) = (devs s)(d := (devs s d)\<lparr>dv_engines_num := n\<rparr>)"
  using eng.undo_all [OF dev_engines_distinct [of s d], where s = s and r = r and K = K and d = d]
    remove_fold_frame [of K d "dev_engines s d" s]
  by (simp_all add: remove_engines_fold eng.all_owned_def)

lemma unmap_frame:
  "engs (unmap_bars d pdev s) = engs s" "xdev_list (unmap_bars d pdev s) = xdev_list s"
  "sans_bars (devs (unmap_bars d pdev s) d) = sans_bars (devs s d)"
  if "length (dv_bar (devs s d)) = XDMA_BAR_NUM"
  using unmap_bars_effect(1) [OF that] by (simp_all add: bars_frame_def)

lemma sans_barsD:
  assumes "sans_bars v = sans_bars w"
  shows "dv_got_regions v = dv_got_regions w" "dv_regions_in_use v = dv_regions_in_use w"
  using arg_cong [OF assms, of dv_got_regions] arg_cong [OF assms, of dv_regions_in_use]
  by (simp_all add: sans_bars_def)

lemma disable_frame:
  "engs (disable_msi_msix d pdev s) = engs s" "xdev_list (disable_msi_msix d pdev s) = xdev_list s"
  "devs (disable_msi_msix d pdev s) = (devs s)(d := (devs s d)\<lparr>dv_msix_enabled := False,
     dv_msi_enabled := dv_msix_enabled (devs s d) \<and> dv_msi_enabled (devs s d)\<rparr>)"
proof -
  define v where "v = devs s d"
  have "(if dv_msix_enabled v then v\<lparr>dv_msix_enabled := False\<rparr>
      else if dv_msi_enabled v then v\<lparr>dv_msi_enabled := False\<rparr> else v) =
      v\<lparr>dv_msix_enabled := False, dv_msi_enabled := dv_msix_enabled v \<and> dv_msi_enabled v\<rparr>"
    by (cases v) simp
  moreover have "devs (disable_msi_msix d pdev s) = (devs s)(d := if dv_msix_enabled v then v\<lparr>dv_msix_enabled := False\<rparr>
      else if dv_msi_enabled v then v\<lparr>dv_msi_enabled := False\<rparr> else v)"
    by (simp add: disable_msi_msix_def v_def)
  ultimately show "devs (disable_msi_msix d pdev s) = (devs s)(d := (devs s d)\<lparr>dv_msix_enabled := False,
     dv_msi_enabled := dv_msix_enabled (devs s d) \<and> dv_msi_enabled (devs s d)\<rparr>)"
    unfolding v_def by (simp only:)
qed (simp_all add: disable_msi_msix_def)

lemma stage_gives_back:
  assumes "stage_valid K d st s"
  shows "held r (stage_undo K d pdev st s) = held r s - int (count_list (stage_owns K d pdev st s) r)"
proof (cases st)
  case St_lines
  then show ?thesis
    using assms msix_teardown_effect(1) [of s d K r]
    by (auto simp: stage_undo_def stage_owns_def stage_valid_def irq_teardown_def free_irq_def)
next
  case St_bars
  then show ?thesis
    using assms unmap_bars_effect(3) [of s d r pdev] by (simp add: stage_undo_def stage_owns_def stage_valid_def beyond_def)
next
  case St_dev
  then show ?thesis
    using assms by (auto simp: stage_undo_def stage_owns_def stage_valid_def xdev_list_remove_def)
qed (simp_all add: stage_undo_def stage_owns_def disable_msi_msix_def remove_engines_effect(1))

lemma stage_keeps:
  assumes "earlier i j" and "stage_valid K d i s"
  shows "stage_valid K d j s \<Longrightarrow> stage_valid K d j (stage_undo K d pdev i s)"
    and "stage_owns K d pdev j (stage_undo K d pdev i s) = stage_owns K d pdev j s"
proof -
  obtain n where n: "devs (remove_engines K (Some d) s) = (devs s)(d := (devs s d)\<lparr>dv_engines_num := n\<rparr>)"
    using remove_engines_effect(3) by blast
  have same: "engine_owns e (irq_teardown K d s) = engine_owns e s"
    "engine_owns e (disable_msi_msix d pdev s) = engine_owns e s" for e
    by (simp_all add: engine_owns_def irq_teardown_frame disable_frame)
  note frames = irq_teardown_frame disable_frame n remove_engines_effect(2) same
  note defs = stage_undo_def stage_owns_def stage_valid_def earlier_def dev_engines_def windows_def
  show "stage_valid K d j s \<Longrightarrow> stage_valid K d j (stage_undo K d pdev i s)"
    using assms unmap_frame [of s d pdev] by (cases i; cases j) (simp_all add: defs frames)
  show "stage_owns K d pdev j (stage_undo K d pdev i s) = stage_owns K d pdev j s"
    using assms unmap_frame [of s d pdev] sans_barsD [of "devs (unmap_bars d pdev s) d" "devs s d"]
    by (cases i; cases j) (simp_all add: defs frames)
qed

interpretation st: owners held "stage_valid K d" "stage_owns K d pdev" "stage_undo K d pdev" earlier for K d pdev
  by unfold_locales (simp_all add: stage_gives_back stage_keeps)

text \<open>The error labels of \<open>xdma_device_open\<close> and \<open>xdma_device_close\<close> as runs of stages.\<close>

lemma labels_are_stages:
  "err_enable K d s = fold (stage_undo K d pdev) [St_dev] s"
  "err_regions K d pdev s = fold (stage_undo K d pdev) [St_pci, St_dev] s"
  "err_map K d pdev s = fold (stage_undo K d pdev) [St_regions, St_pci, St_dev] s"
  "err_mask K d pdev s = fold (stage_undo K d pdev) [St_bars, St_regions, St_pci, St_dev] s"
  "err_engines K d pdev s = fold (stage_undo K d pdev) [St_engines, St_bars, St_regions, St_pci, St_dev] s"
  "err_msix K d pdev s = fold (stage_undo K d pdev) [St_msi, St_engines, St_bars, St_regions, St_pci, St_dev] s"
  by (simp_all add: err_enable_def err_regions_def err_map_def err_mask_def err_engines_def err_msix_def
      free_xdev_def stage_undo_def)

lemma close_is_stages:
  "\<not> debug_check_dev_hndl pdev d s < 0 \<Longrightarrow> xdma_device_close K pdev (Some d) s =
     fold (stage_undo K d pdev) [St_lines, St_msi, St_engines, St_bars, St_regions, St_pci, St_dev] (mask_interrupts K d s)"
  by (simp add: xdma_device_close_def stage_undo_def Let_def)

end
