(* ===== verification/Xdma_Open.thy ===== *)
theory Xdma_Open
  imports Xdma_Owner
begin

text \<open>
  Opening a device: every step acquires what its stage owns, so that at each error label
  the stages still to be undone account for everything acquired so far.
\<close>

subsection \<open>Accounts\<close>

definition accounted ::
  "'k denv_scheme \<Rightarrow> nat \<Rightarrow> nat \<Rightarrow> resource \<Rightarrow> int \<Rightarrow> stage list \<Rightarrow> drv \<Rightarrow> bool" where
  "accounted K d pdev r b sts s \<longleftrightarrow> (\<forall>st\<in>set sts. stage_valid K d st s) \<and>
     held r s = b + int (count_list (concat (map (\<lambda>st. stage_owns K d pdev st s) sts)) r)"

lemma accounted_undone:
  "accounted K d pdev r b sts s \<Longrightarrow> sorted_wrt earlier sts \<Longrightarrow> held r (fold (stage_undo K d pdev) sts s) = b"
  using st.undo_restores [where xs = sts and s = s and K = K and d = d and pdev = pdev and r = r and b = b]
  by (simp add: accounted_def st.all_owned_def)

lemma label_restores:
  "accounted K d pdev r b [St_dev] s \<Longrightarrow> held r (err_enable K d s) = b"
  "accounted K d pdev r b [St_pci, St_dev] s \<Longrightarrow> held r (err_regions K d pdev s) = b"
  "accounted K d pdev r b [St_regions, St_pci, St_dev] s \<Longrightarrow> held r (err_map K d pdev s) = b"
  "accounted K d pdev r b [St_bars, St_regions, St_pci, St_dev] s \<Longrightarrow> held r (err_mask K d pdev s) = b"
  "accounted K d pdev r b [St_engines, St_bars, St_regions, St_pci, St_dev] s \<Longrightarrow> held r (err_engines K d pdev s) = b"
  "accounted K d pdev r b [St_msi, St_engines, St_bars, St_regions, St_pci, St_dev] s \<Longrightarrow> held r (err_msix K d pdev s) = b"
  unfolding labels_are_stages [where pdev = pdev]
  by (erule accounted_undone; simp add: earlier_def)+

lemma accounted_cong:
  assumes "accounted K d pdev r b sts s" and "held r s' = held r s"
    and "\<And>st. st \<in> set sts \<Longrightarrow> stage_owns K d pdev st s' = stage_owns K d pdev st s \<and>
           (stage_valid K d st s \<longrightarrow> stage_valid K d st s')"
  shows "accounted K d pdev r b sts s'"
proof -
  have "map (\<lambda>st. stage_owns K d pdev st s') sts = map (\<lambda>st. stage_owns K d pdev st s) sts"
    using assms(3) by simp
  then show ?thesis using assms by (simp add: accounted_def del: map_eq_conv)
qed

lemma accounted_Cons:
  assumes "accounted K d pdev r b sts s" and "stage_valid K d st s'"
    and "held r s' = held r s + int (count_list (stage_owns K d pdev st s') r)"
    and "\<And>x. x \<in> set sts \<Longrightarrow> stage_owns K d pdev x s' = stage_owns K d pdev x s \<and>
           (stage_valid K d x s \<longrightarrow> stage_valid K d x s')"
  shows "accounted K d pdev r b (st # sts) s'"
proof -
  have "map (\<lambda>x. stage_owns K d pdev x s') sts = map (\<lambda>x. stage_owns K d pdev x s) sts"
    using assms(4) by simp
  then show ?thesis using assms by (simp add: accounted_def del: map_eq_conv)
qed

subsection \<open>Interrupts\<close>

text \<open>Setting up interrupts changes the engines only in the line they record.\<close>

definition sans_line :: "xdma_engine \<Rightarrow> xdma_engine" where
  "sans_line g = g\<lparr>e_msix_irq_line := 0\<rparr>"

lemma sans_lineD:
  assumes "sans_line g = sans_line h"
  shows "e_magic g = e_magic h" "owned g = owned h" "e_irq_bitmask g = e_irq_bitmask h" "e_xdev g = e_xdev h"
    "e_dir g = e_dir h" "engine_ready g = engine_ready h" "e_running g = e_running h"
    "e_transfer_list g = e_transfer_list h" "e_shutdown g = e_shutdown h"
proof -
  have *: "e_magic (sans_line g) = e_magic g" "owned (sans_line g) = owned g"
    "e_irq_bitmask (sans_line g) = e_irq_bitmask g" "e_xdev (sans_line g) = e_xdev g" "e_dir (sans_line g) = e_dir g"
    "engine_ready (sans_line g) = engine_ready g" "e_running (sans_line g) = e_running g"
    "e_transfer_list (sans_line g) = e_transfer_list g" "e_shutdown (sans_line g) = e_shutdown g" for g
    by (simp_all add: sans_line_def owned_def engine_ready_def split: option.split)
  show "e_magic g = e_magic h" "owned g = owned h" "e_irq_bitmask g = e_irq_bitmask h" "e_xdev g = e_xdev h"
    "e_dir g = e_dir h" "engine_ready g = engine_ready h" "e_running g = e_running h"
    "e_transfer_list g = e_transfer_list h" "e_shutdown g = e_shutdown h"
    using assms by (metis *)+
qed

definition channel_line :: "resource \<Rightarrow> bool" where
  "channel_line r \<longleftrightarrow> (\<exists>l e. r = R_irq l (Eng_cookie e))"

lemma setup_loop_frame:
  fixes K d sd j cs s
  defines "s' \<equiv> snd (setup_loop K d sd j cs s)"
  shows "sans_line (engs s' e) = sans_line (engs s e)" "xdev_list s' = xdev_list s" "devs s' = devs s"
    "\<not> channel_line r \<Longrightarrow> held r s' = held r s"
proof -
  have "sans_line (engs s' e) = sans_line (engs s e) \<and> xdev_list s' = xdev_list s \<and> devs s' = devs s \<and>
      (\<not> channel_line r \<longrightarrow> held r s' = held r s)"
    unfolding s'_def
    by (induction cs arbitrary: s) (auto simp: Let_def ask_irq_def sans_line_def channel_line_def)
  then show "sans_line (engs s' e) = sans_line (engs s e)" "xdev_list s' = xdev_list s" "devs s' = devs s"
    "\<not> channel_line r \<Longrightarrow> held r s' = held r s"
    by simp_all
qed

lemma user_setup_frame:
  fixes K d s
  defines "s' \<equiv> snd (irq_msix_user_setup K d s)"
  shows "engs s' = engs s" "xdev_list s' = xdev_list s" "devs s' = devs s"
    "fst (irq_msix_user_setup K d s) \<noteq> 0 \<Longrightarrow> held r s' = held r s"
proof -
  define j where "j = dv_h2c_channel_max (devs s d) + dv_c2h_channel_max (devs s d)"
  obtain rv n s1 where loop: "user_setup_loop K d j [0..<dv_user_max (devs s d)] s = (rv, n, s1)"
    by (metis surj_pair)
  note e = user_setup_loop_effect [OF loop]
  have n: "take n [0..<dv_user_max (devs s d)] = [0..<n]" using e by (simp add: take_upt)
  have r: "irq_msix_user_setup K d s = (rv, if rv \<noteq> 0 then user_free_loop K d j (rev [0..<n]) s1 else s1)"
    using loop by (simp add: irq_msix_user_setup_def Let_def j_def)
  show "engs s' = engs s" "xdev_list s' = xdev_list s" "devs s' = devs s"
    using e by (simp_all add: s'_def r user_free_loop_effect)
  show "held r s' = held r s" if "fst (irq_msix_user_setup K d s) \<noteq> 0"
  proof -
    have "count_list (user_lines K s d j (rev [0..<n])) r = count_list (user_lines K s d j [0..<n]) r"
      by (simp add: user_lines_def rev_map [symmetric])
    moreover have "user_lines K s1 d j (rev [0..<n]) = user_lines K s d j (rev [0..<n])"
      using e by (simp add: user_lines_def)
    ultimately show ?thesis using that e n
      by (simp add: s'_def r user_free_loop_effect held_def count_map_acquire count_map_release)
  qed
qed

lemma irq_setup_frame:
  fixes K d pdev s
  defines "s' \<equiv> snd (irq_setup K d pdev s)"
  shows "sans_line (engs s' e) = sans_line (engs s e)" "xdev_list s' = xdev_list s"
    "\<exists>l. devs s' = (devs s)(d := (devs s d)\<lparr>dv_irq_line := l\<rparr>)"
    "fst (irq_setup K d pdev s) \<noteq> 0 \<Longrightarrow> \<not> channel_line r \<Longrightarrow> held r s' = held r s"
proof -
  define s0 where "s0 = pci_keep_intx_enabled K pdev s"
  have s0: "devs s0 = devs s" "engs s0 = engs s" "xdev_list s0 = xdev_list s" "held r s0 = held r s" for r
    by (simp_all add: s0_def keep_intx_held) (simp add: pci_keep_intx_enabled_def Let_def)
  have self: "devs s = (devs s)(d := (devs s d)\<lparr>dv_irq_line := dv_irq_line (devs s d)\<rparr>)" by simp
  have all: "sans_line (engs s' e) = sans_line (engs s e) \<and> xdev_list s' = xdev_list s \<and>
      (\<exists>l. devs s' = (devs s)(d := (devs s d)\<lparr>dv_irq_line := l\<rparr>)) \<and>
      (fst (irq_setup K d pdev s) \<noteq> 0 \<longrightarrow> \<not> channel_line r \<longrightarrow> held r s' = held r s)"
  proof (cases "dv_msix_enabled (devs s d)")
    case True
    define s1 where "s1 = snd (setup_loop K d H2C 0 [0..<dv_h2c_channel_max (devs s d)] s0)"
    define s2 where "s2 = snd (setup_loop K d C2H (dv_h2c_channel_max (devs s d)) [0..<dv_c2h_channel_max (devs s d)] s1)"
    define s3 where "s3 = snd (irq_msix_user_setup K d s2)"
    note f1 = setup_loop_frame [where s = s0 and K = K and d = d and sd = H2C and j = 0
        and cs = "[0..<dv_h2c_channel_max (devs s d)]", folded s1_def]
    note f2 = setup_loop_frame [where s = s1 and K = K and d = d and sd = C2H and j = "dv_h2c_channel_max (devs s d)"
        and cs = "[0..<dv_c2h_channel_max (devs s d)]", folded s2_def]
    note f3 = user_setup_frame [where s = s2 and K = K and d = d, folded s3_def]
    let ?fin = "prog_irq_msix_user d False (prog_irq_msix_channel d False s3)"
    have cases: "s' = s1 \<or> s' = s2 \<or> s' = s3 \<and> fst (irq_msix_user_setup K d s2) \<noteq> 0 \<or>
        s' = ?fin \<and> fst (irq_setup K d pdev s) = 0"
      using True s0(1) f1(3) unfolding s'_def irq_setup_def Let_def s0_def [symmetric] irq_msix_channel_setup_def
      by (auto simp: case_prod_unfold s1_def [symmetric] s2_def [symmetric] s3_def [symmetric])
    have "\<exists>l. devs s' = (devs s)(d := (devs s d)\<lparr>dv_irq_line := l\<rparr>)"
      using cases f1(3) f2(3) f3(3) s0(1)
      by (intro exI [of _ "dv_irq_line (devs s d)"]) (auto simp: prog_irq_frame)
    moreover have "sans_line (engs s' e) = sans_line (engs s e)" "xdev_list s' = xdev_list s"
      using cases f1(1) [of e] f1(2) f2(1) [of e] f2(2) f3(1,2) s0(2,3) by (auto simp: prog_irq_frame prog_irq_list)
    ultimately show ?thesis using cases f1(4) f2(4) f3(4) s0(4) by auto
  next
    case False
    show ?thesis
    proof (cases "dv_msi_enabled (devs s d)")
      case True
      then show ?thesis using False s0
        by (auto simp: s'_def irq_setup_def s0_def [symmetric] irq_msi_setup_def ask_irq_def Let_def)
    next
      case leg: False
      show ?thesis
      proof (cases "pci_read_config_byte K pdev PCI_INTERRUPT_PIN = 0")
        case True
        then show ?thesis using False leg s0 self
          by (auto simp: s'_def irq_setup_def s0_def [symmetric] irq_legacy_setup_def intro: exI [of _ "dv_irq_line (devs s d)"])
      next
        case pin: False
        then show ?thesis using False leg s0
          by (auto simp: s'_def irq_setup_def s0_def [symmetric] irq_legacy_setup_def ask_irq_def Let_def)
      qed
    qed
  qed
  then show "sans_line (engs s' e) = sans_line (engs s e)" "xdev_list s' = xdev_list s"
    "\<exists>l. devs s' = (devs s)(d := (devs s d)\<lparr>dv_irq_line := l\<rparr>)"
    "fst (irq_setup K d pdev s) \<noteq> 0 \<Longrightarrow> \<not> channel_line r \<Longrightarrow> held r s' = held r s"
    by simp_all
qed

subsection \<open>Engines\<close>

text \<open>An engine as probing leaves it, with interrupt bit \<open>n\<close>.\<close>

definition engine_up :: "nat \<Rightarrow> side \<Rightarrow> int \<Rightarrow> xdma_engine \<Rightarrow> bool" where
  "engine_up d sd n g \<longleftrightarrow> e_magic g = MAGIC_ENGINE \<and> e_xdev g = Some d \<and> e_dir g = side_dir sd \<and>
     engine_ready g \<and> \<not> e_running g \<and> e_transfer_list g = [] \<and> e_shutdown g = 0 \<and> e_irq_bitmask g = irq_bit n"

definition dev_mask :: "side \<Rightarrow> xdma_dev \<Rightarrow> u32" where
  "dev_mask sd v = (if sd = H2C then dv_mask_irq_h2c v else dv_mask_irq_c2h v)"

text \<open>What announcing an engine leaves alone in the device.\<close>

definition sans_irq :: "xdma_dev \<Rightarrow> xdma_dev" where
  "sans_irq v = v\<lparr>dv_mask_irq_h2c := 0, dv_mask_irq_c2h := 0, dv_engines_num := 0\<rparr>"

definition announced :: "side \<Rightarrow> xdma_dev \<Rightarrow> xdma_dev \<Rightarrow> bool" where
  "announced sd v w \<longleftrightarrow> sans_irq w = sans_irq v \<and> dv_engines_num w = dv_engines_num v + 1 \<and>
     (\<forall>x. dev_mask x w = (if x = sd then dev_mask x v OR irq_bit (dv_engines_num v) else dev_mask x v))"

lemma fill_announced:
  "announced sd (devs s d) (devs (engine_fill K e d off (side_dir sd) ch s) d)"
proof -
  have "x = H2C \<or> x = C2H" for x by (cases x) simp_all
  then show ?thesis by (cases sd) (auto simp: announced_def fill_device sans_irq_def dev_mask_def side_dir_def)
qed

lemma init_engine_up:
  assumes "engs s e = zero_engine" and "engine_init K e d off (side_dir sd) ch s = (0, s')"
  shows "engine_up d sd (dv_engines_num (devs s d)) (engs s' e)"
proof -
  define f where "f = engs (engine_fill K e d off (side_dir sd) ch s) e"
  obtain g s2 a l b where eff: "bare g = bare f" "equipped K g" "engs s2 = (engs s)(e := regs_done K a l b g)"
      "s' = (if poll_mode K \<noteq> 0 then xdma_thread_add_work e s2 else s2)"
    using engine_init_effect [OF _ assms(2)] assms(1) by (auto simp: f_def)
  note bf = bare_eqD [OF eff(1)] fill_engine [where K = K and e = e and d = d and off = off and dir = "side_dir sd"
      and ch = ch and s = s, folded f_def]
  have zero: "e_desc_idx zero_engine = 0" "\<not> e_running zero_engine" "e_transfer_list zero_engine = []"
    "e_shutdown zero_engine = 0" by (simp_all add: zero_engine_def)
  have "engine_ready g" using eff(2) bf zero assms(1)
    by (auto simp: engine_ready_def equipped_def XDMA_ENGINE_CREDIT_XFER_MAX_DESC_def XDMA_ENGINE_XFER_MAX_DESC_def)
  then have up: "engine_up d sd (dv_engines_num (devs s d)) (regs_done K a l b g)"
    using bf zero assms(1) by (cases "e_desc g") (simp_all add: engine_up_def engine_ready_def)
  have "engine_up d sd n (g\<lparr>e_intr_work_cpu := i, e_cmplthp := c\<rparr>) = engine_up d sd n g" for n g i c
    by (simp add: engine_up_def engine_ready_def split: option.split)
  then show ?thesis using up by (simp add: eff(3,4) add_work_engs)
qed

lemma probe_for_engine_effect:
  assumes "probe_for_engine K d sd i s = (rv, s')" and "engs s (d, sd, i) = zero_engine"
  shows "\<forall>x. x \<noteq> (d, sd, i) \<longrightarrow> engs s' x = engs s x" and "xdev_list s' = xdev_list s"
    and "\<forall>y. y \<noteq> d \<longrightarrow> devs s' y = devs s y"
    and "held r s' = held r s + int (count_list (if rv = 0 then owned (engs s' (d, sd, i)) else []) r)"
    and "announced sd (devs s d) (devs s' d) \<or> rv \<noteq> 0 \<and> devs s' d = devs s d"
    and "rv = 0 \<Longrightarrow> engine_up d sd (dv_engines_num (devs s d)) (engs s' (d, sd, i))"
proof -
  define off where "off = i * CHANNEL_SPACING + (if sd = H2C then 0 else H2C_CHANNEL_OFFSET)"
  define s1 where "s1 = snd (get_engine_id K (config_base s d + off) s)"
  define s2 where "s2 = snd (get_engine_channel_id K (config_base s d + off) s1)"
  have s2: "engs s2 = engs s" "devs s2 = devs s" "xdev_list s2 = xdev_list s" "notices s2 = notices s"
    by (simp_all add: s2_def s1_def get_engine_id_def get_engine_channel_id_def case_prod_unfold)
  have held2: "held r s2 = held r s" by (rule held_notices [OF s2(4)])
  have zero: "owned (engs s2 (d, sd, i)) = []" using assms(2) s2(1) by simp
  consider "rv = - EINVAL" "s' = s2" | "engine_init K (d, sd, i) d off (side_dir sd) i s2 = (rv, s')"
    using assms(1) by (auto simp: probe_for_engine_def Let_def off_def [symmetric] case_prod_unfold
        s1_def [symmetric] s2_def [symmetric] prod_eq_iff split: if_splits)
  note cs = this
  have init: "\<forall>x. x \<noteq> (d, sd, i) \<longrightarrow> engs s' x = engs s x" "xdev_list s' = xdev_list s"
      "\<forall>y. y \<noteq> d \<longrightarrow> devs s' y = devs s y"
      "held r s' = held r s + int (count_list (if rv = 0 then owned (engs s' (d, sd, i)) else []) r)"
      "announced sd (devs s d) (devs s' d)"
    if "engine_init K (d, sd, i) d off (side_dir sd) i s2 = (rv, s')"
  proof -
    note e = engine_init_effect [OF zero that]
    show "\<forall>x. x \<noteq> (d, sd, i) \<longrightarrow> engs s' x = engs s x" "xdev_list s' = xdev_list s"
      using e s2 by (simp_all del: split_paired_All)
    have "devs s' = devs (engine_fill K (d, sd, i) d off (side_dir sd) i s2)" using e by blast
    then show "\<forall>y. y \<noteq> d \<longrightarrow> devs s' y = devs s y" "announced sd (devs s d) (devs s' d)"
      using fill_announced [of sd s2 d K "(d, sd, i)" off i] by (simp_all add: fill_device s2(2))
    have "surplus r (d, sd, i) s' = surplus r (d, sd, i) s2" "rv = 0 \<or> owned (engs s' (d, sd, i)) = []"
      using e by blast+
    then show "held r s' = held r s + int (count_list (if rv = 0 then owned (engs s' (d, sd, i)) else []) r)"
      using zero held2 by (auto simp: surplus_def)
  qed
  show "\<forall>x. x \<noteq> (d, sd, i) \<longrightarrow> engs s' x = engs s x" "xdev_list s' = xdev_list s"
    "\<forall>y. y \<noteq> d \<longrightarrow> devs s' y = devs s y"
    using cs init(1-3) s2 by (cases; simp del: split_paired_All)+
  show "held r s' = held r s + int (count_list (if rv = 0 then owned (engs s' (d, sd, i)) else []) r)"
    using cs init(4) held2 by cases (simp_all add: EINVAL_def)
  show "announced sd (devs s d) (devs s' d) \<or> rv \<noteq> 0 \<and> devs s' d = devs s d"
    using cs init(5) s2 by cases (simp_all add: EINVAL_def)
  show "engine_up d sd (dv_engines_num (devs s d)) (engs s' (d, sd, i))" if "rv = 0"
    using cs init_engine_up [of s2 "(d, sd, i)" K d off sd i s'] assms(2) s2 that by cases (simp_all add: EINVAL_def)
qed

lemma mask_absorb: "(m OR irq_bit n) AND irq_bit n = irq_bit n" "m AND irq_bit n = irq_bit n \<Longrightarrow> (m OR w) AND irq_bit n = irq_bit n"
  by (rule bit_eqI; auto simp: bit_simps dest: arg_cong [where f = "\<lambda>w. bit w _"])+

text \<open>
  The loop brings up channels until one is missing or fails. A failed engine may have been
  announced, so the count of engines can be one more than the channels.
\<close>

definition probe_ok :: "nat \<Rightarrow> side \<Rightarrow> int \<Rightarrow> resource \<Rightarrow> nat \<Rightarrow> drv \<Rightarrow> nat \<Rightarrow> drv \<Rightarrow> bool" where
  "probe_ok d sd b r k s i s' \<longleftrightarrow>
    (\<forall>j. k \<le> j \<and> j < i \<longrightarrow> engine_up d sd (b + int j) (engs s' (d, sd, j)) \<and>
       dev_mask sd (devs s' d) AND irq_bit (b + int j) = irq_bit (b + int j)) \<and>
    (\<forall>x. (\<forall>j\<ge>k. x \<noteq> (d, sd, j)) \<longrightarrow> engs s' x = engs s x) \<and>
    held r s' = held r s + int (count_list (concat (map (\<lambda>j. owned (engs s' (d, sd, j))) [k..<i])) r) \<and>
    xdev_list s' = xdev_list s \<and> (\<forall>y. y \<noteq> d \<longrightarrow> devs s' y = devs s y) \<and>
    sans_irq (devs s' d) = sans_irq (devs s d) \<and>
    b + int i \<le> dv_engines_num (devs s' d) \<and> dv_engines_num (devs s' d) \<le> b + int i + 1 \<and>
    (\<forall>x. x \<noteq> sd \<longrightarrow> dev_mask x (devs s' d) = dev_mask x (devs s d)) \<and>
    (\<forall>m. dev_mask sd (devs s d) AND irq_bit m = irq_bit m \<longrightarrow> dev_mask sd (devs s' d) AND irq_bit m = irq_bit m)"

lemma probe_loop_effect:
  assumes "probe_loop K d sd [k..<n] n s = (i, s')" and "k \<le> n" and "\<forall>j\<ge>k. engs s (d, sd, j) = zero_engine"
    and "dv_engines_num (devs s d) = b + int k"
  shows "k \<le> i \<and> i \<le> n \<and> probe_ok d sd b r k s i s'"
  using assms
proof (induction "n - k" arbitrary: k s)
  case 0
  then show ?case by (auto simp: probe_ok_def)
next
  case (Suc m)
  then have ks: "[k..<n] = k # [Suc k..<n]" by (simp add: upt_conv_Cons)
  obtain rv s1 where p: "probe_for_engine K d sd k s = (rv, s1)" by fastforce
  have zero: "engs s (d, sd, k) = zero_engine" using Suc.prems(3) by simp
  note e = probe_for_engine_effect [OF p zero]
  show ?case
  proof (cases "rv = 0")
    case False
    then have "i = k" "s' = s1" using Suc.prems(1) p by (simp_all add: ks)
    moreover have "engs s1 x = engs s x" if "\<forall>j\<ge>k. x \<noteq> (d, sd, j)" for x
      using e(1) that by blast
    moreover have "sans_irq (devs s1 d) = sans_irq (devs s d) \<and> b + int k \<le> dv_engines_num (devs s1 d) \<and>
        dv_engines_num (devs s1 d) \<le> b + int k + 1 \<and> (\<forall>x. x \<noteq> sd \<longrightarrow> dev_mask x (devs s1 d) = dev_mask x (devs s d)) \<and>
        (\<forall>m. dev_mask sd (devs s d) AND irq_bit m = irq_bit m \<longrightarrow> dev_mask sd (devs s1 d) AND irq_bit m = irq_bit m)"
      using e(5) Suc.prems(4) by (auto simp: announced_def mask_absorb)
    ultimately show ?thesis using e(2,3) e(4) [of r] False Suc.prems(2) by (auto simp: probe_ok_def)
  next
    case True
    have an: "announced sd (devs s d) (devs s1 d)" using e(5) True by simp
    have loop: "probe_loop K d sd [Suc k..<n] n s1 = (i, s')" using Suc.prems(1) p True by (simp add: ks)
    have rest: "\<forall>j\<ge>Suc k. engs s1 (d, sd, j) = zero_engine" using Suc.prems(3) e(1) by simp
    have "m = n - Suc k" "Suc k \<le> n" using Suc.hyps(2) by simp_all
    moreover have "dv_engines_num (devs s1 d) = b + int (Suc k)" using an Suc.prems(4) by (simp add: announced_def)
    ultimately have range: "Suc k \<le> i" "i \<le> n" and "probe_ok d sd b r (Suc k) s1 i s'"
      using Suc.hyps(1) [OF _ loop _ rest] by blast+
    note IH = this(3) [unfolded probe_ok_def]
    have ek: "engs s' (d, sd, k) = engs s1 (d, sd, k)" using IH by simp
    have up: "engine_up d sd (b + int k) (engs s' (d, sd, k))" using e(6) [OF True] ek Suc.prems(4) by simp
    have "dev_mask sd (devs s1 d) AND irq_bit (b + int k) = irq_bit (b + int k)"
      using an Suc.prems(4) by (simp add: announced_def mask_absorb)
    then have bk: "dev_mask sd (devs s' d) AND irq_bit (b + int k) = irq_bit (b + int k)" using IH by blast
    have all: "engine_up d sd (b + int j) (engs s' (d, sd, j)) \<and>
        dev_mask sd (devs s' d) AND irq_bit (b + int j) = irq_bit (b + int j)" if "k \<le> j" "j < i" for j
      using IH up bk that by (cases "j = k") simp_all
    have others: "engs s' x = engs s x" if "\<forall>j\<ge>k. x \<noteq> (d, sd, j)" for x
    proof -
      have "engs s' x = engs s1 x" using IH that by (meson Suc_leD)
      then show ?thesis using e(1) that by simp
    qed
    have "[k..<i] = k # [Suc k..<i]" using range by (simp add: upt_conv_Cons)
    then have held: "held r s' = held r s + int (count_list (concat (map (\<lambda>j. owned (engs s' (d, sd, j))) [k..<i])) r)"
      using IH e(4) [of r] True ek by simp
    have masks: "\<forall>x. x \<noteq> sd \<longrightarrow> dev_mask x (devs s' d) = dev_mask x (devs s d)"
        "dev_mask sd (devs s d) AND irq_bit m = irq_bit m \<Longrightarrow> dev_mask sd (devs s' d) AND irq_bit m = irq_bit m" for m
      using IH an by (simp_all add: announced_def mask_absorb)
    have sans: "sans_irq (devs s' d) = sans_irq (devs s d)" using IH an by (simp add: announced_def)
    show ?thesis using IH range e(2,3) all others held masks sans by (auto simp: probe_ok_def)
  qed
qed

text \<open>
  The engines of a device are up: the H2C channels have the interrupt bits from 0 on, the C2H
  channels bits after those, and the device's masks contain them.
\<close>

definition device_up :: "nat \<Rightarrow> drv \<Rightarrow> bool" where
  "device_up d s \<longleftrightarrow> (\<exists>b. int (dv_h2c_channel_max (devs s d)) \<le> b \<and> b \<le> int (dv_h2c_channel_max (devs s d)) + 1 \<and>
     (\<forall>j<dv_h2c_channel_max (devs s d). engine_up d H2C (int j) (engs s (d, H2C, j)) \<and>
        dev_mask H2C (devs s d) AND irq_bit (int j) = irq_bit (int j)) \<and>
     (\<forall>j<dv_c2h_channel_max (devs s d). engine_up d C2H (b + int j) (engs s (d, C2H, j)) \<and>
        dev_mask C2H (devs s d) AND irq_bit (b + int j) = irq_bit (b + int j)))"

definition sans_probe :: "xdma_dev \<Rightarrow> xdma_dev" where
  "sans_probe v = (sans_irq v)\<lparr>dv_h2c_channel_max := 0, dv_c2h_channel_max := 0\<rparr>"

lemma probe_engines_effect:
  assumes "\<forall>e. fst e = d \<longrightarrow> engs s e = zero_engine" and "dv_engines_num (devs s d) = 0"
  shows "\<exists>s'. probe_engines K (Some d) s = (0, s') \<and> device_up d s' \<and>
    dv_h2c_channel_max (devs s' d) \<le> dv_h2c_channel_max (devs s d) \<and>
    dv_c2h_channel_max (devs s' d) \<le> dv_c2h_channel_max (devs s d) \<and>
    held r s' = held r s + int (count_list (concat (map (\<lambda>e. engine_owns e s') (dev_engines s' d))) r) \<and>
    xdev_list s' = xdev_list s \<and> (\<forall>y. y \<noteq> d \<longrightarrow> devs s' y = devs s y) \<and>
    sans_probe (devs s' d) = sans_probe (devs s d)"
proof -
  let ?h = "dv_h2c_channel_max (devs s d)" and ?c = "dv_c2h_channel_max (devs s d)"
  obtain h s1 where p1: "probe_loop K d H2C [0..<?h] ?h s = (h, s1)" by fastforce
  define s2 where "s2 = upd_dev d (\<lambda>v. v\<lparr>dv_h2c_channel_max := h\<rparr>) s1"
  obtain c s3 where p2: "probe_loop K d C2H [0..<?c] ?c s2 = (c, s3)" by fastforce
  define s' where "s' = upd_dev d (\<lambda>v. v\<lparr>dv_c2h_channel_max := c\<rparr>) s3"
  have h: "h \<le> ?h" and "probe_ok d H2C 0 r 0 s h s1"
    using probe_loop_effect [OF p1, of 0 r] assms by auto
  note e1 = this(2) [unfolded probe_ok_def]
  have max1: "dv_c2h_channel_max (devs s1 d) = ?c"
  proof -
    have "dv_c2h_channel_max (sans_irq v) = dv_c2h_channel_max v" for v by (simp add: sans_irq_def)
    then show ?thesis using e1 by metis
  qed
  have zero: "\<forall>j\<ge>0. engs s2 (d, C2H, j) = zero_engine" using e1 assms(1) by (simp add: s2_def)
  have num2: "dv_engines_num (devs s2 d) = dv_engines_num (devs s1 d) + int 0" by (simp add: s2_def)
  have c: "c \<le> ?c" and "probe_ok d C2H (dv_engines_num (devs s1 d)) r 0 s2 c s3"
    using probe_loop_effect [OF p2 _ zero num2, of r] by auto
  note e2 = this(2) [unfolded probe_ok_def]
  have run: "probe_engines K (Some d) s = (0, s')"
    using p1 p2 max1 by (simp add: probe_engines_def Let_def s2_def s'_def)
  have sans2: "sans_irq (devs s3 d) = sans_irq ((devs s1 d)\<lparr>dv_h2c_channel_max := h\<rparr>)" using e2 by (simp add: s2_def)
  have maxs: "dv_h2c_channel_max (devs s' d) = h" "dv_c2h_channel_max (devs s' d) = c"
    using arg_cong [OF sans2, of dv_h2c_channel_max] by (simp_all add: s'_def sans_irq_def)
  have H: "engs s3 (d, H2C, j) = engs s1 (d, H2C, j)" for j using e2 by (simp add: s2_def)
  have mask: "dev_mask x (v\<lparr>dv_h2c_channel_max := m\<rparr>) = dev_mask x v" "dev_mask x (v\<lparr>dv_c2h_channel_max := m\<rparr>) = dev_mask x v"
    for x v m by (simp_all add: dev_mask_def)
  have maskH: "dev_mask H2C (devs s' d) = dev_mask H2C (devs s1 d)" using e2 by (simp add: s'_def s2_def mask)
  have up: "device_up d s'"
    unfolding device_up_def maxs using e1 e2 H maskH
    by (intro exI [of _ "dv_engines_num (devs s1 d)"]) (simp add: s'_def mask)
  have owns: "engine_owns (d, sd, j) s' = owned (engs s' (d, sd, j))"
    if "j < (if sd = H2C then h else c)" for sd j
    using up that unfolding device_up_def maxs
    by (cases sd) (auto simp: engine_owns_def engine_up_def)
  have "map (\<lambda>e. engine_owns e s') (dev_engines s' d) =
      map (\<lambda>j. owned (engs s1 (d, H2C, j))) [0..<h] @ map (\<lambda>j. owned (engs s3 (d, C2H, j))) [0..<c]"
    using owns H by (simp add: dev_engines_def maxs) (simp add: s'_def)
  moreover have "held r s2 = held r s1" "held r s' = held r s3" by (simp_all add: s2_def s'_def)
  ultimately have held: "held r s' = held r s + int (count_list (concat (map (\<lambda>e. engine_owns e s') (dev_engines s' d))) r)"
    using e1 e2 by simp
  have sp: "sans_probe (v\<lparr>dv_h2c_channel_max := m\<rparr>) = sans_probe v" "sans_probe (v\<lparr>dv_c2h_channel_max := m\<rparr>) = sans_probe v"
    "sans_irq v = sans_irq w \<Longrightarrow> sans_probe v = sans_probe w" for v w m
    by (simp_all add: sans_probe_def) (simp_all add: sans_irq_def)
  have "sans_probe (devs s' d) = sans_probe (devs s d)"
    using sp(3) [OF sans2] sp(3) [of "devs s1 d" "devs s d"] e1 by (simp add: s'_def sp(1,2))
  moreover have "xdev_list s' = xdev_list s" "\<forall>y. y \<noteq> d \<longrightarrow> devs s' y = devs s y"
    using e1 e2 by (simp_all add: s'_def s2_def)
  ultimately show ?thesis using run up h c held maxs by auto
qed

subsection \<open>Opening\<close>

text \<open>
  The completion threads stay as they are: interrupts are used, or another device is open.
\<close>

definition threads_kept :: "'k kenv_scheme \<Rightarrow> drv \<Rightarrow> bool" where
  "threads_kept K s \<longleftrightarrow> poll_mode K = 0 \<or> xdev_list s \<noteq> []"

text \<open>The allocator does not return the memory of a device that is still open.\<close>

definition fresh_alloc :: "'k denv_scheme \<Rightarrow> drv \<Rightarrow> bool" where
  "fresh_alloc K s \<longleftrightarrow> (\<forall>d. kzalloc_dev K (notices s) = Some d \<longrightarrow> d \<notin> set (xdev_list s))"

lemma list_add_effect:
  assumes "threads_kept K s"
  obtains i where "xdev_list_add K d s =
    (0, (upd_dev d (\<lambda>v. v\<lparr>dv_idx := i\<rparr>) s)\<lparr>xdev_list := xdev_list s @ [d]\<rparr>)"
proof (cases "xdev_list s = []")
  case True
  then show ?thesis using that [of 0] assms by (simp add: xdev_list_add_def threads_kept_def Let_def)
next
  case False
  then show ?thesis using that [of "dv_idx (devs s (last (xdev_list s))) + 1"] by (simp add: xdev_list_add_def Let_def)
qed

definition opened_dev :: "string \<Rightarrow> nat \<Rightarrow> nat \<Rightarrow> nat \<Rightarrow> nat \<Rightarrow> int \<Rightarrow> xdma_dev" where
  "opened_dev mname pdev u h c i = (fresh_dev pdev)\<lparr>dv_mod_name := mname, dv_user_max := clamp u MAX_USER_IRQ,
     dv_h2c_channel_max := clamp h XDMA_CHANNEL_NUM_MAX, dv_c2h_channel_max := clamp c XDMA_CHANNEL_NUM_MAX,
     dv_flags := XDEV_FLAG_OFFLINE, dv_idx := i, dv_got_regions := True\<rparr>"

lemma opened_fields [simp]:
  "dv_pdev (opened_dev m p u h c i) = p" "dv_bar (opened_dev m p u h c i) = replicate XDMA_BAR_NUM 0"
  "dv_config_bar_idx (opened_dev m p u h c i) = -1" "dv_engines_num (opened_dev m p u h c i) = 0"
  "dv_user_max (opened_dev m p u h c i) = clamp u MAX_USER_IRQ"
  "dv_h2c_channel_max (opened_dev m p u h c i) = clamp h XDMA_CHANNEL_NUM_MAX"
  "dv_c2h_channel_max (opened_dev m p u h c i) = clamp c XDMA_CHANNEL_NUM_MAX"
  "dv_got_regions (opened_dev m p u h c i)" "\<not> dv_regions_in_use (opened_dev m p u h c i)"
  "\<not> dv_msix_enabled (opened_dev m p u h c i)" "\<not> dv_msi_enabled (opened_dev m p u h c i)"
  "dv_flags (opened_dev m p u h c i) = XDEV_FLAG_OFFLINE"
  by (simp_all add: opened_dev_def fresh_dev_def zero_dev_def)

lemma open_pci_effect:
  assumes "open_pci K mname pdev u h c s = (xd, s1)" and "threads_kept K s" and "fresh_alloc K s"
  shows "case xd of None \<Rightarrow> pci_request_regions K pdev = 0 \<longrightarrow> held r s1 = held r s
    | Some d \<Rightarrow> accounted K d pdev r (held r s) [St_regions, St_pci, St_dev] s1 \<and> pdev \<noteq> 0 \<and>
        xdev_list s1 = xdev_list s @ [d] \<and> d \<notin> set (xdev_list s) \<and>
        (\<exists>i. devs s1 = (devs s)(d := opened_dev mname pdev u h c i)) \<and> (\<forall>e. fst e = d \<longrightarrow> engs s1 e = zero_engine)"
proof (cases "pdev = 0 \<or> kzalloc_dev K (notices s) = None")
  case True
  then have "alloc_dev_instance K pdev s = (None, s)" by (auto simp: alloc_dev_instance_def)
  then show ?thesis using assms(1) by (auto simp: open_pci_def)
next
  case False
  then obtain d where d: "kzalloc_dev K (notices s) = Some d" "pdev \<noteq> 0" by auto
  then have new: "d \<notin> set (xdev_list s)" using assms(3) by (simp add: fresh_alloc_def)
  define v where "v = (fresh_dev pdev)\<lparr>dv_mod_name := mname, dv_user_max := clamp u MAX_USER_IRQ,
     dv_h2c_channel_max := clamp h XDMA_CHANNEL_NUM_MAX, dv_c2h_channel_max := clamp c XDMA_CHANNEL_NUM_MAX,
     dv_flags := XDEV_FLAG_OFFLINE\<rparr>"
  define sa where "sa = (tell (Acquire (R_dev d)) s)
     \<lparr>engs := (\<lambda>e. if fst e = d then zero_engine else engs s e), devs := (devs s)(d := v)\<rparr>"
  have "threads_kept K sa" using assms(2) by (simp add: threads_kept_def sa_def)
  then obtain i where add: "xdev_list_add K d sa =
      (0, (upd_dev d (\<lambda>v. v\<lparr>dv_idx := i\<rparr>) sa)\<lparr>xdev_list := xdev_list sa @ [d]\<rparr>)"
    by (rule list_add_effect)
  define sb where "sb = (upd_dev d (\<lambda>v. v\<lparr>dv_idx := i\<rparr>) sa)\<lparr>xdev_list := xdev_list sa @ [d]\<rparr>"
  have sb: "xdev_list sb = xdev_list s @ [d]" "devs sb = (devs s)(d := v\<lparr>dv_idx := i\<rparr>)"
      "\<forall>e. fst e = d \<longrightarrow> engs sb e = zero_engine" "held r sb = held r s + (if r = R_dev d then 1 else 0)"
    by (simp_all add: sb_def sa_def held_def)
  have rem: "remove1 d (xdev_list s @ [d]) = xdev_list s" using new by (simp add: remove1_append)
  have start: "open_pci K mname pdev u h c s =
     (if pci_enable_device K pdev \<noteq> 0 then (None, err_enable K d sb)
      else let s = tell (Acquire (R_pci pdev)) sb;
               s = pci_check_intr_pend K pdev s;
               s = pci_enable_capability pdev PCI_EXP_DEVCTL_RELAX_EN s;
               s = pci_enable_capability pdev PCI_EXP_DEVCTL_EXT_TAG s;
               s = tell (Pcie_set_readrq pdev 512) s;
               s = tell (Pci_set_master pdev) s;
               (rv, s) = request_regions K (Some d) pdev s
           in if rv \<noteq> 0 then (None, err_regions K d pdev s) else (Some d, s))"
  proof -
    have "xdma_device_flag_set d XDEV_FLAG_OFFLINE x = upd_dev d (\<lambda>v. v\<lparr>dv_flags := dv_flags v OR XDEV_FLAG_OFFLINE\<rparr>) x" for x
      by (rule xdma_device_flag_set_def)
    then show ?thesis using d add
      by (simp add: open_pci_def alloc_dev_instance_def Let_def sb_def [symmetric])
        (simp add: sa_def v_def upd_dev_def fresh_dev_def zero_dev_def)
  qed
  have valid: "poll_mode K = 0 \<or> remove1 d (xdev_list s @ [d]) \<noteq> []"
    using assms(2) rem by (simp add: threads_kept_def)
  show ?thesis
  proof (cases "pci_enable_device K pdev = 0")
    case False
    have "accounted K d pdev r (held r s) [St_dev] sb"
      using valid sb by (simp add: accounted_def stage_valid_def stage_owns_def)
    from label_restores(1) [OF this] show ?thesis using False assms(1) start by auto
  next
    case True
    define sc where "sc = tell (Pci_set_master pdev) (tell (Pcie_set_readrq pdev 512)
        (pci_enable_capability pdev PCI_EXP_DEVCTL_EXT_TAG (pci_enable_capability pdev PCI_EXP_DEVCTL_RELAX_EN
          (pci_check_intr_pend K pdev (tell (Acquire (R_pci pdev)) sb)))))"
    have sc: "xdev_list sc = xdev_list sb" "devs sc = devs sb" "engs sc = engs sb"
        "held r sc = held r sb + (if r = R_pci pdev then 1 else 0)"
      by (simp_all add: sc_def pci_enable_capability_def pci_check_intr_pend_def Let_def)
    define sd where "sd = upd_dev d (\<lambda>v. v\<lparr>dv_got_regions := True\<rparr>) (tell (Acquire (R_regions pdev)) sc)"
    have s1: "xd = Some d \<and> s1 = sd \<or> xd = None \<and> pci_request_regions K pdev \<noteq> 0"
      using assms(1) start True d(2) by (auto simp: request_regions_def Let_def sc_def [symmetric] sd_def split: if_splits)
    have sd: "xdev_list sd = xdev_list s @ [d]" "devs sd = (devs s)(d := opened_dev mname pdev u h c i)"
        "\<forall>e. fst e = d \<longrightarrow> engs sd e = zero_engine"
        "held r sd = held r s + (if r = R_dev d then 1 else 0) + (if r = R_pci pdev then 1 else 0) +
           (if r = R_regions pdev then 1 else 0)"
      using sb sc by (simp_all add: sd_def v_def opened_dev_def del: split_paired_All)
    have "accounted K d pdev r (held r s) [St_regions, St_pci, St_dev] sd"
      using valid sd by (simp add: accounted_def stage_valid_def stage_owns_def)
    then show ?thesis using s1 sd d(2) new by auto
  qed
qed

lemma mask_interrupts_frame [simp]:
  "devs (mask_interrupts K d s) = devs s" "engs (mask_interrupts K d s) = engs s"
  "xdev_list (mask_interrupts K d s) = xdev_list s" "notices (mask_interrupts K d s) = notices s"
  by (simp_all add: mask_interrupts_def read_interrupts_def case_prod_unfold Let_def
      user_interrupts_disable_def channel_interrupts_disable_def)

lemma check_status_frame [simp]:
  "devs (check_nonzero_interrupt_status K d s) = devs s" "engs (check_nonzero_interrupt_status K d s) = engs s"
  "xdev_list (check_nonzero_interrupt_status K d s) = xdev_list s"
  "notices (check_nonzero_interrupt_status K d s) = notices s"
  by (simp_all add: check_nonzero_interrupt_status_def Let_def)

text \<open>What the stages that own the PCI device depend on.\<close>

lemma low_stages_cong:
  assumes "accounted K d pdev r b [St_regions, St_pci, St_dev] s" and "held r s' = held r s"
    and "dv_got_regions (devs s' d) = dv_got_regions (devs s d)"
    and "dv_regions_in_use (devs s' d) = dv_regions_in_use (devs s d)" and "xdev_list s' = xdev_list s"
  shows "accounted K d pdev r b [St_regions, St_pci, St_dev] s'"
  using assms by (simp add: accounted_def stage_owns_def stage_valid_def)

definition sans_hw :: "xdma_dev \<Rightarrow> xdma_dev" where
  "sans_hw v = sans_probe (sans_bars v)"

lemma sans_hwD:
  assumes "sans_hw v = sans_hw w"
  shows "dv_got_regions v = dv_got_regions w" "dv_regions_in_use v = dv_regions_in_use w" "dv_pdev v = dv_pdev w"
    "dv_user_max v = dv_user_max w" "dv_msix_enabled v = dv_msix_enabled w" "dv_msi_enabled v = dv_msi_enabled w"
    "dv_flags v = dv_flags w"
proof -
  have *: "dv_got_regions (sans_hw v) = dv_got_regions v" "dv_regions_in_use (sans_hw v) = dv_regions_in_use v"
    "dv_pdev (sans_hw v) = dv_pdev v" "dv_user_max (sans_hw v) = dv_user_max v"
    "dv_msix_enabled (sans_hw v) = dv_msix_enabled v" "dv_msi_enabled (sans_hw v) = dv_msi_enabled v"
    "dv_flags (sans_hw v) = dv_flags v" for v
    by (simp_all add: sans_hw_def sans_probe_def sans_irq_def sans_bars_def)
  show "dv_got_regions v = dv_got_regions w" "dv_regions_in_use v = dv_regions_in_use w" "dv_pdev v = dv_pdev w"
    "dv_user_max v = dv_user_max w" "dv_msix_enabled v = dv_msix_enabled w" "dv_msi_enabled v = dv_msi_enabled w"
    "dv_flags v = dv_flags w"
    using assms by (metis *)+
qed

lemma sans_hw_intro:
  "sans_bars v = sans_bars w \<Longrightarrow> sans_hw v = sans_hw w" "sans_probe v = sans_probe w \<Longrightarrow> sans_hw v = sans_hw w"
proof -
  show "sans_bars v = sans_bars w \<Longrightarrow> sans_hw v = sans_hw w" by (simp add: sans_hw_def)
  have "sans_hw v = sans_bars (sans_probe v)" for v
    by (simp add: sans_hw_def sans_probe_def sans_irq_def sans_bars_def)
  then show "sans_probe v = sans_probe w \<Longrightarrow> sans_hw v = sans_hw w" by simp
qed

lemma sans_probe_bar: "sans_probe v = sans_probe w \<Longrightarrow> dv_bar v = dv_bar w"
  by (drule arg_cong [where f = dv_bar]) (simp add: sans_probe_def sans_irq_def)

lemma open_hw_effect:
  assumes "open_hw K d pdev s = (ok, s1)" and "accounted K d pdev r b [St_regions, St_pci, St_dev] s"
    and "dv_bar (devs s d) = replicate XDMA_BAR_NUM 0" and "dv_config_bar_idx (devs s d) = -1"
    and "\<forall>e. fst e = d \<longrightarrow> engs s e = zero_engine" and "dv_engines_num (devs s d) = 0"
  shows "if ok
    then accounted K d pdev r b [St_engines, St_bars, St_regions, St_pci, St_dev] s1 \<and> device_up d s1 \<and>
      xdev_list s1 = xdev_list s \<and> (\<forall>y. y \<noteq> d \<longrightarrow> devs s1 y = devs s y) \<and> sans_hw (devs s1 d) = sans_hw (devs s d) \<and>
      dv_h2c_channel_max (devs s1 d) \<le> dv_h2c_channel_max (devs s d) \<and>
      dv_c2h_channel_max (devs s1 d) \<le> dv_c2h_channel_max (devs s d)
    else held r s1 = b"
proof -
  obtain rv sa where m: "map_bars K d pdev s = (rv, sa)" by fastforce
  note em = map_bars_effect [OF m assms(3,4)]
  have fr: "bars_frame d s sa" using em by blast
  have sans: "sans_bars (devs sa d) = sans_bars (devs s d)" and len: "length (dv_bar (devs sa d)) = XDMA_BAR_NUM"
    and frame: "engs sa = engs s" "xdev_list sa = xdev_list s" "\<forall>y. y \<noteq> d \<longrightarrow> devs sa y = devs s y"
    using fr assms(3) by (simp_all add: bars_frame_def)
  note hw = sans_hw_intro(1) [OF sans]
  have win: "held r sa = held r s + int (count_list (windows (devs sa d)) r)"
  proof -
    have "beyond r d sa = beyond r d s" using fr by (simp add: bars_frame_def)
    then show ?thesis using assms(3) by (simp add: beyond_def windows_none)
  qed
  show ?thesis
  proof (cases "rv = 0")
    case False
    then have "windows (devs sa d) = []" using em len by (intro windows_none) auto
    then have "accounted K d pdev r b [St_regions, St_pci, St_dev] sa"
      using low_stages_cong [OF assms(2)] win frame sans_hwD [OF hw] by simp
    from label_restores(3) [OF this] show ?thesis using assms(1) m False by (simp add: open_hw_def)
  next
    case True
    have bars: "accounted K d pdev r b [St_bars, St_regions, St_pci, St_dev] sa"
      using assms(2) win frame sans_hwD [OF hw] len by (simp add: accounted_def stage_owns_def stage_valid_def)
    obtain rv2 sb where dm: "set_dma_mask K pdev sa = (rv2, sb)" by fastforce
    then have sb: "devs sb = devs sa" "engs sb = engs sa" "xdev_list sb = xdev_list sa" "held r sb = held r sa"
      by (auto simp: set_dma_mask_def split: if_splits)
    have bars2: "accounted K d pdev r b [St_bars, St_regions, St_pci, St_dev] x"
      if "devs x = devs sa" "xdev_list x = xdev_list sa" "held r x = held r sa" for x
      using bars that by (simp add: accounted_def stage_owns_def stage_valid_def)
    show ?thesis
    proof (cases "rv2 = 0")
      case False
      then have "ok = False" "s1 = err_mask K d pdev sb" using assms(1) m True dm by (simp_all add: open_hw_def)
      then show ?thesis using label_restores(4) [OF bars2] sb by simp
    next
      case rv2: True
      define sc where "sc = mask_interrupts K d (check_nonzero_interrupt_status K d sb)"
      have sc: "devs sc = devs sa" "engs sc = engs s" "xdev_list sc = xdev_list sa" "held r sc = held r sa"
        using sb frame(1) by (simp_all add: sc_def held_def)
      have num: "dv_engines_num (devs sc d) = 0"
        using arg_cong [OF sans, of dv_engines_num] assms(6) sc(1) by (simp add: sans_bars_def)
      have maxs: "dv_h2c_channel_max (devs sc d) = dv_h2c_channel_max (devs s d)"
          "dv_c2h_channel_max (devs sc d) = dv_c2h_channel_max (devs s d)"
        using arg_cong [OF sans, of dv_h2c_channel_max] arg_cong [OF sans, of dv_c2h_channel_max] sc(1)
        by (simp_all add: sans_bars_def)
      obtain se where pr: "probe_engines K (Some d) sc = (0, se)" "device_up d se"
          "dv_h2c_channel_max (devs se d) \<le> dv_h2c_channel_max (devs sc d)"
          "dv_c2h_channel_max (devs se d) \<le> dv_c2h_channel_max (devs sc d)"
          "held r se = held r sc + int (count_list (concat (map (\<lambda>e. engine_owns e se) (dev_engines se d))) r)"
          "xdev_list se = xdev_list sc" "\<forall>y. y \<noteq> d \<longrightarrow> devs se y = devs sc y"
          "sans_probe (devs se d) = sans_probe (devs sc d)"
        using probe_engines_effect [OF _ num, of K r] assms(5) sc(2) by metis
      have s1: "ok" "s1 = se" using assms(1) m True dm rv2 pr(1) by (simp_all add: open_hw_def sc_def [symmetric])
      have hw2: "sans_hw (devs se d) = sans_hw (devs s d)" using sans_hw_intro(2) [OF pr(8)] sc(1) hw by simp
      have "windows (devs se d) = windows (devs sa d)" "dv_bar (devs se d) = dv_bar (devs sa d)"
        using sans_probe_bar [OF pr(8)] sc(1) by (simp_all add: windows_def)
      then have "accounted K d pdev r b [St_engines, St_bars, St_regions, St_pci, St_dev] se"
        using bars pr(5,6) sc(3,4) sans_hwD [OF hw2] sans_hwD [OF hw]
        by (simp add: accounted_def stage_owns_def stage_valid_def)
      then show ?thesis using s1 pr frame(2,3) sc hw2 maxs by simp
    qed
  qed
qed

subsection \<open>Interrupts while opening\<close>

lemma irq_setup_keeps:
  assumes "st \<noteq> St_lines"
  shows "stage_owns K d pdev st (snd (irq_setup K d p s)) = stage_owns K d pdev st s"
    and "stage_valid K d st s \<Longrightarrow> stage_valid K d st (snd (irq_setup K d p s))"
proof -
  obtain l where l: "devs (snd (irq_setup K d p s)) = (devs s)(d := (devs s d)\<lparr>dv_irq_line := l\<rparr>)"
    using irq_setup_frame(3) by blast
  have "engine_owns e (snd (irq_setup K d p s)) = engine_owns e s" for e
    using sans_lineD(1,2) [OF irq_setup_frame(1), of K d p s e] by (simp add: engine_owns_def)
  then show "stage_owns K d pdev st (snd (irq_setup K d p s)) = stage_owns K d pdev st s"
    using assms by (cases st) (simp_all add: stage_owns_def l dev_engines_def windows_def)
  show "stage_valid K d st s \<Longrightarrow> stage_valid K d st (snd (irq_setup K d p s))"
    using assms by (cases st) (simp_all add: stage_valid_def l irq_setup_frame(2))
qed

lemma enable_effect:
  assumes "enable_msi_msix K (Some d) pdev s = (rv, s1)" and "accounted K d pdev r b sts s"
    and "set sts \<subseteq> {St_engines, St_bars, St_regions, St_pci, St_dev}" and "pdev \<noteq> 0"
    and "\<not> dv_msix_enabled (devs s d)" and "\<not> dv_msi_enabled (devs s d)"
  shows "accounted K d pdev r b (if rv < 0 then sts else St_msi # sts) s1" and "engs s1 = engs s"
    and "xdev_list s1 = xdev_list s"
    and "\<exists>a c. devs s1 = (devs s)(d := (devs s d)\<lparr>dv_msix_enabled := a, dv_msi_enabled := c\<rparr>)"
proof -
  define v where "v = devs s d"
  have self: "v\<lparr>dv_msix_enabled := False\<rparr> = v" "v\<lparr>dv_msi_enabled := False\<rparr> = v"
    using assms(5,6) by (cases v; simp add: v_def)+
  have eff: "\<exists>a c. devs s1 = (devs s)(d := v\<lparr>dv_msix_enabled := a, dv_msi_enabled := c\<rparr>) \<and>
      engs s1 = engs s \<and> xdev_list s1 = xdev_list s \<and> (rv < 0 \<longrightarrow> held r s1 = held r s) \<and>
      (0 \<le> rv \<longrightarrow> held r s1 = held r s + int (count_list (stage_owns K d pdev St_msi s1) r))"
  proof -
    consider (msix) "s1 = upd_dev d (\<lambda>v. v\<lparr>dv_msix_enabled := True\<rparr>) (if rv < 0 then s else tell (Acquire (R_msix pdev)) s)"
      | (msi) "s1 = upd_dev d (\<lambda>v. v\<lparr>dv_msi_enabled := True\<rparr>) (if rv < 0 then s else tell (Acquire (R_msi pdev)) s)"
      | (none) "rv = 0" "s1 = s"
      using assms(1,4) by (auto simp: enable_msi_msix_def Let_def split: if_splits)
    then show ?thesis
    proof cases
      case msix
      then show ?thesis using assms(5,6) self
        by (intro exI [of _ True] exI [of _ False]) (auto simp: v_def stage_owns_def)
    next
      case msi
      then show ?thesis using assms(5,6) self
        by (intro exI [of _ False] exI [of _ True]) (auto simp: v_def stage_owns_def)
    next
      case none
      then show ?thesis using assms(5,6) self
        by (intro exI [of _ False] exI [of _ False]) (auto simp: v_def stage_owns_def)
    qed
  qed
  then show "engs s1 = engs s" "xdev_list s1 = xdev_list s"
    "\<exists>a c. devs s1 = (devs s)(d := (devs s d)\<lparr>dv_msix_enabled := a, dv_msi_enabled := c\<rparr>)"
    by (auto simp: v_def)
  obtain a c where ac: "devs s1 = (devs s)(d := v\<lparr>dv_msix_enabled := a, dv_msi_enabled := c\<rparr>)"
      "engs s1 = engs s" "xdev_list s1 = xdev_list s"
    using eff by blast
  have same: "engine_owns e s1 = engine_owns e s" for e by (simp add: engine_owns_def ac(2))
  have keep: "stage_owns K d pdev st s1 = stage_owns K d pdev st s" "stage_valid K d st s \<longrightarrow> stage_valid K d st s1"
    if "st \<in> set sts" for st
    using subsetD [OF assms(3) that]
    by (cases st; simp add: stage_owns_def stage_valid_def dev_engines_def windows_def ac(1,3) same v_def)+
  show "accounted K d pdev r b (if rv < 0 then sts else St_msi # sts) s1"
  proof (cases "rv < 0")
    case True
    then show ?thesis using accounted_cong [OF assms(2), of s1] eff keep by auto
  next
    case False
    then show ?thesis using accounted_Cons [OF assms(2), of St_msi s1] eff keep by (auto simp: stage_valid_def)
  qed
qed

end
