(* ===== verification/Xdma_Lifecycle.thy ===== *)
theory Xdma_Lifecycle
  imports Xdma_Open
begin

text \<open>
  The life of a device as a whole: what opening it establishes, that opening and closing
  balance, and what taking it offline means.
\<close>

abbreviation below_msi :: "stage list" where
  "below_msi \<equiv> [St_engines, St_bars, St_regions, St_pci, St_dev]"

lemma irq_setup_accounted:
  assumes "irq_setup K d pdev s = (rv, s1)" and "accounted K d pdev r b (St_msi # below_msi) s"
    and "\<forall>p i. pci_irq_vector K p i \<noteq> 0" and "pdev_irq K pdev \<noteq> -1"
  shows "rv = 0 \<Longrightarrow> accounted K d pdev r b (St_lines # St_msi # below_msi) s1"
    and "rv \<noteq> 0 \<Longrightarrow> \<not> channel_line r \<Longrightarrow> accounted K d pdev r b (St_msi # below_msi) s1"
proof -
  have s1: "s1 = snd (irq_setup K d pdev s)" using assms(1) by simp
  have keep: "stage_owns K d pdev st s1 = stage_owns K d pdev st s \<and> (stage_valid K d st s \<longrightarrow> stage_valid K d st s1)"
    if "st \<in> set (St_msi # below_msi)" for st
    using irq_setup_keeps [where st = st and K = K and d = d and p = pdev and s = s] that unfolding s1 by auto
  show "accounted K d pdev r b (St_msi # below_msi) s1" if "rv \<noteq> 0" "\<not> channel_line r"
    using accounted_cong [OF assms(2), of s1] keep irq_setup_frame(4) [of K d pdev s r] that assms(1) by simp
  assume "rv = 0"
  then have ok: "irq_setup K d pdev s = (0, s1)" using assms(1) by simp
  have "stage_valid K d St_lines s1 \<and> held r s1 = held r s + int (count_list (stage_owns K d pdev St_lines s1) r)"
  proof (cases "dv_msix_enabled (devs s d)")
    case True
    have "msix_lines K s1 d = msix_lines K s d"
      using msix_setup_effect [OF ok True] by (simp add: msix_lines_def channel_lines_def user_lines_def)
    then show ?thesis using msix_setup_effect [OF ok True] True assms(3)
      by (simp add: stage_valid_def stage_owns_def)
  next
    case False
    then show ?thesis using line_setup_effect [OF ok False] line_present [OF assms(4)] assms(3)
      by (simp add: stage_valid_def stage_owns_def)
  qed
  then show "accounted K d pdev r b (St_lines # St_msi # below_msi) s1"
    using accounted_Cons [OF assms(2), of St_lines s1] keep by blast
qed

lemma irq_setup_lines:
  assumes "irq_setup K d pdev s = (0, s1)" and "0 < dv_user_max (devs s d)" and "pdev_irq K pdev \<noteq> -1"
  shows "stage_owns K d pdev St_lines s1 \<noteq> []"
proof (cases "dv_msix_enabled (devs s d)")
  case True
  then show ?thesis using msix_setup_effect [OF assms(1) True] assms(2)
    by (simp add: stage_owns_def Let_def msix_lines_def user_lines_def)
next
  case False
  then show ?thesis using line_setup_effect [OF assms(1) False] line_present [OF assms(3)] by (simp add: stage_owns_def)
qed

lemma irq_setup_result:
  assumes "\<forall>l i. request_irq K l i \<le> 0"
  shows "fst (irq_setup K d pdev s) \<le> 0"
proof -
  have ask: "fst (ask_irq K line cookie s) \<le> 0" for line cookie s
    using assms by (simp add: ask_irq_def Let_def)
  have chan: "fst (setup_loop K d sd j cs s) \<le> 0" for sd j cs s
    using ask by (induction cs arbitrary: s) (auto simp: Let_def case_prod_unfold)
  have user: "fst (user_setup_loop K d j us s) \<le> 0" for j us s
    using ask by (induction us arbitrary: s) (auto simp: Let_def case_prod_unfold)
  show ?thesis
    using ask chan user
    by (auto simp: irq_setup_def irq_msix_channel_setup_def irq_msix_user_setup_def irq_msi_setup_def
        irq_legacy_setup_def Let_def case_prod_unfold EINVAL_def)
qed

text \<open>What the engines and the device look like does not depend on lines and modes.\<close>

lemma device_up_cong:
  assumes "device_up d s" and "\<And>sd j. sans_line (engs s' (d, sd, j)) = sans_line (engs s (d, sd, j))"
    and "dv_h2c_channel_max (devs s' d) = dv_h2c_channel_max (devs s d)"
    and "dv_c2h_channel_max (devs s' d) = dv_c2h_channel_max (devs s d)"
    and "\<And>x. dev_mask x (devs s' d) = dev_mask x (devs s d)"
  shows "device_up d s'"
proof -
  have "engine_up d sd n (engs s' (d, sd, j)) = engine_up d sd n (engs s (d, sd, j))" for sd n j
    using sans_lineD [OF assms(2), of sd j] by (simp add: engine_up_def)
  then show ?thesis using assms(1,3-5) by (simp add: device_up_def)
qed

text \<open>The facts about the kernel that opening relies on.\<close>

definition kernel_ok :: "'k denv_scheme \<Rightarrow> nat \<Rightarrow> drv \<Rightarrow> bool" where
  "kernel_ok K pdev s \<longleftrightarrow> fresh_alloc K s \<and> (\<forall>p i. pci_irq_vector K p i \<noteq> 0) \<and> pdev_irq K pdev \<noteq> -1 \<and>
     (\<forall>l i. request_irq K l i \<le> 0)"

definition hw_open :: "'k denv_scheme \<Rightarrow> nat \<Rightarrow> nat \<Rightarrow> drv \<Rightarrow> drv \<Rightarrow> bool" where
  "hw_open K d pdev s s' \<longleftrightarrow> device_up d s' \<and> pdev \<noteq> 0 \<and> xdev_list s' = xdev_list s @ [d] \<and> d \<notin> set (xdev_list s) \<and>
    (\<forall>y. y \<noteq> d \<longrightarrow> devs s' y = devs s y) \<and> dv_pdev (devs s' d) = pdev \<and> 0 < dv_user_max (devs s' d) \<and> dv_user_max (devs s' d) \<le> MAX_USER_IRQ \<and>
    dv_h2c_channel_max (devs s' d) \<le> XDMA_CHANNEL_NUM_MAX \<and> dv_c2h_channel_max (devs s' d) \<le> XDMA_CHANNEL_NUM_MAX"

text \<open>After the hardware has been mapped and probed.\<close>

lemma open_hw_done:
  assumes "open_pci K mname pdev u h c s = (Some d, sa)" and "threads_kept K s" and "kernel_ok K pdev s"
    and "open_hw K d pdev sa = (ok, sb)"
  shows "if ok then accounted K d pdev r (held r s) below_msi sb \<and> hw_open K d pdev s sb \<and>
      dv_flags (devs sb d) = XDEV_FLAG_OFFLINE \<and> \<not> dv_msix_enabled (devs sb d) \<and> \<not> dv_msi_enabled (devs sb d)
    else held r sb = held r s"
proof -
  have clamp: "n \<le> clamp k m \<Longrightarrow> n \<le> m" "clamp k m \<le> m" for n k m by (auto simp: clamp_def split: if_splits)
  have pci: "accounted K d pdev r (held r s) [St_regions, St_pci, St_dev] sa" "pdev \<noteq> 0"
      "xdev_list sa = xdev_list s @ [d]" "d \<notin> set (xdev_list s)" "\<forall>e. fst e = d \<longrightarrow> engs sa e = zero_engine"
    and "\<exists>i. devs sa = (devs s)(d := opened_dev mname pdev u h c i)"
    using open_pci_effect [OF assms(1,2), of r] assms(3) by (simp_all add: kernel_ok_def del: split_paired_All)
  then obtain i where i: "devs sa = (devs s)(d := opened_dev mname pdev u h c i)" by blast
  note hw = open_hw_effect [OF assms(4) pci(1) _ _ pci(5), simplified i, simplified]
  show ?thesis
  proof (cases ok)
    case True
    then have "sans_hw (devs sb d) = sans_hw (opened_dev mname pdev u h c i)" using hw by simp
    note fields = sans_hwD [OF this, simplified]
    have "dv_h2c_channel_max (devs sb d) \<le> XDMA_CHANNEL_NUM_MAX" "dv_c2h_channel_max (devs sb d) \<le> XDMA_CHANNEL_NUM_MAX"
      using hw True clamp(1) by auto
    moreover have "0 < clamp u MAX_USER_IRQ" by (simp add: clamp_def MAX_USER_IRQ_def)
    ultimately show ?thesis using hw True pci(2-4) fields clamp(2) by (simp add: hw_open_def)
  qed (use hw in simp)
qed

lemma hw_open_cong:
  assumes "hw_open K d pdev s s'" and "\<And>sd j. sans_line (engs s'' (d, sd, j)) = sans_line (engs s' (d, sd, j))"
    and "xdev_list s'' = xdev_list s'"
    and "devs s'' = (devs s')(d := (devs s' d)\<lparr>dv_msix_enabled := a, dv_msi_enabled := c, dv_irq_line := l, dv_flags := f\<rparr>)"
  shows "hw_open K d pdev s s''"
proof -
  have "device_up d s''"
    by (rule device_up_cong [of d s']) (use assms in \<open>simp_all add: hw_open_def dev_mask_def\<close>)
  then show ?thesis using assms(1,3,4) by (simp add: hw_open_def)
qed

text \<open>The stages depend neither on the flags of the device nor on its mask of user interrupts.\<close>

definition sans_soft :: "xdma_dev \<Rightarrow> xdma_dev" where
  "sans_soft v = v\<lparr>dv_flags := 0, dv_mask_irq_user := 0\<rparr>"

lemma sans_softD:
  assumes "sans_soft v = sans_soft w"
  shows "dv_bar v = dv_bar w" "dv_got_regions v = dv_got_regions w" "dv_regions_in_use v = dv_regions_in_use w"
    "dv_user_max v = dv_user_max w" "dv_c2h_channel_max v = dv_c2h_channel_max w"
    "dv_h2c_channel_max v = dv_h2c_channel_max w" "dv_irq_line v = dv_irq_line w" "dv_msi_enabled v = dv_msi_enabled w"
    "dv_msix_enabled v = dv_msix_enabled w" "dv_pdev v = dv_pdev w" "dev_mask sd v = dev_mask sd w"
    "dv_user_irq v = dv_user_irq w"
proof -
  have eq: "f v = f w" if "\<And>u. f (sans_soft u) = f u" for f :: "xdma_dev \<Rightarrow> 'a" using assms that by metis
  show "dv_bar v = dv_bar w" "dv_got_regions v = dv_got_regions w" "dv_regions_in_use v = dv_regions_in_use w"
    "dv_user_max v = dv_user_max w" "dv_c2h_channel_max v = dv_c2h_channel_max w"
    "dv_h2c_channel_max v = dv_h2c_channel_max w" "dv_irq_line v = dv_irq_line w" "dv_msi_enabled v = dv_msi_enabled w"
    "dv_msix_enabled v = dv_msix_enabled w" "dv_pdev v = dv_pdev w" "dev_mask sd v = dev_mask sd w"
    "dv_user_irq v = dv_user_irq w"
    by (rule eq, simp add: sans_soft_def dev_mask_def)+
qed

lemma soft_stages:
  assumes "\<forall>y. sans_soft (devs s' y) = sans_soft (devs s y)" and "engs s' = engs s" and "xdev_list s' = xdev_list s"
  shows "stage_owns K d pdev st s' = stage_owns K d pdev st s" and "stage_valid K d st s' = stage_valid K d st s"
proof -
  note dev = sans_softD [OF assms(1) [rule_format, of d]]
  have "engine_owns e s' = engine_owns e s" for e by (simp add: engine_owns_def assms(2))
  moreover have "msix_lines K s' d = msix_lines K s d"
    by (simp add: msix_lines_def channel_lines_def user_lines_def dev)
  ultimately show "stage_owns K d pdev st s' = stage_owns K d pdev st s"
    by (cases st) (simp_all add: stage_owns_def Let_def dev dev_engines_def windows_def)
  show "stage_valid K d st s' = stage_valid K d st s"
    by (cases st) (simp_all add: stage_valid_def assms(2,3) dev lines_recorded_def)
qed

lemma flags_stages:
  assumes "devs s' = (devs s)(d := (devs s d)\<lparr>dv_flags := f\<rparr>)" and "engs s' = engs s" and "xdev_list s' = xdev_list s"
  shows "stage_owns K d pdev st s' = stage_owns K d pdev st s" and "stage_valid K d st s' = stage_valid K d st s"
  by (rule soft_stages; simp add: assms sans_soft_def)+

lemma accounted_flags:
  assumes "accounted K d pdev r b sts s" and "devs s' = (devs s)(d := (devs s d)\<lparr>dv_flags := f\<rparr>)"
    and "engs s' = engs s" and "xdev_list s' = xdev_list s" and "notices s' = notices s"
  shows "accounted K d pdev r b sts s'"
  by (rule accounted_cong [OF assms(1) held_notices [OF assms(5)]]) (simp add: flags_stages [OF assms(2-4)])

lemma open_irqs_effect:
  assumes "open_irqs K d pdev sb = (res, s1)" and "kernel_ok K pdev s"
    and "accounted K d pdev r b below_msi sb" and "hw_open K d pdev s sb"
    and "dv_flags (devs sb d) = XDEV_FLAG_OFFLINE" and "\<not> dv_msix_enabled (devs sb d)" and "\<not> dv_msi_enabled (devs sb d)"
  shows "case res of None \<Rightarrow> \<not> channel_line r \<longrightarrow> held r s1 = b
    | Some (x, um, hm, cm) \<Rightarrow> x = d \<and> accounted K d pdev r b (St_lines # St_msi # below_msi) s1 \<and> hw_open K d pdev s s1 \<and>
        dv_flags (devs s1 d) = 0 \<and> stage_owns K d pdev St_lines s1 \<noteq> [] \<and>
        um = dv_user_max (devs s1 d) \<and> hm = dv_h2c_channel_max (devs s1 d) \<and> cm = dv_c2h_channel_max (devs s1 d)"
proof -
  have kern: "\<forall>p i. pci_irq_vector K p i \<noteq> 0" "pdev_irq K pdev \<noteq> -1" "\<forall>l i. request_irq K l i \<le> 0"
    using assms(2) by (simp_all add: kernel_ok_def)
  have pdev: "pdev \<noteq> 0" using assms(4) by (simp add: hw_open_def)
  obtain rv sc where en: "enable_msi_msix K (Some d) pdev sb = (rv, sc)" by fastforce
  note ee = enable_effect [OF en assms(3) _ pdev assms(6,7), simplified]
  obtain a c where ac: "devs sc = (devs sb)(d := (devs sb d)\<lparr>dv_msix_enabled := a, dv_msi_enabled := c\<rparr>)"
    using ee(4) by blast
  show ?thesis
  proof (cases "rv < 0")
    case True
    then have "res = None" "s1 = err_engines K d pdev sc" using assms(1) en by (simp_all add: open_irqs_def)
    then show ?thesis using label_restores(5) [of K d pdev r b sc] ee(1) True by simp
  next
    case pos: False
    obtain rv2 se where irq: "irq_setup K d pdev sc = (rv2, se)" by fastforce
    have le: "rv2 \<le> 0" using irq_setup_result [OF kern(3), of d pdev sc] irq by simp
    note ia = irq_setup_accounted [OF irq _ kern(1,2), of r b]
    show ?thesis
    proof (cases "rv2 = 0")
      case False
      then have "res = None" "s1 = err_msix K d pdev se"
        using assms(1) en pos irq le by (simp_all add: open_irqs_def)
      then show ?thesis using label_restores(6) [of K d pdev r b se] ia(2) ee(1) pos False by simp
    next
      case True
      define sf where "sf = snd (read_interrupts K d (if poll_mode K = 0 then channel_interrupts_enable d (-1) se else se))"
      have sf: "devs sf = devs se" "engs sf = engs se" "xdev_list sf = xdev_list se" "notices sf = notices se"
        by (simp_all add: sf_def read_interrupts_def channel_interrupts_enable_def case_prod_unfold Let_def)
      have s1: "res = Some (d, dv_user_max (devs sf d), dv_h2c_channel_max (devs sf d), dv_c2h_channel_max (devs sf d))"
          "s1 = xdma_device_flag_clear d XDEV_FLAG_OFFLINE sf"
        using assms(1) en pos irq True by (simp_all add: open_irqs_def sf_def Let_def)
      obtain l where l: "devs se = (devs sc)(d := (devs sc d)\<lparr>dv_irq_line := l\<rparr>)"
        using irq_setup_frame(3) [of K d pdev sc] irq by auto
      have d1: "devs s1 = (devs sb)(d := (devs sb d)\<lparr>dv_msix_enabled := a, dv_msi_enabled := c, dv_irq_line := l, dv_flags := 0\<rparr>)"
        using assms(5) by (simp add: s1(2) xdma_device_flag_clear_def sf l ac XDEV_FLAG_OFFLINE_def)
      have hw: "hw_open K d pdev s s1"
        using irq_setup_frame(1,2) [of K d pdev sc] irq
        by (intro hw_open_cong [OF assms(4) _ _ d1]) (simp_all add: s1(2) xdma_device_flag_clear_def sf ee(2,3))
      have "accounted K d pdev r b (St_lines # St_msi # below_msi) se" using ia(1) True ee(1) pos by simp
      then have "accounted K d pdev r b (St_lines # St_msi # below_msi) s1"
        using accounted_flags [of K d pdev r b _ se s1 0] sf assms(5)
        by (simp add: s1(2) xdma_device_flag_clear_def held_def l ac XDEV_FLAG_OFFLINE_def)
      moreover have "stage_owns K d pdev St_lines s1 \<noteq> []"
      proof -
        have "stage_owns K d pdev St_lines s1 = stage_owns K d pdev St_lines se"
          by (rule flags_stages(1) [where f = 0]) (use d1 in \<open>simp_all add: l ac s1(2) xdma_device_flag_clear_def sf\<close>)
        then show ?thesis using irq_setup_lines [OF irq [unfolded True] _ kern(2)] assms(4) ac by (simp add: hw_open_def)
      qed
      ultimately show ?thesis using hw by (simp add: s1(1) d1 sf l ac)
    qed
  qed
qed

lemma open_effect:
  assumes "xdma_device_open K mname pdev u h c s = (res, s1)" and "threads_kept K s" and "kernel_ok K pdev s"
  shows "case res of None \<Rightarrow> pci_request_regions K pdev = 0 \<longrightarrow> \<not> channel_line r \<longrightarrow> held r s1 = held r s
    | Some (d, um, hm, cm) \<Rightarrow> accounted K d pdev r (held r s) (St_lines # St_msi # below_msi) s1 \<and>
        hw_open K d pdev s s1 \<and> dv_flags (devs s1 d) = 0 \<and> stage_owns K d pdev St_lines s1 \<noteq> [] \<and>
        um = dv_user_max (devs s1 d) \<and> hm = dv_h2c_channel_max (devs s1 d) \<and> cm = dv_c2h_channel_max (devs s1 d)"
proof -
  obtain xd sa where pci: "open_pci K mname pdev u h c s = (xd, sa)" by fastforce
  show ?thesis
  proof (cases xd)
    case None
    then show ?thesis using open_pci_effect [OF pci assms(2), of r] assms(1,3) pci
      by (simp add: xdma_device_open_def kernel_ok_def)
  next
    case (Some d)
    note pci = pci [unfolded Some]
    obtain ok sb where hw: "open_hw K d pdev sa = (ok, sb)" by fastforce
    note up = open_hw_done [OF pci assms(2,3) hw, of r]
    show ?thesis
    proof (cases ok)
      case False
      then show ?thesis using up assms(1) pci hw by (auto simp: xdma_device_open_def)
    next
      case True
      then have "open_irqs K d pdev sb = (res, s1)" using assms(1) pci hw by (simp add: xdma_device_open_def)
      from open_irqs_effect [OF this assms(3), of r "held r s"] up True show ?thesis
        by (auto split: option.splits)
    qed
  qed
qed

text \<open>The handle of an open device is recognised.\<close>

definition sole_device :: "nat \<Rightarrow> drv \<Rightarrow> bool" where
  "sole_device pdev s \<longleftrightarrow> (\<forall>x\<in>set (xdev_list s). dv_pdev (devs s x) \<noteq> pdev)"

lemma handle_known:
  assumes "hw_open K d pdev s s1" and "sole_device pdev s"
  shows "debug_check_dev_hndl pdev d s1 = 0"
proof -
  have find: "\<forall>x\<in>set xs. \<not> P x \<Longrightarrow> P d \<Longrightarrow> find P (xs @ [d]) = Some d" for P :: "nat \<Rightarrow> bool" and xs
    by (induction xs) auto
  have "\<forall>x\<in>set (xdev_list s). dv_pdev (devs s1 x) \<noteq> pdev" "dv_pdev (devs s1 d) = pdev"
    using assms by (auto simp: hw_open_def sole_device_def)
  then have "find (\<lambda>x. dv_pdev (devs s1 x) = pdev) (xdev_list s @ [d]) = Some d" by (rule find)
  then show ?thesis using assms(1) by (simp add: debug_check_dev_hndl_def xdev_find_by_pdev_def hw_open_def)
qed

lemma close_list:
  assumes "\<not> debug_check_dev_hndl pdev d s < 0" and "length (dv_bar (devs s d)) = XDMA_BAR_NUM"
    and "poll_mode K = 0 \<or> remove1 d (xdev_list s) \<noteq> []"
  shows "xdev_list (xdma_device_close K pdev (Some d) s) = remove1 d (xdev_list s)"
proof -
  let ?s = "mask_interrupts K d s"
  let ?s2 = "disable_msi_msix d pdev (irq_teardown K d ?s)"
  let ?s3 = "remove_engines K (Some d) ?s2"
  obtain n where n: "devs ?s3 = (devs ?s2)(d := (devs ?s2 d)\<lparr>dv_engines_num := n\<rparr>)"
    using remove_engines_effect(3) by blast
  have "length (dv_bar (devs ?s3 d)) = XDMA_BAR_NUM"
    using assms(2) by (simp add: n disable_frame irq_teardown_frame)
  then have "xdev_list (unmap_bars d pdev ?s3) = xdev_list s"
    by (simp add: unmap_frame remove_engines_effect(2) disable_frame irq_teardown_frame)
  then show ?thesis using assms(3)
    unfolding close_is_stages [OF assms(1)] by (auto simp: stage_undo_def xdev_list_remove_def Let_def)
qed

abbreviation all_stages :: "stage list" where
  "all_stages \<equiv> St_lines # St_msi # below_msi"

lemma close_gives_back:
  assumes "\<not> debug_check_dev_hndl pdev d s < 0" and "\<forall>st\<in>set all_stages. stage_valid K d st s"
  shows "held r (xdma_device_close K pdev (Some d) s) =
    held r s - int (count_list (concat (map (\<lambda>st. stage_owns K d pdev st s) all_stages)) r)"
proof -
  define sm where "sm = mask_interrupts K d s"
  have sm: "stage_owns K d pdev st sm = stage_owns K d pdev st s" "stage_valid K d st sm = stage_valid K d st s" for st
    using flags_stages [of sm s d "dv_flags (devs s d)"] by (simp_all add: sm_def)
  have "sorted_wrt earlier all_stages" "\<forall>st\<in>set all_stages. stage_valid K d st sm"
    using assms(2) by (simp_all add: earlier_def sm)
  from st.undo_all [OF this, where pdev = pdev and r = r] held_notices [of sm s r] show ?thesis
    unfolding close_is_stages [OF assms(1)] sm_def [symmetric]
    by (simp add: st.all_owned_def sm) (simp add: sm_def)
qed

lemma engine_bits_separate:
  assumes "device_up d s"
  shows "separate_bits s d H2C [0..<dv_h2c_channel_max (devs s d)]" and "separate_bits s d C2H [0..<dv_c2h_channel_max (devs s d)]"
    and "i < dv_h2c_channel_max (devs s d) \<Longrightarrow> j < dv_c2h_channel_max (devs s d) \<Longrightarrow>
      e_irq_bitmask (engs s (d, H2C, i)) AND e_irq_bitmask (engs s (d, C2H, j)) = 0"
  using assms by (auto simp: device_up_def engine_up_def separate_bits_def intro!: irq_bit_disjoint)

subsection \<open>A cooperating kernel\<close>

text \<open>When nothing the driver asks for is refused, opening succeeds.\<close>

definition cooperative :: "'k denv_scheme \<Rightarrow> nat \<Rightarrow> drv \<Rightarrow> bool" where
  "cooperative K pdev s \<longleftrightarrow> pdev \<noteq> 0 \<and> kzalloc_dev K (notices s) \<noteq> None \<and> pci_enable_device K pdev = 0 \<and>
     pci_request_regions K pdev = 0 \<and> pci_set_dma_mask K pdev 64 = 0 \<and> (\<forall>n. 0 \<le> pci_alloc_irq_vectors K pdev n) \<and>
     0 \<le> pci_enable_msi K pdev \<and> (\<forall>l i. request_irq K l i = 0) \<and> pci_read_config_byte K pdev PCI_INTERRUPT_PIN \<noteq> 0 \<and>
     (\<forall>d s. dv_bar (devs s d) = replicate XDMA_BAR_NUM 0 \<longrightarrow> dv_config_bar_idx (devs s d) = -1 \<longrightarrow> fst (map_bars K d pdev s) = 0)"

lemma irq_setup_succeeds:
  assumes "\<forall>l i. request_irq K l i = 0" and "pci_read_config_byte K pdev PCI_INTERRUPT_PIN \<noteq> 0"
  shows "fst (irq_setup K d pdev s) = 0"
proof -
  have ask: "fst (ask_irq K line cookie s) = 0" for line cookie s
    using assms(1) by (simp add: ask_irq_def Let_def)
  have chan: "fst (setup_loop K d sd j cs s) = 0" for sd j cs s
    by (induction cs arbitrary: s) (simp_all add: Let_def case_prod_unfold ask)
  have user: "fst (user_setup_loop K d j us s) = 0" for j us s
    by (induction us arbitrary: s) (simp_all add: Let_def case_prod_unfold ask)
  show ?thesis
    using assms(2)
    by (simp add: irq_setup_def irq_msix_channel_setup_def irq_msix_user_setup_def irq_msi_setup_def
        irq_legacy_setup_def Let_def case_prod_unfold ask chan user)
qed

lemma open_pci_succeeds:
  assumes "cooperative K pdev s" and "threads_kept K s"
  obtains d sa where "open_pci K mname pdev u h c s = (Some d, sa)"
proof -
  obtain d where d: "kzalloc_dev K (notices s) = Some d" using assms(1) by (auto simp: cooperative_def)
  have "fst (xdev_list_add K x y) = 0" if "threads_kept K y" for x y
    using list_add_effect [OF that, of x] by (metis fst_conv)
  then have "fst (open_pci K mname pdev u h c s) = Some d"
    using assms d
    by (simp add: open_pci_def alloc_dev_instance_def cooperative_def Let_def case_prod_unfold request_regions_def
        threads_kept_def xdma_device_flag_set_def)
  then show ?thesis using that by (metis prod.collapse)
qed

lemma open_succeeds:
  assumes "cooperative K pdev s" and "threads_kept K s" and "kernel_ok K pdev s"
  obtains x s1 where "xdma_device_open K mname pdev u h c s = (Some x, s1)"
proof -
  obtain d sa where pci: "open_pci K mname pdev u h c s = (Some d, sa)" using open_pci_succeeds [OF assms(1,2)] .
  obtain i where sa: "\<forall>e. fst e = d \<longrightarrow> engs sa e = zero_engine" "devs sa = (devs s)(d := opened_dev mname pdev u h c i)"
    using open_pci_effect [OF pci assms(2), of R_threads] assms(3) by (auto simp: kernel_ok_def)
  obtain sb where m: "map_bars K d pdev sa = (0, sb)"
    using assms(1) sa(2) by (metis cooperative_def fun_upd_same opened_fields(2,3) prod.collapse)
  have "fst (probe_engines K (Some d) x) = 0" for x by (simp add: probe_engines_def Let_def case_prod_unfold)
  then have "fst (open_hw K d pdev sa)"
    using assms(1) by (simp add: open_hw_def m set_dma_mask_def cooperative_def case_prod_unfold Let_def)
  then obtain sc where hw: "open_hw K d pdev sa = (True, sc)" by (metis prod.collapse)
  have "fst (open_irqs K d pdev y) \<noteq> None" for y
  proof -
    have "\<not> fst (enable_msi_msix K (Some d) pdev y) < 0"
      using assms(1) by (auto simp: enable_msi_msix_def cooperative_def Let_def not_less)
    moreover have "fst (irq_setup K d pdev z) = 0" for z
      using assms(1) irq_setup_succeeds [of K pdev d z] by (simp add: cooperative_def)
    ultimately show ?thesis by (simp add: open_irqs_def case_prod_unfold Let_def)
  qed
  then have "fst (xdma_device_open K mname pdev u h c s) \<noteq> None"
    by (simp add: xdma_device_open_def pci hw)
  then show ?thesis using that by (metis not_None_eq prod.collapse)
qed

text \<open>One device, a kernel that refuses nothing, and hardware with one BAR.\<close>

definition sample_denv :: denv where
  "sample_denv = benv.extend (sample_benv (sample_ienv sample_core (\<lambda>_ _. 0)))
     \<lparr>kzalloc_dev = (\<lambda>_. Some 7), pci_enable_device = (\<lambda>_. 0), pci_request_regions = (\<lambda>_. 0),
      pci_set_dma_mask = (\<lambda>_ _. 0), get_user = (\<lambda>_. Some 1)\<rparr>"

definition sample_none :: drv where
  "sample_none = sample_drv\<lparr>xdev_list := []\<rparr>"

lemma sample_kernel:
  "cooperative sample_denv 2 sample_none" "threads_kept sample_denv sample_none"
  "kernel_ok sample_denv 2 sample_none" "sole_device 2 sample_none"
proof -
  have bars: "pci_resource_len sample_denv = (\<lambda>p i. if i = 0 then 0x10000 else 0)"
      "pci_iomap sample_denv = (\<lambda>l p i n. 0x100000 + i)" "ioread32 sample_denv = sample_core"
    by (simp_all add: sample_denv_def benv.defs)
  have K: "kzalloc_dev sample_denv = (\<lambda>_. Some 7)" "pci_enable_device sample_denv = (\<lambda>_. 0)"
      "pci_request_regions sample_denv = (\<lambda>_. 0)" "pci_set_dma_mask sample_denv = (\<lambda>_ _. 0)"
      "pci_alloc_irq_vectors sample_denv = (\<lambda>p n. int n)" "pci_enable_msi sample_denv = (\<lambda>p. 0)"
      "request_irq sample_denv = (\<lambda>_ _. 0)" "pci_read_config_byte sample_denv = (\<lambda>p r. 1)"
      "pci_irq_vector sample_denv = (\<lambda>p i. 40 + of_nat (i mod 32))" "pdev_irq sample_denv = (\<lambda>p. 11)"
      "poll_mode sample_denv = 0"
    by (simp_all add: sample_denv_def benv.defs sample_benv_def ienv.defs sample_ienv_def aenv.defs)
  show "cooperative sample_denv 2 sample_none"
  proof -
    have "fst (map_bars sample_denv d 2 x) = 0"
      if "dv_bar (devs x d) = replicate XDMA_BAR_NUM 0" "dv_config_bar_idx (devs x d) = -1" for d x
      using sample_map_bars [OF bars that, of 2] by auto
    then show ?thesis by (simp add: cooperative_def K)
  qed
  show "threads_kept sample_denv sample_none" "sole_device 2 sample_none"
    by (simp_all add: threads_kept_def K sole_device_def sample_none_def)
  show "kernel_ok sample_denv 2 sample_none"
    by (simp add: kernel_ok_def fresh_alloc_def K sample_vector_nonzero sample_none_def)
qed

subsection \<open>Properties\<close>

text \<open>
  C11: Opening and closing a device balance. If opening succeeds, closing the device gives
  back exactly what opening acquired, of every resource: interrupt lines, vectors, coherent
  memory, BAR windows, regions, the PCI device and the structure itself; and the list of
  devices is as before. If opening fails, and not because the PCI regions are in use by
  another driver (then the code leaves the PCI device enabled), everything acquired on the way
  has been given back, with one exception: interrupt lines of channels. All this is for
  interrupt mode or with another device already open (\<open>threads_kept\<close>): the first device
  opened in polled mode also starts the completion threads, and some of them stay behind when
  starting them fails. The kernel's allocator and interrupt functions behave as documented
  (\<open>kernel_ok\<close>), and the PCI device is not open already.
\<close>

theorem open_close_balanced:
  assumes "xdma_device_open K mname pdev u h c s = (res, s1)"
    and "threads_kept K s" and "kernel_ok K pdev s" and "sole_device pdev s"
  shows "case res of None \<Rightarrow> pci_request_regions K pdev = 0 \<and> \<not> channel_line r \<longrightarrow> held r s1 = held r s
    | Some (d, _) \<Rightarrow> held r (xdma_device_close K pdev (Some d) s1) = held r s \<and>
        xdev_list (xdma_device_close K pdev (Some d) s1) = xdev_list s"
proof (cases res)
  case None
  then show ?thesis using open_effect [OF assms(1-3), of r] by simp
next
  case (Some x)
  obtain d um hm cm where x: "x = (d, um, hm, cm)" by (metis surj_pair)
  have acc: "accounted K d pdev r (held r s) (St_lines # St_msi # below_msi) s1" and hw: "hw_open K d pdev s s1"
    using open_effect [OF assms(1-3), of r] Some x by simp_all
  have chk: "\<not> debug_check_dev_hndl pdev d s1 < 0" using handle_known [OF hw assms(4)] by simp
  note list = close_list [OF this, of K]
  have "held r (xdma_device_close K pdev (Some d) s1) = held r s"
    using close_gives_back [OF chk, of K r] acc by (simp add: accounted_def)
  moreover have "remove1 d (xdev_list s1) = xdev_list s" using hw by (simp add: hw_open_def remove1_append)
  moreover have "length (dv_bar (devs s1 d)) = XDMA_BAR_NUM" using acc by (simp add: accounted_def stage_valid_def)
  ultimately show ?thesis using list assms(2) Some x by (simp add: threads_kept_def)
qed

theorem open_close_balanced_witness:
  "\<exists>d n s1. xdma_device_open sample_denv ''xdma'' 2 1 1 1 sample_none = (Some (d, n), s1) \<and>
     held (R_pci 2) (xdma_device_close sample_denv 2 (Some d) s1) = 0 \<and>
     xdev_list (xdma_device_close sample_denv 2 (Some d) s1) = []"
proof -
  obtain d n s1 where o: "xdma_device_open sample_denv ''xdma'' 2 1 1 1 sample_none = (Some (d, n), s1)"
    using open_succeeds [OF sample_kernel(1-3)] by (metis surj_pair)
  have "held (R_pci 2) sample_none = 0" "xdev_list sample_none = []" by (simp_all add: sample_none_def held_def)
  then show ?thesis
    using open_close_balanced [OF o sample_kernel(2-4), of "R_pci 2"] o by (intro exI) (simp split: prod.splits)
qed

text \<open>The channels of a device that is up, known and online accept submissions.\<close>

lemma channel_accepts:
  assumes "device_up d s" and "debug_check_dev_hndl (dv_pdev (devs s d)) d s = 0" and "dv_flags (devs s d) = 0"
    and "dv_h2c_channel_max (devs s d) \<le> XDMA_CHANNEL_NUM_MAX" and "dv_c2h_channel_max (devs s d) \<le> XDMA_CHANNEL_NUM_MAX"
    and "ch < (if wr then dv_h2c_channel_max (devs s d) else dv_c2h_channel_max (devs s d))"
  shows "\<exists>e. submit_checks (Some d) ch wr s = Inr e \<and> engine_ready (engs s e) \<and>
      \<not> e_running (engs s e) \<and> e_transfer_list (engs s e) = [] \<and> e_irq_bitmask (engs s e) \<noteq> 0 \<and>
      e_irq_bitmask (engs s e) AND (if wr then dv_mask_irq_h2c (devs s d) else dv_mask_irq_c2h (devs s d)) =
        e_irq_bitmask (engs s e)"
proof -
  let ?hm = "dv_h2c_channel_max (devs s d)"
  let ?sd = "if wr then H2C else C2H"
  have bound: "?hm \<le> 4" "dv_c2h_channel_max (devs s d) \<le> 4" using assms(4,5) by (simp_all add: XDMA_CHANNEL_NUM_MAX_def)
  obtain b where b: "int ?hm \<le> b" "b \<le> int ?hm + 1"
      "\<forall>j<?hm. engine_up d H2C (int j) (engs s (d, H2C, j)) \<and> dev_mask H2C (devs s d) AND irq_bit (int j) = irq_bit (int j)"
      "\<forall>j<dv_c2h_channel_max (devs s d). engine_up d C2H (b + int j) (engs s (d, C2H, j)) \<and>
         dev_mask C2H (devs s d) AND irq_bit (b + int j) = irq_bit (b + int j)"
    using assms(1) unfolding device_up_def by blast
  obtain n where n: "n < 32" "engine_up d ?sd n (engs s (d, ?sd, ch))" "dev_mask ?sd (devs s d) AND irq_bit n = irq_bit n"
  proof (cases wr)
    case True
    then show ?thesis using that [of "int ch"] b(3) assms(6) bound(1) by auto
  next
    case False
    then show ?thesis using that [of "b + int ch"] b(2,4) assms(6) bound by auto
  qed
  have "submit_checks (Some d) ch wr s = Inr (d, ?sd, ch)"
    using n(2) assms(2,3,6)
    by (auto simp: submit_checks_def engine_up_def side_dir_def xdma_device_flag_check_def)
  moreover have "irq_bit n AND (if wr then dv_mask_irq_h2c (devs s d) else dv_mask_irq_c2h (devs s d)) = irq_bit n"
    using n(3) by (simp add: dev_mask_def "and.commute" split: if_splits)
  ultimately show ?thesis using n irq_bit_nonzero [OF n(1)] by (intro exI [of _ "(d, ?sd, ch)"]) (simp add: engine_up_def)
qed

text \<open>
  C12: A device that has been opened can be used. The counts reported to the caller are the
  device's and within the hardware's limits; for every channel below them a submission
  passes its checks and reaches an engine that is ready and idle; the interrupt bits of all
  engines are non-zero, disjoint and contained in the masks the interrupt handler goes by.
  (In interrupt mode, or with another device already open: \<open>threads_kept\<close>.)
\<close>

theorem device_open_ready:
  assumes "xdma_device_open K mname pdev u h c s = (Some (d, um, hm, cm), s1)"
    and "threads_kept K s" and "kernel_ok K pdev s" and "sole_device pdev s"
  shows "um = dv_user_max (devs s1 d) \<and> um \<le> MAX_USER_IRQ \<and>
    hm = dv_h2c_channel_max (devs s1 d) \<and> hm \<le> XDMA_CHANNEL_NUM_MAX \<and>
    cm = dv_c2h_channel_max (devs s1 d) \<and> cm \<le> XDMA_CHANNEL_NUM_MAX \<and>
    separate_bits s1 d H2C [0..<hm] \<and> separate_bits s1 d C2H [0..<cm] \<and>
    (\<forall>i<hm. \<forall>j<cm. e_irq_bitmask (engs s1 (d, H2C, i)) AND e_irq_bitmask (engs s1 (d, C2H, j)) = 0) \<and>
    (\<forall>write ch. ch < (if write then hm else cm) \<longrightarrow>
       (\<exists>e. submit_checks (Some d) ch write s1 = Inr e \<and> engine_ready (engs s1 e) \<and>
          \<not> e_running (engs s1 e) \<and> e_transfer_list (engs s1 e) = [] \<and> e_irq_bitmask (engs s1 e) \<noteq> 0 \<and>
          e_irq_bitmask (engs s1 e) AND (if write then dv_mask_irq_h2c (devs s1 d) else dv_mask_irq_c2h (devs s1 d)) =
            e_irq_bitmask (engs s1 e)))"
proof -
  have hw: "hw_open K d pdev s s1" and fl: "dv_flags (devs s1 d) = 0"
    and cnt: "um = dv_user_max (devs s1 d)" "hm = dv_h2c_channel_max (devs s1 d)" "cm = dv_c2h_channel_max (devs s1 d)"
    using open_effect [OF assms(1-3)] by simp_all
  have hndl: "debug_check_dev_hndl (dv_pdev (devs s1 d)) d s1 = 0"
    using handle_known [OF hw assms(4)] hw by (simp add: hw_open_def)
  have up: "device_up d s1" using hw by (simp add: hw_open_def)
  have bound: "hm \<le> XDMA_CHANNEL_NUM_MAX" "cm \<le> XDMA_CHANNEL_NUM_MAX" using hw cnt by (simp_all add: hw_open_def)
  note accepts = channel_accepts [OF up hndl fl bound [unfolded cnt]]
  show ?thesis using hw engine_bits_separate [OF up]
    unfolding cnt by (intro conjI allI impI accepts) (simp_all add: hw_open_def)
qed

theorem device_open_ready_witness:
  "\<exists>d um hm cm s1. xdma_device_open sample_denv ''xdma'' 2 1 1 1 sample_none = (Some (d, um, hm, cm), s1) \<and>
     um \<le> 16 \<and> hm \<le> 4 \<and> separate_bits s1 d H2C [0..<hm] \<and> hm = dv_h2c_channel_max (devs s1 d)"
proof -
  obtain x s1 where "xdma_device_open sample_denv ''xdma'' 2 1 1 1 sample_none = (Some x, s1)"
    using open_succeeds [OF sample_kernel(1-3)] .
  moreover obtain d um hm cm where "x = (d, um, hm, cm)" by (metis surj_pair)
  ultimately have o: "xdma_device_open sample_denv ''xdma'' 2 1 1 1 sample_none = (Some (d, um, hm, cm), s1)" by simp
  show ?thesis
    using device_open_ready [OF o sample_kernel(2-4)] o
    by (auto simp: MAX_USER_IRQ_def XDMA_CHANNEL_NUM_MAX_def)
qed

subsection \<open>Offline\<close>

text \<open>
  Stopping engines and programming their registers changes neither what they own nor the
  lines they record, and of their shutdown state only the request bit.
\<close>

definition kin :: "xdma_engine \<Rightarrow> xdma_engine \<Rightarrow> bool" where
  "kin g h \<longleftrightarrow> e_magic h = e_magic g \<and> owned h = owned g \<and> e_msix_irq_line h = e_msix_irq_line g \<and>
     e_xdev h = e_xdev g \<and> e_dir h = e_dir g \<and> engine_ready h = engine_ready g \<and>
     e_transfer_list h = e_transfer_list g \<and> e_irq_bitmask h = e_irq_bitmask g \<and> (e_running h \<longrightarrow> e_running g) \<and>
     e_shutdown h AND NOT ENGINE_SHUTDOWN_REQUEST = e_shutdown g AND NOT ENGINE_SHUTDOWN_REQUEST"

lemma kin_refl [simp]: "kin g g" by (simp add: kin_def)

lemma kin_trans: "kin g h \<Longrightarrow> kin h k \<Longrightarrow> kin g k" by (simp add: kin_def)

definition calm :: "drv \<Rightarrow> drv \<Rightarrow> bool" where
  "calm s s' \<longleftrightarrow> devs s' = devs s \<and> xdev_list s' = xdev_list s \<and> notices s' = notices s \<and>
     (\<forall>e. kin (engs s e) (engs s' e))"

lemma set_request [simp]: "(w OR ENGINE_SHUTDOWN_REQUEST) AND NOT ENGINE_SHUTDOWN_REQUEST = w AND NOT ENGINE_SHUTDOWN_REQUEST"
  by (simp add: bit_eq_iff bit_simps) blast

lemma kin_soft:
  "kin g (g\<lparr>e_shutdown := e_shutdown g OR ENGINE_SHUTDOWN_REQUEST, e_running := False\<rparr>)"
  "kin g (g\<lparr>e_shutdown := e_shutdown g AND NOT ENGINE_SHUTDOWN_REQUEST\<rparr>)"
  "kin g (g\<lparr>e_addr_align := a, e_len_granularity := l, e_addr_bits := b\<rparr>)"
  "kin g (g\<lparr>e_interrupt_enable_mask_value := m\<rparr>)"
  "kin g (g\<lparr>e_poll_mode_addr_virt := map_option f (e_poll_mode_addr_virt g)\<rparr>)"
  by (simp_all add: kin_def owned_def engine_ready_def cong: option.case_cong)

lemma stop_engine_calm: "calm s (stop_engine K e s)"
  using kin_soft(1) by (simp add: calm_def stop_engine_def Let_def del: split_paired_All)

lemma calm_trans: "calm s s' \<Longrightarrow> calm s' s'' \<Longrightarrow> calm s s''"
  by (auto simp: calm_def del: kin_refl simp del: split_paired_All intro: kin_trans)

lemma stop_engines_calm: "calm s (fold (\<lambda>i. stop_engine K (d, sd, i)) is s)"
proof (induction "is" arbitrary: s)
  case (Cons i "is")
  then show ?case using calm_trans [OF stop_engine_calm Cons.IH] by simp
qed (simp add: calm_def)

lemma calm_stages:
  assumes "calm s s'"
  shows "stage_owns K d pdev st s' = stage_owns K d pdev st s" and "stage_valid K d st s' = stage_valid K d st s"
proof -
  have "engine_owns e s' = engine_owns e s" for e using assms by (simp add: calm_def kin_def engine_owns_def del: split_paired_All)
  moreover have "msix_lines K s' d = msix_lines K s d"
    using assms by (simp add: msix_lines_def channel_lines_def user_lines_def calm_def kin_def)
  ultimately show "stage_owns K d pdev st s' = stage_owns K d pdev st s"
    using assms by (cases st) (simp_all add: stage_owns_def Let_def calm_def dev_engines_def)
  show "stage_valid K d st s' = stage_valid K d st s"
    using assms by (cases st) (simp_all add: stage_valid_def calm_def kin_def lines_recorded_def)
qed

text \<open>Offline stops the engines, masks the interrupts and gives the lines back; the rest stays.\<close>

lemma offline_steps:
  assumes "\<not> debug_check_dev_hndl pdev d s < 0"
  obtains s' where "xdma_device_offline K pdev (Some d) s = irq_teardown K d s'"
    and "calm (xdma_device_flag_set d XDEV_FLAG_OFFLINE s) s'"
proof -
  define s0 where "s0 = xdma_device_flag_set d XDEV_FLAG_OFFLINE s"
  define s1 where "s1 = fold (\<lambda>i. stop_engine K (d, H2C, i)) [0..<dv_h2c_channel_max (devs s0 d)] s0"
  define s2 where "s2 = fold (\<lambda>i. stop_engine K (d, C2H, i)) [0..<dv_c2h_channel_max (devs s1 d)] s1"
  have "calm s0 s2" unfolding s2_def by (rule calm_trans [OF _ stop_engines_calm]) (simp add: s1_def stop_engines_calm)
  then have "calm s0 (mask_interrupts K d s2)" by (rule calm_trans) (simp add: calm_def)
  moreover have "xdma_device_offline K pdev (Some d) s = irq_teardown K d (mask_interrupts K d s2)"
    using assms by (simp add: xdma_device_offline_def s2_def s1_def s0_def Let_def)
  ultimately show ?thesis using that by (simp add: s0_def)
qed

lemma offline_effect:
  assumes "debug_check_dev_hndl pdev d s = 0" and "stage_valid K d St_lines s"
  obtains so where "xdma_device_offline K pdev (Some d) s = so" and "xdev_list so = xdev_list s"
    and "devs so = (devs s)(d := (devs s d)\<lparr>dv_flags := dv_flags (devs s d) OR XDEV_FLAG_OFFLINE\<rparr>)"
    and "\<forall>st. stage_owns K d pdev st so = stage_owns K d pdev st s \<and> stage_valid K d st so = stage_valid K d st s"
    and "\<forall>e. kin (engs s e) (engs so e)"
    and "held r so = held r s - int (count_list (stage_owns K d pdev St_lines s) r)"
    and "debug_check_dev_hndl pdev d so = 0"
proof -
  obtain s2 where off: "xdma_device_offline K pdev (Some d) s = irq_teardown K d s2"
    and calm: "calm (xdma_device_flag_set d XDEV_FLAG_OFFLINE s) s2"
    using offline_steps [of pdev d s K] assms(1) by auto
  define so where "so = irq_teardown K d s2"
  have so: "devs so = devs s2" "engs so = engs s2" "xdev_list so = xdev_list s2"
    by (simp_all add: so_def irq_teardown_frame)
  have flag: "stage_owns K d pdev st (xdma_device_flag_set d XDEV_FLAG_OFFLINE s) = stage_owns K d pdev st s"
      "stage_valid K d st (xdma_device_flag_set d XDEV_FLAG_OFFLINE s) = stage_valid K d st s" for st
    using flags_stages [of "xdma_device_flag_set d XDEV_FLAG_OFFLINE s" s d "dv_flags (devs s d) OR XDEV_FLAG_OFFLINE"]
    by (simp_all add: xdma_device_flag_set_def)
  have s2: "stage_owns K d pdev st s2 = stage_owns K d pdev st s" "stage_valid K d st s2 = stage_valid K d st s" for st
    by (simp_all only: calm_stages [OF calm] flag)
  have stages: "stage_owns K d pdev st so = stage_owns K d pdev st s" "stage_valid K d st so = stage_valid K d st s" for st
    using flags_stages [where s' = so and s = s2 and d = d and f = "dv_flags (devs s2 d)" and K = K] so s2 by simp_all
  have dso: "devs so = (devs s)(d := (devs s d)\<lparr>dv_flags := dv_flags (devs s d) OR XDEV_FLAG_OFFLINE\<rparr>)"
      "xdev_list so = xdev_list s" "notices s2 = notices s"
    using calm so by (simp_all add: calm_def xdma_device_flag_set_def)
  have eng: "\<forall>e. kin (engs s e) (engs so e)"
    using calm by (simp add: calm_def so(2) xdma_device_flag_set_def)
  have "(\<lambda>x. dv_pdev (devs so x) = pdev) = (\<lambda>x. dv_pdev (devs s x) = pdev)" by (simp add: dso(1) fun_eq_iff)
  then have "xdev_find_by_pdev pdev so = xdev_find_by_pdev pdev s" by (simp add: xdev_find_by_pdev_def dso(2))
  then have known: "debug_check_dev_hndl pdev d so = 0" using assms(1) by (simp only: debug_check_dev_hndl_def)
  have "held r so = held r s - int (count_list (stage_owns K d pdev St_lines s) r)"
    using stage_gives_back [of K d St_lines s2 r pdev] assms(2) s2 held_notices [OF dso(3), of r]
    by (simp add: stage_undo_def so_def)
  then show ?thesis using that [of so] off dso(1,2) stages eng known by (simp add: so_def)
qed

text \<open>A device that is up and offline refuses every submission.\<close>

lemma offline_refuses:
  assumes "device_up d s" and "debug_check_dev_hndl pdev d s = 0" and "stage_valid K d St_lines s" and "dv_pdev (devs s d) = pdev"
    and "ch < (if wr then dv_h2c_channel_max (devs s d) else dv_c2h_channel_max (devs s d))"
  shows "submit_checks (Some d) ch wr (xdma_device_offline K pdev (Some d) s) = Inl (- EBUSY)"
proof -
  let ?e = "(d, if wr then H2C else C2H, ch)"
  from offline_effect [OF assms(2,3)] obtain so where off: "xdma_device_offline K pdev (Some d) s = so"
    and dso: "devs so = (devs s)(d := (devs s d)\<lparr>dv_flags := dv_flags (devs s d) OR XDEV_FLAG_OFFLINE\<rparr>)"
    and eng: "\<forall>e. kin (engs s e) (engs so e)" and known: "debug_check_dev_hndl pdev d so = 0" by metis
  have "e_magic (engs s ?e) = MAGIC_ENGINE \<and> e_xdev (engs s ?e) = Some d"
    using assms(1,5) by (auto simp: device_up_def engine_up_def)
  then have "e_magic (engs so ?e) = MAGIC_ENGINE \<and> e_xdev (engs so ?e) = Some d" using eng by (simp add: kin_def)
  moreover have "xdma_device_flag_check d XDEV_FLAG_OFFLINE so = 1"
    by (simp add: xdma_device_flag_check_def dso word_or_and_absorb XDEV_FLAG_OFFLINE_def)
  ultimately show ?thesis using known assms(4,5) by (auto simp: submit_checks_def dso off)
qed

text \<open>
  C25: Taking a device offline and closing it. Once a device is offline every submission to one
  of its channels is refused with \<open>-EBUSY\<close>. But the interrupt lines that \<open>xdma_device_offline\<close>
  frees are not marked as freed: closing the device afterwards, as the driver does when it is
  removed after a fatal error, frees each of them a second time. (In interrupt mode, or with
  another device already open: \<open>threads_kept\<close>.)
\<close>

theorem offline_close_frees_twice:
  assumes "xdma_device_open K mname pdev u h c s = (Some (d, um, hm, cm), s1)"
    and "threads_kept K s" and "kernel_ok K pdev s" and "sole_device pdev s"
  shows "(\<forall>write ch. ch < (if write then hm else cm) \<longrightarrow>
       submit_checks (Some d) ch write (xdma_device_offline K pdev (Some d) s1) = Inl (- EBUSY)) \<and>
    stage_owns K d pdev St_lines s1 \<noteq> [] \<and>
    held r (xdma_device_close K pdev (Some d) (xdma_device_offline K pdev (Some d) s1)) =
      held r s - int (count_list (stage_owns K d pdev St_lines s1) r)"
proof -
  have acc: "accounted K d pdev r (held r s) all_stages s1" and hw: "hw_open K d pdev s s1"
    and cnt: "hm = dv_h2c_channel_max (devs s1 d)" "cm = dv_c2h_channel_max (devs s1 d)"
    and ne: "stage_owns K d pdev St_lines s1 \<noteq> []"
    using open_effect [OF assms(1-3), of r] by simp_all
  have chk: "debug_check_dev_hndl pdev d s1 = 0" by (rule handle_known [OF hw assms(4)])
  have valid: "stage_valid K d St_lines s1" using acc by (simp add: accounted_def)
  from offline_effect [OF chk valid, of r] obtain so where off: "xdma_device_offline K pdev (Some d) s1 = so"
    and stages: "\<forall>st. stage_owns K d pdev st so = stage_owns K d pdev st s1 \<and> stage_valid K d st so = stage_valid K d st s1"
    and heldso: "held r so = held r s1 - int (count_list (stage_owns K d pdev St_lines s1) r)"
    and known: "debug_check_dev_hndl pdev d so = 0" by metis
  have "held r (xdma_device_close K pdev (Some d) so) = held r s - int (count_list (stage_owns K d pdev St_lines s1) r)"
    using close_gives_back [of pdev d so K r] known acc stages heldso by (simp add: accounted_def)
  moreover have "device_up d s1" "dv_pdev (devs s1 d) = pdev" using hw by (simp_all add: hw_open_def)
  note refuses = offline_refuses [OF this(1) chk valid this(2)]
  ultimately show ?thesis using ne refuses by (simp add: off cnt)
qed

theorem offline_close_frees_twice_witness:
  "\<exists>d n s1. xdma_device_open sample_denv ''xdma'' 2 1 1 1 sample_none = (Some (d, n), s1) \<and>
     (\<exists>r. held r (xdma_device_close sample_denv 2 (Some d) (xdma_device_offline sample_denv 2 (Some d) s1)) < 0)"
proof -
  obtain d um hm cm s1 where o: "xdma_device_open sample_denv ''xdma'' 2 1 1 1 sample_none = (Some (d, um, hm, cm), s1)"
    using open_succeeds [OF sample_kernel(1-3)] by (metis surj_pair)
  note twice = offline_close_frees_twice [OF o sample_kernel(2-4)]
  then obtain r rs where "stage_owns sample_denv d 2 St_lines s1 = r # rs" by (meson neq_Nil_conv)
  moreover have "held r sample_none = 0" by (simp add: sample_none_def held_def)
  ultimately have "held r (xdma_device_close sample_denv 2 (Some d) (xdma_device_offline sample_denv 2 (Some d) s1)) < 0"
    using twice [of r] by simp
  then show ?thesis using o by blast
qed

end
