(* ===== verification/Xdma_Recovery.thy ===== *)
theory Xdma_Recovery
  imports Xdma_Lifecycle
begin

text \<open>
  Taking a device offline and bringing it back (\<open>xdma_device_offline\<close>,
  \<open>xdma_device_online\<close>): the engines come up as they were, the interrupt lines are
  requested again and what the device holds is accounted for as before.
\<close>

subsection \<open>Restarting the engines\<close>

lemma init_regs_calm: "calm s (snd (engine_init_regs K e s))"
proof -
  define s1 where "s1 = engine_alignments K e (write_register XDMA_CTRL_NON_INCR_ADDR (e_regs (engs s e) + er_control_w1c) s)"
  define s2 where "s2 = (if poll_mode K \<noteq> 0 then snd (engine_writeback_setup (Some e) s1) else s1)"
  have "calm s s1"
    using kin_soft(3) by (simp add: s1_def calm_def engine_alignments_def Let_def case_prod_unfold del: split_paired_All)
  moreover have "calm s1 s2"
    using kin_soft(5) [of "engs s1 e"]
    by (simp add: s2_def calm_def engine_writeback_setup_def Let_def split: option.split del: split_paired_All)
  moreover have "calm s2 (snd (engine_init_regs K e s))"
    using kin_soft(4)
    by (simp add: engine_init_regs_def s1_def calm_def Let_def case_prod_unfold s2_def del: split_paired_All)
  ultimately show ?thesis using calm_trans by blast
qed

lemma restart_calm: "calm s (restart_engine K e s)"
proof -
  let ?s = "snd (engine_init_regs K e s)"
  have "calm ?s (upd_eng e (\<lambda>g. g\<lparr>e_shutdown := e_shutdown g AND NOT ENGINE_SHUTDOWN_REQUEST\<rparr>) ?s)"
    using kin_soft(2) by (simp add: calm_def del: split_paired_All)
  from calm_trans [OF init_regs_calm this] show ?thesis
    by (simp add: restart_engine_def calm_def Let_def del: split_paired_All)
qed

text \<open>A restarted engine has no shutdown request, and restarting one does not give another a request.\<close>

definition wanted_up :: "xdma_engine \<Rightarrow> bool" where
  "wanted_up g \<longleftrightarrow> e_shutdown g AND ENGINE_SHUTDOWN_REQUEST = 0"

lemma init_regs_shutdown: "e_shutdown (engs (snd (engine_init_regs K e s)) x) = e_shutdown (engs s x)"
  by (simp add: engine_init_regs_def engine_alignments_def engine_writeback_setup_def Let_def case_prod_unfold
      split: option.split)

lemma restart_wanted:
  "e_magic (engs s e) = MAGIC_ENGINE \<Longrightarrow> wanted_up (engs (restart_engine K e s) e)"
  "wanted_up (engs s x) \<Longrightarrow> wanted_up (engs (restart_engine K e s) x)"
  by (simp_all add: restart_engine_def Let_def wanted_up_def init_regs_shutdown and.assoc ENGINE_SHUTDOWN_REQUEST_def)

lemma restart_fold_calm: "calm s (fold (\<lambda>i. restart_engine K (d, sd, i)) is s)"
proof (induction "is" arbitrary: s)
  case (Cons i "is")
  then show ?case using calm_trans [OF restart_calm Cons.IH] by simp
qed (simp add: calm_def)

lemma restart_fold_keeps:
  "wanted_up (engs s x) \<Longrightarrow> wanted_up (engs (fold (\<lambda>i. restart_engine K (d, sd, i)) is s) x)"
  by (induction "is" arbitrary: s) (simp_all add: restart_wanted(2))

lemma restart_fold_wanted:
  "j \<in> set is \<Longrightarrow> e_magic (engs s (d, sd, j)) = MAGIC_ENGINE \<Longrightarrow>
   wanted_up (engs (fold (\<lambda>i. restart_engine K (d, sd, i)) is s) (d, sd, j))"
proof (induction "is" arbitrary: s)
  case (Cons i "is")
  have "e_magic (engs (restart_engine K (d, sd, i) s) (d, sd, j)) = MAGIC_ENGINE"
    using restart_calm [of s K "(d, sd, i)"] Cons.prems(2) by (simp add: calm_def kin_def)
  then have "j \<in> set is \<Longrightarrow> ?case" using Cons.IH by simp
  moreover have "?case" if "j = i"
    using restart_fold_keeps [OF restart_wanted(1) [OF Cons.prems(2)]] that by simp
  ultimately show ?case using Cons.prems(1) by auto
qed simp

subsection \<open>Back online\<close>

lemma online_steps:
  assumes "\<not> debug_check_dev_hndl pdev d s < 0" and "poll_mode K = 0"
  obtains s2 so where "calm s s2" and "so = xdma_device_online K pdev (Some d) s"
    and "\<forall>j<dv_h2c_channel_max (devs s d). e_magic (engs s (d, H2C, j)) = MAGIC_ENGINE \<longrightarrow> wanted_up (engs s2 (d, H2C, j))"
    and "\<forall>j<dv_c2h_channel_max (devs s d). e_magic (engs s (d, C2H, j)) = MAGIC_ENGINE \<longrightarrow> wanted_up (engs s2 (d, C2H, j))"
    and "engs so = engs (snd (irq_setup K d pdev s2))" and "xdev_list so = xdev_list (snd (irq_setup K d pdev s2))"
    and "notices so = notices (snd (irq_setup K d pdev s2))"
    and "devs so = (devs (snd (irq_setup K d pdev s2)))
      (d := (devs (snd (irq_setup K d pdev s2)) d)\<lparr>dv_flags := dv_flags (devs (snd (irq_setup K d pdev s2)) d) AND NOT XDEV_FLAG_OFFLINE\<rparr>)"
proof -
  define s1 where "s1 = fold (\<lambda>i. restart_engine K (d, H2C, i)) [0..<dv_h2c_channel_max (devs s d)] s"
  define s2 where "s2 = fold (\<lambda>i. restart_engine K (d, C2H, i)) [0..<dv_c2h_channel_max (devs s1 d)] s1"
  define s3 where "s3 = snd (irq_setup K d pdev s2)"
  have c1: "calm s s1" and c2: "calm s1 s2" by (simp_all add: s1_def s2_def restart_fold_calm)
  have same: "devs s1 = devs s" "\<And>e. e_magic (engs s1 e) = e_magic (engs s e)"
    using c1 by (simp_all add: calm_def kin_def del: split_paired_All)
  define s4 where "s4 = snd (read_interrupts K d (user_interrupts_enable d (dv_mask_irq_user (devs s3 d)) (channel_interrupts_enable d (-1) s3)))"
  have s4: "engs s4 = engs s3" "xdev_list s4 = xdev_list s3" "notices s4 = notices s3" "devs s4 = devs s3"
    by (simp_all add: s4_def read_interrupts_def user_interrupts_enable_def channel_interrupts_enable_def Let_def case_prod_unfold)
  have "xdma_device_online K pdev (Some d) s = xdma_device_flag_clear d XDEV_FLAG_OFFLINE s4"
    using assms
    by (simp add: xdma_device_online_def s1_def [symmetric] s2_def [symmetric] Let_def s3_def [symmetric])
      (simp add: s4_def channel_interrupts_enable_def Let_def)
  moreover have "wanted_up (engs s2 (d, H2C, j))" if "j < dv_h2c_channel_max (devs s d)" "e_magic (engs s (d, H2C, j)) = MAGIC_ENGINE" for j
    unfolding s2_def s1_def using that by (intro restart_fold_keeps restart_fold_wanted) simp_all
  moreover have "wanted_up (engs s2 (d, C2H, j))" if "j < dv_c2h_channel_max (devs s d)" "e_magic (engs s (d, C2H, j)) = MAGIC_ENGINE" for j
    unfolding s2_def using that same by (intro restart_fold_wanted) simp_all
  ultimately show ?thesis
    using that [OF calm_trans [OF c1 c2] refl] s4 by (simp add: s3_def [symmetric] xdma_device_flag_clear_def)
qed

lemma engine_up_again:
  assumes "engine_up d sd n g" and "kin g h" and "wanted_up h"
  shows "engine_up d sd n h"
proof -
  have "e_shutdown h AND NOT ENGINE_SHUTDOWN_REQUEST = 0" "e_shutdown h AND ENGINE_SHUTDOWN_REQUEST = 0"
    using assms by (simp_all add: engine_up_def kin_def wanted_up_def)
  then have "e_shutdown h = 0" by (simp add: bit_eq_iff bit_simps)
  then show ?thesis using assms(1,2) by (auto simp: engine_up_def kin_def)
qed

lemma device_up_again:
  assumes "device_up d s" and "\<And>sd j. kin (engs s (d, sd, j)) (engs s' (d, sd, j))"
    and "\<forall>j<dv_h2c_channel_max (devs s d). e_magic (engs s (d, H2C, j)) = MAGIC_ENGINE \<longrightarrow> wanted_up (engs s' (d, H2C, j))"
    and "\<forall>j<dv_c2h_channel_max (devs s d). e_magic (engs s (d, C2H, j)) = MAGIC_ENGINE \<longrightarrow> wanted_up (engs s' (d, C2H, j))"
    and "devs s' d = (devs s d)\<lparr>dv_flags := f\<rparr>"
  shows "device_up d s'"
proof -
  obtain b where b: "int (dv_h2c_channel_max (devs s d)) \<le> b \<and> b \<le> int (dv_h2c_channel_max (devs s d)) + 1 \<and>
     (\<forall>j<dv_h2c_channel_max (devs s d). engine_up d H2C (int j) (engs s (d, H2C, j)) \<and>
        dev_mask H2C (devs s d) AND irq_bit (int j) = irq_bit (int j)) \<and>
     (\<forall>j<dv_c2h_channel_max (devs s d). engine_up d C2H (b + int j) (engs s (d, C2H, j)) \<and>
        dev_mask C2H (devs s d) AND irq_bit (b + int j) = irq_bit (b + int j))"
    using assms(1) unfolding device_up_def by blast
  have "engine_up d sd n (engs s' (d, sd, j))"
    if "engine_up d sd n (engs s (d, sd, j))" "e_magic (engs s (d, sd, j)) = MAGIC_ENGINE \<Longrightarrow> wanted_up (engs s' (d, sd, j))"
    for sd n j
    using engine_up_again [OF that(1) assms(2)] that by (simp add: engine_up_def)
  with b assms(3,4) show ?thesis
    unfolding device_up_def by (intro exI [of _ b]) (simp add: assms(5) dev_mask_def)
qed

text \<open>
  Offline and back, with anything in between that leaves the driver's data alone: if the lines can
  be requested again, the device is up, online and known, and accounts for what it holds.
\<close>

definition irqs_granted :: "'k denv_scheme \<Rightarrow> nat \<Rightarrow> bool" where
  "irqs_granted K pdev \<longleftrightarrow> (\<forall>l i. request_irq K l i = 0) \<and> pci_read_config_byte K pdev PCI_INTERRUPT_PIN \<noteq> 0 \<and>
     (\<forall>p i. pci_irq_vector K p i \<noteq> 0) \<and> pdev_irq K pdev \<noteq> -1"

lemma check_cong:
  assumes "xdev_list s' = xdev_list s" and "\<forall>y. dv_pdev (devs s' y) = dv_pdev (devs s y)"
  shows "debug_check_dev_hndl pdev d s' = debug_check_dev_hndl pdev d s"
  using assms by (simp add: debug_check_dev_hndl_def xdev_find_by_pdev_def)

lemma back_online:
  assumes up: "device_up d s1" and chk: "debug_check_dev_hndl pdev d s1 = 0" and fl: "dv_flags (devs s1 d) = 0"
    and acc: "accounted K d pdev r b all_stages s1" and K: "irqs_granted K pdev" "poll_mode K = 0"
    and s2: "devs s2 = devs (xdma_device_offline K pdev (Some d) s1)" "engs s2 = engs (xdma_device_offline K pdev (Some d) s1)"
      "xdev_list s2 = xdev_list (xdma_device_offline K pdev (Some d) s1)"
      "held r s2 = held r (xdma_device_offline K pdev (Some d) s1)"
  defines "s3 \<equiv> xdma_device_online K pdev (Some d) s2"
  shows "accounted K d pdev r b all_stages s3" and "device_up d s3" and "debug_check_dev_hndl pdev d s3 = 0"
    and "\<exists>l. devs s3 = (devs s1)(d := (devs s1 d)\<lparr>dv_irq_line := l, dv_flags := 0\<rparr>)"
proof -
  have vl: "stage_valid K d St_lines s1" using acc by (simp add: accounted_def)
  from offline_effect [OF chk vl, of r] obtain so where off: "xdma_device_offline K pdev (Some d) s1 = so"
    and dso: "devs so = (devs s1)(d := (devs s1 d)\<lparr>dv_flags := XDEV_FLAG_OFFLINE\<rparr>)" and lso: "xdev_list so = xdev_list s1"
    and stages: "\<forall>st. stage_owns K d pdev st so = stage_owns K d pdev st s1 \<and> stage_valid K d st so = stage_valid K d st s1"
    and kin: "\<forall>e. kin (engs s1 e) (engs so e)"
    and heldso: "held r so = held r s1 - int (count_list (stage_owns K d pdev St_lines s1) r)"
    and known: "debug_check_dev_hndl pdev d so = 0" using fl by (metis or.left_neutral)
  have "accounted K d pdev r b (St_msi # below_msi) so"
    using acc stages heldso by (simp add: accounted_def)
  moreover have same2: "devs s2 = devs so" "engs s2 = engs so" "xdev_list s2 = xdev_list so" "held r s2 = held r so"
    using s2 off by simp_all
  moreover have "stage_owns K d pdev st s2 = stage_owns K d pdev st so" "stage_valid K d st s2 = stage_valid K d st so" for st
    by (rule soft_stages; simp add: same2)+
  ultimately have acc2: "accounted K d pdev r b (St_msi # below_msi) s2" by (simp add: accounted_def)
  have find: "debug_check_dev_hndl pdev d x = 0" if "xdev_list x = xdev_list s1" "\<forall>y. dv_pdev (devs x y) = dv_pdev (devs s1 y)" for x
    using chk check_cong [OF that] by simp
  have chk2: "\<not> debug_check_dev_hndl pdev d s2 < 0" using find [of s2] same2 lso by (simp add: dso)
  from online_steps [OF this K(2)] obtain sc where calm: "calm s2 sc"
    and h2c: "\<forall>j<dv_h2c_channel_max (devs s2 d). e_magic (engs s2 (d, H2C, j)) = MAGIC_ENGINE \<longrightarrow> wanted_up (engs sc (d, H2C, j))"
    and c2h: "\<forall>j<dv_c2h_channel_max (devs s2 d). e_magic (engs s2 (d, C2H, j)) = MAGIC_ENGINE \<longrightarrow> wanted_up (engs sc (d, C2H, j))"
    and s3: "engs s3 = engs (snd (irq_setup K d pdev sc))" "xdev_list s3 = xdev_list (snd (irq_setup K d pdev sc))"
      "notices s3 = notices (snd (irq_setup K d pdev sc))"
      "devs s3 = (devs (snd (irq_setup K d pdev sc)))
        (d := (devs (snd (irq_setup K d pdev sc)) d)\<lparr>dv_flags := dv_flags (devs (snd (irq_setup K d pdev sc)) d) AND NOT XDEV_FLAG_OFFLINE\<rparr>)"
    unfolding s3_def by metis
  have accc: "accounted K d pdev r b (St_msi # below_msi) sc"
  proof (rule accounted_cong [OF acc2])
    show "held r sc = held r s2" using calm by (intro held_notices) (simp add: calm_def)
  qed (simp add: calm_stages [OF calm])
  obtain sl where irq: "irq_setup K d pdev sc = (0, sl)"
    using irq_setup_succeeds [of K pdev d sc] K(1) by (metis irqs_granted_def prod.collapse)
  have "accounted K d pdev r b all_stages sl"
    using irq_setup_accounted(1) [OF irq accc] K(1) by (simp add: irqs_granted_def)
  then show "accounted K d pdev r b all_stages s3"
    by (rule accounted_flags) (use s3 irq in simp_all)
  obtain l where l: "devs sl = (devs sc)(d := (devs sc d)\<lparr>dv_irq_line := l\<rparr>)"
    using irq_setup_frame(3) [of K d pdev sc] irq by auto
  have d3: "devs s3 = (devs s1)(d := (devs s1 d)\<lparr>dv_irq_line := l, dv_flags := 0\<rparr>)"
    using s3(4) irq l calm same2(1) fl by (simp add: calm_def dso XDEV_FLAG_OFFLINE_def)
  then show "\<exists>l. devs s3 = (devs s1)(d := (devs s1 d)\<lparr>dv_irq_line := l, dv_flags := 0\<rparr>)" by blast
  have "xdev_list s3 = xdev_list s1"
    using s3(2) irq irq_setup_frame(2) [of K d pdev sc] calm same2(3) lso by (simp add: calm_def)
  then show "debug_check_dev_hndl pdev d s3 = 0" by (rule find) (simp add: d3)
  have "device_up d sc"
  proof (rule device_up_again [OF up])
    show "kin (engs s1 (d, sd, j)) (engs sc (d, sd, j))" for sd j
      using kin_trans [of "engs s1 (d, sd, j)" "engs s2 (d, sd, j)"] kin calm same2(2) by (simp add: calm_def)
    show "devs sc d = (devs s1 d)\<lparr>dv_flags := XDEV_FLAG_OFFLINE\<rparr>" using calm by (simp add: calm_def same2(1) dso)
  qed (use h2c c2h kin in \<open>simp_all add: same2(1,2) dso kin_def\<close>)
  then show "device_up d s3"
    by (rule device_up_cong) (use irq_setup_frame(1) calm in \<open>simp_all add: s3(1) d3 calm_def same2(1) dso dev_mask_def\<close>)
qed

text \<open>The channels refuse submissions in between and accept them again afterwards.\<close>

definition accepts :: "nat \<Rightarrow> nat \<Rightarrow> bool \<Rightarrow> drv \<Rightarrow> bool" where
  "accepts d ch wr s \<longleftrightarrow> (\<exists>e. submit_checks (Some d) ch wr s = Inr e \<and> engine_ready (engs s e) \<and>
     \<not> e_running (engs s e) \<and> e_transfer_list (engs s e) = [])"

lemma up_accepts:
  assumes "device_up d s" and "debug_check_dev_hndl (dv_pdev (devs s d)) d s = 0" and "dv_flags (devs s d) = 0"
    and "dv_h2c_channel_max (devs s d) \<le> XDMA_CHANNEL_NUM_MAX" and "dv_c2h_channel_max (devs s d) \<le> XDMA_CHANNEL_NUM_MAX"
    and "ch < (if wr then dv_h2c_channel_max (devs s d) else dv_c2h_channel_max (devs s d))"
  shows "accepts d ch wr s"
  using channel_accepts [OF assms] unfolding accepts_def by blast

lemma offline_online:
  assumes "device_up d s1" and "debug_check_dev_hndl pdev d s1 = 0" and "dv_flags (devs s1 d) = 0"
    and "accounted K d pdev r b all_stages s1" and "irqs_granted K pdev" "poll_mode K = 0" and "dv_pdev (devs s1 d) = pdev"
    and "dv_h2c_channel_max (devs s1 d) \<le> XDMA_CHANNEL_NUM_MAX" and "dv_c2h_channel_max (devs s1 d) \<le> XDMA_CHANNEL_NUM_MAX"
    and "devs s2 = devs (xdma_device_offline K pdev (Some d) s1)" "engs s2 = engs (xdma_device_offline K pdev (Some d) s1)"
      "xdev_list s2 = xdev_list (xdma_device_offline K pdev (Some d) s1)"
      "held r s2 = held r (xdma_device_offline K pdev (Some d) s1)"
  shows "ch < (if wr then dv_h2c_channel_max (devs s1 d) else dv_c2h_channel_max (devs s1 d)) \<Longrightarrow>
      submit_checks (Some d) ch wr (xdma_device_offline K pdev (Some d) s1) = Inl (- EBUSY) \<and>
      accepts d ch wr (xdma_device_online K pdev (Some d) s2)"
    and "held r (xdma_device_close K pdev (Some d) (xdma_device_online K pdev (Some d) s2)) = b"
proof -
  let ?s3 = "xdma_device_online K pdev (Some d) s2"
  note online = back_online [OF assms(1-6,10-13)]
  show "held r (xdma_device_close K pdev (Some d) ?s3) = b"
    using close_gives_back [of pdev d ?s3 K r] online(1,3) by (simp add: accounted_def)
  obtain l where d3: "devs ?s3 = (devs s1)(d := (devs s1 d)\<lparr>dv_irq_line := l, dv_flags := 0\<rparr>)" using online(4) by blast
  assume ch: "ch < (if wr then dv_h2c_channel_max (devs s1 d) else dv_c2h_channel_max (devs s1 d))"
  have f: "dv_flags (devs ?s3 d) = 0" "dv_pdev (devs ?s3 d) = pdev" "dv_h2c_channel_max (devs ?s3 d) = dv_h2c_channel_max (devs s1 d)"
      "dv_c2h_channel_max (devs ?s3 d) = dv_c2h_channel_max (devs s1 d)"
    by (simp_all add: d3 assms(7))
  have "accepts d ch wr ?s3" by (rule up_accepts) (use online(2,3) assms(8,9) ch f in \<open>simp_all split: if_splits\<close>)
  moreover have "stage_valid K d St_lines s1" using assms(4) by (simp add: accounted_def)
  ultimately show "submit_checks (Some d) ch wr (xdma_device_offline K pdev (Some d) s1) = Inl (- EBUSY) \<and> accepts d ch wr ?s3"
    using offline_refuses [OF assms(1,2) _ assms(7) ch] by blast
qed

end
