(* ===== verification/Nupa_Probe.thy ===== *)
theory Nupa_Probe
  imports Nupa_Debug Xdma_Recovery
begin

text \<open>
  The PCI driver of src/src/nupanet_main.c: binding to a device (\<open>probe_one\<close>), unbinding
  (\<open>remove_one\<close>) and the PCI error handlers. It puts the parts together: the DMA device of
  libxdma.c, the shared memory with its packet ring, the character device of debug.c and
  the network device.

  The PCI core, the network core and the kernel's threads are parameters (\<open>netif_napi_del\<close> is
  told whether the context is listed, its device and its \<open>thread\<close>, and says what it gives back,
  or \<open>None\<close> when it oopses); what the driver
  obtains from them and gives back is written to the logs of the two parts. An access through
  a pointer that is \<open>NULL\<close> and an index below an array are \<open>Out_of_range\<close>.
\<close>

subsection \<open>Parameters and state\<close>

record penv = denv +
  alloc_etherdev :: "nat option"
  pci_ioremap_wc_bar :: "nat \<Rightarrow> int \<Rightarrow> u64"
  pdev_device :: "nat \<Rightarrow> int"
  register_netdev :: int
  kthread_run_poll :: kptr
  netif_napi_del :: "bool \<Rightarrow> nat \<Rightarrow> kptr \<Rightarrow> dbg_event list option"
  pci_enable_device_mem :: "nat \<Rightarrow> int"

definition pci_ids :: "(int \<times> int) list" where
  "pci_ids = [(0x10ee, 0x9048), (0x10ee, 0x9148)]"

record pci_shm_info =
  shm_vaddr :: u64
  shm_length :: int

text \<open>
  The adapter with its character device and its network device; \<open>cd_drvdata\<close> says whether
  the PCI device points to the adapter.
\<close>

record card =
  cd_dbg :: dbg
  cd_shm_info :: pci_shm_info
  cd_netdev :: nat
  cd_dev_addr :: "u8 list"
  cd_name :: string
  cd_poll_thread :: kptr
  cd_drvdata :: bool

abbreviation card_drv :: "card \<Rightarrow> drv" where "card_drv C \<equiv> n_drv (dg_net (cd_dbg C))"
abbreviation card_adapter :: "card \<Rightarrow> nupanet_adapter" where "card_adapter C \<equiv> n_adapter (dg_net (cd_dbg C))"
abbreviation card_shm :: "card \<Rightarrow> shm" where "card_shm C \<equiv> n_shm (dg_net (cd_dbg C))"

definition logc :: "dbg_event \<Rightarrow> card \<Rightarrow> card" where
  "logc x C = C\<lparr>cd_dbg := logd x (cd_dbg C)\<rparr>"

definition upd_net :: "(net \<Rightarrow> net) \<Rightarrow> card \<Rightarrow> card" where
  "upd_net f C = C\<lparr>cd_dbg := (cd_dbg C)\<lparr>dg_net := f (dg_net (cd_dbg C))\<rparr>\<rparr>"

definition upd_adapter :: "(nupanet_adapter \<Rightarrow> nupanet_adapter) \<Rightarrow> card \<Rightarrow> card" where
  "upd_adapter f = upd_net (\<lambda>N. N\<lparr>n_adapter := f (n_adapter N)\<rparr>)"

definition set_drv :: "drv \<Rightarrow> card \<Rightarrow> card" where
  "set_drv s = upd_net (\<lambda>N. N\<lparr>n_drv := s\<rparr>)"

definition set_shm :: "shm \<Rightarrow> card \<Rightarrow> card" where
  "set_shm m = upd_net (\<lambda>N. N\<lparr>n_shm := m\<rparr>)"

subsection \<open>The adapter\<close>

definition adapter_alloc :: "'k penv_scheme \<Rightarrow> nat \<Rightarrow> card \<Rightarrow> card option" where
  "adapter_alloc K pdev C =
     (case alloc_etherdev K of None \<Rightarrow> None
      | Some netdev \<Rightarrow>
          Some ((upd_adapter (\<lambda>_. \<lparr>ad_magic = MAGIC_DEVICE, ad_pdev = pdev, ad_xdev = None, ad_user_max = int MAX_USER_IRQ,
                   ad_c2h_channel_max = int XDMA_CHANNEL_NUM_MAX, ad_h2c_channel_max = int XDMA_CHANNEL_NUM_MAX,
                   ad_host_id = 0, ad_hold_ic_ctl = False\<rparr>)
                 (C\<lparr>cd_dbg := (logd (Got (N_netdev netdev)) (cd_dbg C))\<lparr>dg_cdev := zero_cdev\<rparr>\<rparr>))
               \<lparr>cd_shm_info := \<lparr>shm_vaddr = 0, shm_length = 0\<rparr>, cd_netdev := netdev, cd_dev_addr := [], cd_name := [],
                cd_poll_thread := Null_ptr\<rparr>))"

definition zero_area :: area where
  "zero_area = \<lparr>a_info = zero_packets_info, a_desc = replicate (nat MAX_DESC_NUM) zero_packet_desc\<rparr>"

definition adapter_free :: "'k penv_scheme \<Rightarrow> card \<Rightarrow> card outcome" where
  "adapter_free K C =
     (let host_id = ad_host_id (card_adapter C);
          xdev = ad_xdev (card_adapter C);
          C = upd_adapter (\<lambda>a. a\<lparr>ad_xdev := None\<rparr>) C;
          C = set_drv (xdma_device_close K (ad_pdev (card_adapter C)) xdev (card_drv C)) C;
          vaddr = shm_vaddr (cd_shm_info C);
          listed = (0 < dheld (N_napi (cd_netdev C)) (cd_dbg C))
      in case netif_napi_del K listed (cd_netdev C) (cd_poll_thread C) of
           None \<Rightarrow> Out_of_range
         | Some given \<Rightarrow>
             if vaddr = 0 then Out_of_range
             else let C = fold logc given C;
                      C = set_shm ((card_shm C)(host_id := zero_area)) C;
                      C = logc (Gave (N_map vaddr)) C;
                      C = logc (Gave (N_registered (cd_netdev C))) C
                  in Returns (logc (Gave (N_netdev (cd_netdev C))) C))"

subsection \<open>Probe\<close>

text \<open>The mask for the user interrupts: one bit more than there are interrupts.\<close>

definition user_mask :: "int \<Rightarrow> u32" where
  "user_mask user_max = of_int (push_bit (nat (user_max + 1)) 1 - 1)"

text \<open>
  From opening the device to the point where the adapter knows it: the error number of the
  \<open>goto\<close>, or the handle.
\<close>

definition probe_open :: "'k denv_scheme \<Rightarrow> nat \<Rightarrow> card \<Rightarrow> (int + nat) \<times> card" where
  "probe_open K pdev C =
     (let a = card_adapter C;
          (hndl, s) = xdma_device_open K ''nupanet'' pdev (nat (ad_user_max a)) (nat (ad_h2c_channel_max a))
                        (nat (ad_c2h_channel_max a)) (card_drv C);
          C = set_drv s C
      in case hndl of
           None \<Rightarrow> (Inl (- EINVAL), C)
         | Some (d, um, hm, cm) \<Rightarrow>
             let C = upd_adapter (\<lambda>a. a\<lparr>ad_user_max := int um, ad_h2c_channel_max := int hm, ad_c2h_channel_max := int cm\<rparr>) C;
                 a = card_adapter C
             in if int MAX_USER_IRQ < ad_user_max a then (Inl (- EINVAL), C)
                else if int XDMA_CHANNEL_NUM_MAX < ad_h2c_channel_max a then (Inl (- EINVAL), C)
                else if int XDMA_CHANNEL_NUM_MAX < ad_c2h_channel_max a then (Inl (- EINVAL), C)
                else let (err, s) = (if ad_user_max a \<noteq> 0
                                     then xdma_user_isr_enable K (Some d) (user_mask (ad_user_max a)) (card_drv C)
                                     else (0, card_drv C));
                         C = set_drv s C
                in if err \<noteq> 0 then (Inl err, C)
                else case xdev_find_by_pdev pdev (card_drv C) of
                       None \<Rightarrow> (Inl (- EINVAL), C)
                     | Some xdev \<Rightarrow>
                         if xdev \<noteq> d then (Inl (- EINVAL), C)
                         else (Inr d, upd_adapter (\<lambda>a. a\<lparr>ad_xdev := Some d\<rparr>) C))"

text \<open>Mapping the user BAR; its number is -1 if the device has none.\<close>

definition probe_map :: "'k penv_scheme \<Rightarrow> nat \<Rightarrow> nat \<Rightarrow> card \<Rightarrow> card outcome" where
  "probe_map K pdev d C =
     (let i = dv_user_bar_idx (devs (card_drv C) d); v = pci_ioremap_wc_bar K pdev i
      in if i < 0 then Out_of_range
         else Returns ((if v = 0 then C else logc (Got (N_map v)) C)
                \<lparr>cd_shm_info := \<lparr>shm_vaddr = v, shm_length = c_int (int (pci_resource_len K pdev (nat i)))\<rparr>\<rparr>))"

definition nupanet_poll_start :: "'k penv_scheme \<Rightarrow> card \<Rightarrow> card" where
  "nupanet_poll_start K C =
     (let C = logc (Napi_enable (cd_netdev C)) C;
          C = (case kthread_run_poll K of Ptr t \<Rightarrow> logc (Got (N_thread t)) C | _ \<Rightarrow> C)
      in C\<lparr>cd_poll_thread := kthread_run_poll K\<rparr>)"

text \<open>From the initialisation of the shared memory to the registration of the network device.\<close>

definition probe_net :: "'k penv_scheme \<Rightarrow> nat \<Rightarrow> card \<Rightarrow> card outcome" where
  "probe_net K pdev C =
     (let host_id = device_id_to_host_id (pdev_device K pdev);
          C = upd_adapter (\<lambda>a. a\<lparr>ad_host_id := host_id\<rparr>) C
      in case adapter_info_init host_id (card_shm C) of
           Returns m \<Rightarrow>
             if shm_vaddr (cd_shm_info C) = 0 then Out_of_range
             else let C = set_shm m C;
                      C = C\<lparr>cd_dev_addr := nupanet_set_mac (pdev_device K pdev), cd_name := ''nupanet%d''\<rparr>
                  in Returns (logc (Got (N_napi (cd_netdev C))) C)
         | Bug_on \<Rightarrow> Bug_on | Out_of_range \<Rightarrow> Out_of_range | Spins \<Rightarrow> Spins)"

definition probe_one :: "'k penv_scheme \<Rightarrow> 'g genv_scheme \<Rightarrow> nat \<Rightarrow> card \<Rightarrow> (int \<times> card) outcome" where
  "probe_one K G pdev C =
     (let err_out = (\<lambda>err C. map_outcome (Pair err) (adapter_free K C))
      in case adapter_alloc K pdev C of None \<Rightarrow> Returns (- ENOMEM, C)
      | Some C \<Rightarrow>
        (case probe_open K pdev C of
           (Inl err, C) \<Rightarrow> err_out err C
         | (Inr d, C) \<Rightarrow>
           (case probe_map K pdev d C of
              Returns C \<Rightarrow>
                (case create_debug_cdev G (shm_vaddr (cd_shm_info C)) (shm_length (cd_shm_info C)) (cd_dbg C) of
                   None \<Rightarrow> Bug_on
                 | Some (rv, D) \<Rightarrow>
                     (case probe_net K pdev (C\<lparr>cd_dbg := D\<rparr>) of
                        Returns C \<Rightarrow>
                          if register_netdev K \<noteq> 0 then err_out (register_netdev K) C
                          else let C = logc (Got (N_registered (cd_netdev C))) C;
                                   C = C\<lparr>cd_drvdata := True\<rparr>
                               in Returns (0, nupanet_poll_start K C)
                      | Bug_on \<Rightarrow> Bug_on | Out_of_range \<Rightarrow> Out_of_range | Spins \<Rightarrow> Spins))
            | Bug_on \<Rightarrow> Bug_on | Out_of_range \<Rightarrow> Out_of_range | Spins \<Rightarrow> Spins)))"

definition remove_one :: "'k penv_scheme \<Rightarrow> nat \<Rightarrow> card \<Rightarrow> card outcome" where
  "remove_one K pdev C =
     (if pdev = 0 then Returns C
      else if \<not> cd_drvdata C then Returns C
      else let C = C\<lparr>cd_dbg := delete_debug_cdev (cd_dbg C)\<rparr>;
               C = C\<lparr>cd_drvdata := False\<rparr>
           in adapter_free K C)"

subsection \<open>PCI errors\<close>

text \<open>The last state stands for values the enumeration does not name.\<close>

datatype pci_channel_state =
    Pci_channel_io_normal | Pci_channel_io_frozen | Pci_channel_io_perm_failure | Pci_channel_other

datatype pci_ers_result = Ers_can_recover | Ers_need_reset | Ers_disconnect | Ers_recovered

definition xdma_error_detected ::
  "'k denv_scheme \<Rightarrow> nat \<Rightarrow> pci_channel_state \<Rightarrow> card \<Rightarrow> (pci_ers_result \<times> card) outcome" where
  "xdma_error_detected K pdev state C =
     (case state of
        Pci_channel_io_normal \<Rightarrow> Returns (Ers_can_recover, C)
      | Pci_channel_io_frozen \<Rightarrow>
          if \<not> cd_drvdata C then Out_of_range
          else let s = xdma_device_offline K pdev (ad_xdev (card_adapter C)) (card_drv C)
               in Returns (Ers_need_reset, set_drv (tell (notice.Release (R_pci pdev)) s) C)
      | Pci_channel_io_perm_failure \<Rightarrow> Returns (Ers_disconnect, C)
      | Pci_channel_other \<Rightarrow> Returns (Ers_need_reset, C))"

definition xdma_slot_reset :: "'k penv_scheme \<Rightarrow> nat \<Rightarrow> card \<Rightarrow> (pci_ers_result \<times> card) outcome" where
  "xdma_slot_reset K pdev C =
     (if pci_enable_device_mem K pdev \<noteq> 0 then Returns (Ers_disconnect, C)
      else let s = tell (Acquire (R_pci pdev)) (card_drv C);
               s = tell (Pci_set_master pdev) s;
               s = tell (Pci_restore_state pdev) s;
               s = tell (Pci_save_state pdev) s
           in if \<not> cd_drvdata C then Out_of_range
              else Returns (Ers_recovered, set_drv (xdma_device_online K pdev (ad_xdev (card_adapter C)) s) C))"

definition xdma_error_resume :: "nat \<Rightarrow> card \<Rightarrow> card" where
  "xdma_error_resume pdev C = set_drv (tell (Pci_aer_clear pdev) (card_drv C)) C"

definition xdma_reset_prepare :: "'k denv_scheme \<Rightarrow> nat \<Rightarrow> card \<Rightarrow> card outcome" where
  "xdma_reset_prepare K pdev C =
     (if \<not> cd_drvdata C then Out_of_range
      else Returns (set_drv (xdma_device_offline K pdev (ad_xdev (card_adapter C)) (card_drv C)) C))"

definition xdma_reset_done :: "'k denv_scheme \<Rightarrow> nat \<Rightarrow> card \<Rightarrow> card outcome" where
  "xdma_reset_done K pdev C =
     (if \<not> cd_drvdata C then Out_of_range
      else Returns (set_drv (xdma_device_online K pdev (ad_xdev (card_adapter C)) (card_drv C)) C))"

subsection \<open>Frames\<close>

lemma card_fields [simp]:
  "card_drv (logc x C) = card_drv C" "card_adapter (logc x C) = card_adapter C" "card_shm (logc x C) = card_shm C"
  "cd_dbg (logc x C) = logd x (cd_dbg C)" "cd_shm_info (logc x C) = cd_shm_info C" "cd_netdev (logc x C) = cd_netdev C"
  "cd_drvdata (logc x C) = cd_drvdata C" "cd_dev_addr (logc x C) = cd_dev_addr C"
  "card_drv (set_drv s C) = s" "card_adapter (set_drv s C) = card_adapter C" "card_shm (set_drv s C) = card_shm C"
  "dg_cdev (cd_dbg (set_drv s C)) = dg_cdev (cd_dbg C)"
  "card_drv (set_shm m C) = card_drv C" "card_adapter (set_shm m C) = card_adapter C" "card_shm (set_shm m C) = m"
  "dg_cdev (cd_dbg (set_shm m C)) = dg_cdev (cd_dbg C)"
  "card_drv (upd_adapter f C) = card_drv C" "card_adapter (upd_adapter f C) = f (card_adapter C)"
  "card_shm (upd_adapter f C) = card_shm C" "dg_cdev (cd_dbg (upd_adapter f C)) = dg_cdev (cd_dbg C)"
  by (simp_all add: logc_def set_drv_def set_shm_def upd_adapter_def upd_net_def)

lemma upd_net_fields [simp]:
  "cd_poll_thread (set_drv s C) = cd_poll_thread C" "cd_poll_thread (set_shm m C) = cd_poll_thread C"
  "cd_poll_thread (upd_adapter f C) = cd_poll_thread C"
  "cd_shm_info (set_drv s C) = cd_shm_info C" "cd_netdev (set_drv s C) = cd_netdev C" "cd_drvdata (set_drv s C) = cd_drvdata C"
  "cd_dev_addr (set_drv s C) = cd_dev_addr C"
  "cd_shm_info (set_shm m C) = cd_shm_info C" "cd_netdev (set_shm m C) = cd_netdev C" "cd_drvdata (set_shm m C) = cd_drvdata C"
  "cd_dev_addr (set_shm m C) = cd_dev_addr C"
  "cd_shm_info (upd_adapter f C) = cd_shm_info C" "cd_netdev (upd_adapter f C) = cd_netdev C"
  "cd_drvdata (upd_adapter f C) = cd_drvdata C" "cd_dev_addr (upd_adapter f C) = cd_dev_addr C"
  by (simp_all add: set_drv_def set_shm_def upd_adapter_def upd_net_def)

lemma dheld_card [simp]:
  "dheld r (cd_dbg (set_drv s C)) = dheld r (cd_dbg C)" "dheld r (cd_dbg (set_shm m C)) = dheld r (cd_dbg C)"
  "dheld r (cd_dbg (upd_adapter f C)) = dheld r (cd_dbg C)" "dheld r (D\<lparr>dg_cdev := c\<rparr>) = dheld r D"
  by (simp_all add: dheld_def set_drv_def set_shm_def upd_adapter_def upd_net_def)

text \<open>The character device leaves the driver and the shared memory alone.\<close>

lemma free_resource_net [simp]: "dg_net (free_resource D) = dg_net D"
  by (simp add: free_resource_def Let_def split: option.split)

lemma add_net:
  "dg_net (add_class K no D) = dg_net D" "dg_net (add_device K no D) = dg_net D" "dg_net (add_buffer K D) = dg_net D"
  "n_drv (dg_net (add_info ib il D)) = n_drv (dg_net D)" "n_shm (dg_net (add_info ib il D)) = n_shm (dg_net D)"
  "n_adapter (dg_net (add_info ib il D)) = (n_adapter (dg_net D))\<lparr>ad_hold_ic_ctl := False\<rparr>"
  by (simp_all add: add_class_def add_device_def add_buffer_def add_info_def set_hold_def Let_def
      split: kptr.split option.split)

lemma create_net:
  assumes "create_debug_cdev G ib il D = Some (rv, D')"
  shows "n_drv (dg_net D') = n_drv (dg_net D)" and "n_shm (dg_net D') = n_shm (dg_net D)"
    and "ad_xdev (n_adapter (dg_net D')) = ad_xdev (n_adapter (dg_net D))"
    and "ad_pdev (n_adapter (dg_net D')) = ad_pdev (n_adapter (dg_net D))"
    and "ad_h2c_channel_max (n_adapter (dg_net D')) = ad_h2c_channel_max (n_adapter (dg_net D))"
    and "ad_c2h_channel_max (n_adapter (dg_net D')) = ad_c2h_channel_max (n_adapter (dg_net D))"
  using assms
  by (auto simp: create_debug_cdev_def Let_def add_net split: prod.splits if_splits kptr.splits)

subsection \<open>A successful probe\<close>

text \<open>Enabling user interrupts changes only the mask of user interrupts.\<close>

definition soft_same :: "drv \<Rightarrow> drv \<Rightarrow> bool" where
  "soft_same s s' \<longleftrightarrow> (\<forall>y. sans_soft (devs s' y) = sans_soft (devs s y) \<and> dv_flags (devs s' y) = dv_flags (devs s y)) \<and>
     engs s' = engs s \<and> xdev_list s' = xdev_list s \<and> notices s' = notices s"

lemma soft_same_refl [simp]: "soft_same s s" by (simp add: soft_same_def)

lemma isr_enable_soft: "soft_same s (snd (xdma_user_isr_enable K h w s))"
  by (simp add: soft_same_def xdma_user_isr_enable_def user_interrupts_enable_def read_interrupts_def sans_soft_def Let_def
      case_prod_unfold split: option.split)

definition open_counts :: "nat \<Rightarrow> nat \<Rightarrow> nat \<Rightarrow> nupanet_adapter \<Rightarrow> nupanet_adapter" where
  "open_counts um hm cm a = a\<lparr>ad_user_max := int um, ad_h2c_channel_max := int hm, ad_c2h_channel_max := int cm\<rparr>"

lemma probe_open_ok:
  assumes "probe_open K pdev C = (Inr d, C1)"
  obtains um hm cm s1 where "xdma_device_open K ''nupanet'' pdev (nat (ad_user_max (card_adapter C)))
      (nat (ad_h2c_channel_max (card_adapter C))) (nat (ad_c2h_channel_max (card_adapter C))) (card_drv C) =
      (Some (d, um, hm, cm), s1)"
    and "soft_same s1 (card_drv C1)" and "card_adapter C1 = (open_counts um hm cm (card_adapter C))\<lparr>ad_xdev := Some d\<rparr>"
    and "card_shm C1 = card_shm C" and "cd_netdev C1 = cd_netdev C" and "dg_cdev (cd_dbg C1) = dg_cdev (cd_dbg C)"
    and "\<And>r. dheld r (cd_dbg C1) = dheld r (cd_dbg C)"
proof -
  obtain o' s1 where op: "xdma_device_open K ''nupanet'' pdev (nat (ad_user_max (card_adapter C)))
      (nat (ad_h2c_channel_max (card_adapter C))) (nat (ad_c2h_channel_max (card_adapter C))) (card_drv C) = (o', s1)"
    by fastforce
  moreover have "o' \<noteq> None" using assms op by (cases o') (simp_all add: probe_open_def)
  ultimately obtain x um hm cm where op: "xdma_device_open K ''nupanet'' pdev (nat (ad_user_max (card_adapter C)))
      (nat (ad_h2c_channel_max (card_adapter C))) (nat (ad_c2h_channel_max (card_adapter C))) (card_drv C) =
      (Some (x, um, hm, cm), s1)"
    by (metis not_None_eq surj_pair)
  define s2 where "s2 = (if um = 0 then s1 else snd (xdma_user_isr_enable K (Some x) (user_mask (int um)) s1))"
  have soft: "soft_same s1 s2" by (simp add: s2_def isr_enable_soft)
  have C1: "d = x" "C1 = upd_adapter (\<lambda>a. a\<lparr>ad_xdev := Some x\<rparr>) (set_drv s2 (upd_adapter (open_counts um hm cm) (set_drv s1 C)))"
    using assms op unfolding probe_open_def open_counts_def
    by (auto simp: s2_def Let_def case_prod_unfold split: if_splits option.splits)
  show ?thesis using that [of um hm cm s1] op soft C1 by simp
qed

lemma probe_map_ok:
  assumes "probe_map K pdev d C = Returns C1"
  defines "v \<equiv> shm_vaddr (cd_shm_info C1)"
  shows "card_drv C1 = card_drv C" and "card_adapter C1 = card_adapter C"
    and "card_shm C1 = card_shm C" and "cd_netdev C1 = cd_netdev C" and "dg_cdev (cd_dbg C1) = dg_cdev (cd_dbg C)"
    and "dheld r (cd_dbg C1) = dheld r (cd_dbg C) + (if v \<noteq> 0 \<and> r = N_map v then 1 else 0)"
  using assms by (auto simp: probe_map_def Let_def split: if_splits)

lemma probe_net_ok:
  assumes "probe_net K pdev C = Returns C1"
  shows "shm_vaddr (cd_shm_info C) \<noteq> 0" and "cd_shm_info C1 = cd_shm_info C" and "card_drv C1 = card_drv C"
    and "card_adapter C1 = (card_adapter C)\<lparr>ad_host_id := device_id_to_host_id (pdev_device K pdev)\<rparr>"
    and "adapter_info_init (device_id_to_host_id (pdev_device K pdev)) (card_shm C) = Returns (card_shm C1)"
    and "cd_netdev C1 = cd_netdev C" and "dg_cdev (cd_dbg C1) = dg_cdev (cd_dbg C)"
    and "cd_dev_addr C1 = nupanet_set_mac (pdev_device K pdev)"
    and "dheld r (cd_dbg C1) = dheld r (cd_dbg C) + (if r = N_napi (cd_netdev C) then 1 else 0)"
  using assms by (auto simp: probe_net_def Let_def split: if_splits outcome.splits)

text \<open>
  Before the shared memory is mapped every error ends in \<open>adapter_free\<close> clearing memory
  through the null pointer.
\<close>

lemma probe_open_shm: "cd_shm_info (snd (probe_open K pdev C)) = cd_shm_info C"
  by (simp add: probe_open_def Let_def case_prod_unfold split: option.split)

lemma adapter_free_unmapped: "shm_vaddr (cd_shm_info C) = 0 \<Longrightarrow> adapter_free K C = Out_of_range"
  by (simp add: adapter_free_def Let_def split: option.split)

lemma probe_open_failed:
  assumes "adapter_alloc K pdev C = Some Ca" and "probe_open K pdev Ca = (Inl err, Cb)"
  shows "probe_one K G pdev C = Out_of_range"
proof -
  have "shm_vaddr (cd_shm_info Cb) = 0"
    using probe_open_shm [of K pdev Ca] assms by (auto simp: adapter_alloc_def split: option.splits)
  then show ?thesis using assms adapter_free_unmapped [of Cb K] by (simp add: probe_one_def)
qed

lemma adapter_alloc_ok:
  assumes "adapter_alloc K pdev C = Some Ca"
  obtains n where "alloc_etherdev K = Some n" and "card_drv Ca = card_drv C" and "card_shm Ca = card_shm C"
    and "cd_netdev Ca = n" and "dg_cdev (cd_dbg Ca) = zero_cdev"
    and "\<And>r. dheld r (cd_dbg Ca) = dheld r (cd_dbg C) + (if r = N_netdev n then 1 else 0)"
    and "ad_pdev (card_adapter Ca) = pdev" and "nat (ad_user_max (card_adapter Ca)) = MAX_USER_IRQ"
    and "nat (ad_h2c_channel_max (card_adapter Ca)) = XDMA_CHANNEL_NUM_MAX"
    and "nat (ad_c2h_channel_max (card_adapter Ca)) = XDMA_CHANNEL_NUM_MAX"
  using assms by (auto simp: adapter_alloc_def split: option.splits)

text \<open>The state in which the network device is about to be registered.\<close>

lemma probe_registers:
  assumes "probe_one K G pdev C = Returns (rv, C1)" and "alloc_etherdev K \<noteq> None"
  obtains n d um hm cm s1 v D0 rvd D1 Cd where "alloc_etherdev K = Some n"
    and "xdma_device_open K ''nupanet'' pdev MAX_USER_IRQ XDMA_CHANNEL_NUM_MAX XDMA_CHANNEL_NUM_MAX (card_drv C) =
      (Some (d, um, hm, cm), s1)"
    and "soft_same s1 (card_drv Cd)" and "v \<noteq> 0" and "create_debug_cdev G v (shm_length (cd_shm_info Cd)) D0 = Some (rvd, D1)"
    and "dg_cdev D0 = zero_cdev" and "\<And>r. dheld r D0 = dheld r (cd_dbg C) + (if r = N_netdev n \<or> r = N_map v then 1 else 0)"
    and "\<And>r. dheld r (cd_dbg Cd) = dheld r D1 + (if r = N_napi n then 1 else 0)"
    and "dg_cdev (cd_dbg Cd) = dg_cdev D1" and "cd_netdev Cd = n" and "shm_vaddr (cd_shm_info Cd) = v"
    and "ad_xdev (card_adapter Cd) = Some d" and "ad_pdev (card_adapter Cd) = pdev"
    and "ad_h2c_channel_max (card_adapter Cd) = int hm" and "ad_c2h_channel_max (card_adapter Cd) = int cm"
    and "ad_host_id (card_adapter Cd) = device_id_to_host_id (pdev_device K pdev)"
    and "adapter_info_init (device_id_to_host_id (pdev_device K pdev)) (card_shm C) = Returns (card_shm Cd)"
    and "cd_dev_addr Cd = nupanet_set_mac (pdev_device K pdev)"
    and "if register_netdev K = 0
         then rv = 0 \<and> C1 = nupanet_poll_start K ((logc (Got (N_registered n)) Cd)\<lparr>cd_drvdata := True\<rparr>)
         else rv = register_netdev K \<and> adapter_free K Cd = Returns C1"
proof -
  obtain Ca where al: "adapter_alloc K pdev C = Some Ca"
    using assms(2) by (auto simp: adapter_alloc_def split: option.splits)
  from adapter_alloc_ok [OF al] obtain n where n: "alloc_etherdev K = Some n" and Ca: "card_drv Ca = card_drv C"
      "card_shm Ca = card_shm C" "cd_netdev Ca = n" "dg_cdev (cd_dbg Ca) = zero_cdev"
      "\<And>r. dheld r (cd_dbg Ca) = dheld r (cd_dbg C) + (if r = N_netdev n then 1 else 0)"
      "ad_pdev (card_adapter Ca) = pdev" "nat (ad_user_max (card_adapter Ca)) = MAX_USER_IRQ"
      "nat (ad_h2c_channel_max (card_adapter Ca)) = XDMA_CHANNEL_NUM_MAX"
      "nat (ad_c2h_channel_max (card_adapter Ca)) = XDMA_CHANNEL_NUM_MAX" by blast
  obtain d Cb where op: "probe_open K pdev Ca = (Inr d, Cb)"
    using probe_open_failed [OF al, where G = G] assms(1) by (cases "probe_open K pdev Ca"; cases "fst (probe_open K pdev Ca)") auto
  from probe_open_ok [OF op] Ca obtain um hm cm s1
    where opn: "xdma_device_open K ''nupanet'' pdev MAX_USER_IRQ XDMA_CHANNEL_NUM_MAX XDMA_CHANNEL_NUM_MAX (card_drv C) =
      (Some (d, um, hm, cm), s1)" and soft: "soft_same s1 (card_drv Cb)"
    and adb: "card_adapter Cb = (open_counts um hm cm (card_adapter Ca))\<lparr>ad_xdev := Some d\<rparr>"
    and Cb: "card_shm Cb = card_shm C" "cd_netdev Cb = n" "dg_cdev (cd_dbg Cb) = zero_cdev"
      "\<And>r. dheld r (cd_dbg Cb) = dheld r (cd_dbg C) + (if r = N_netdev n then 1 else 0)"
    by metis
  obtain Cc where mp: "probe_map K pdev d Cb = Returns Cc"
    using assms al op by (auto simp: probe_one_def split: outcome.splits)
  define v where "v = shm_vaddr (cd_shm_info Cc)"
  note Cc = probe_map_ok [OF mp, folded v_def]
  obtain rvd D1 where cr: "create_debug_cdev G v (shm_length (cd_shm_info Cc)) (cd_dbg Cc) = Some (rvd, D1)"
    using assms al op mp v_def by (auto simp: probe_one_def split: option.splits)
  obtain Cd where nt: "probe_net K pdev (Cc\<lparr>cd_dbg := D1\<rparr>) = Returns Cd"
    using assms al op mp cr v_def by (auto simp: probe_one_def split: outcome.splits)
  note Cd = probe_net_ok [OF nt, simplified] and Cr = create_net [OF cr]
  have reg: "if register_netdev K = 0
      then rv = 0 \<and> C1 = nupanet_poll_start K ((logc (Got (N_registered n)) Cd)\<lparr>cd_drvdata := True\<rparr>)
      else rv = register_netdev K \<and> adapter_free K Cd = Returns C1"
    using assms al op mp cr nt v_def Cb Cc Cd(6)
    by (cases "adapter_free K Cd") (auto simp: probe_one_def Let_def split: if_splits)
  show ?thesis
    by (rule that [of n d um hm cm s1 Cd v "cd_dbg Cc" rvd D1])
      (use n opn soft cr Ca Cb Cc Cd Cr reg in \<open>simp_all add: adb open_counts_def v_def [symmetric]\<close>)
qed

lemma poll_start_fields [simp]:
  "card_drv (nupanet_poll_start K C) = card_drv C" "card_adapter (nupanet_poll_start K C) = card_adapter C"
  "card_shm (nupanet_poll_start K C) = card_shm C" "cd_drvdata (nupanet_poll_start K C) = cd_drvdata C"
  "cd_netdev (nupanet_poll_start K C) = cd_netdev C" "cd_shm_info (nupanet_poll_start K C) = cd_shm_info C"
  "dg_cdev (cd_dbg (nupanet_poll_start K C)) = dg_cdev (cd_dbg C)" "cd_dev_addr (nupanet_poll_start K C) = cd_dev_addr C"
  "cd_poll_thread (nupanet_poll_start K C) = kthread_run_poll K"
  "dheld r (cd_dbg (nupanet_poll_start K C)) = dheld r (cd_dbg C) + (if \<exists>t. kthread_run_poll K = Ptr t \<and> r = N_thread t then 1 else 0)"
  by (auto simp: nupanet_poll_start_def Let_def split: kptr.split)

text \<open>What a probe that returned 0 has done.\<close>

lemma probe_done:
  assumes "probe_one K G pdev C = Returns (0, C1)"
  obtains n d um hm cm s1 v D0 rvd D1 where "alloc_etherdev K = Some n"
    and "xdma_device_open K ''nupanet'' pdev MAX_USER_IRQ XDMA_CHANNEL_NUM_MAX XDMA_CHANNEL_NUM_MAX (card_drv C) =
      (Some (d, um, hm, cm), s1)"
    and "soft_same s1 (card_drv C1)" and "v \<noteq> 0" and "create_debug_cdev G v (shm_length (cd_shm_info C1)) D0 = Some (rvd, D1)"
    and "dg_cdev D0 = zero_cdev" and "\<And>r. dheld r D0 = dheld r (cd_dbg C) + (if r = N_netdev n \<or> r = N_map v then 1 else 0)"
    and "\<And>r. dheld r (cd_dbg C1) = dheld r D1 +
      (if r = N_napi n \<or> r = N_registered n \<or> (\<exists>t. kthread_run_poll K = Ptr t \<and> r = N_thread t) then 1 else 0)"
    and "dg_cdev (cd_dbg C1) = dg_cdev D1" and "cd_drvdata C1" and "cd_netdev C1 = n" and "shm_vaddr (cd_shm_info C1) = v"
    and "ad_xdev (card_adapter C1) = Some d" and "ad_pdev (card_adapter C1) = pdev"
    and "ad_h2c_channel_max (card_adapter C1) = int hm" and "ad_c2h_channel_max (card_adapter C1) = int cm"
    and "ad_host_id (card_adapter C1) = device_id_to_host_id (pdev_device K pdev)"
    and "adapter_info_init (device_id_to_host_id (pdev_device K pdev)) (card_shm C) = Returns (card_shm C1)"
    and "cd_dev_addr C1 = nupanet_set_mac (pdev_device K pdev)" and "cd_poll_thread C1 = kthread_run_poll K"
proof -
  have "alloc_etherdev K \<noteq> None" using assms
    by (cases "alloc_etherdev K") (simp_all add: probe_one_def adapter_alloc_def ENOMEM_def)
  with assms show ?thesis
  proof (cases rule: probe_registers)
    case (1 n d um hm cm s1 v D0 rvd D1 Cd)
    then have C1: "C1 = nupanet_poll_start K ((logc (Got (N_registered n)) Cd)\<lparr>cd_drvdata := True\<rparr>)"
      by (simp split: if_splits)
    show ?thesis
      by (rule that [of n d um hm cm s1 v D0 rvd D1]) (use 1 in \<open>auto simp: C1\<close>)
  qed
qed

text \<open>The DMA device at that point: open, up, and accounted for.\<close>

lemma open_soft:
  assumes "xdma_device_open K mname pdev u h c s = (Some (d, um, hm, cm), s1)" and "soft_same s1 s2"
    and "threads_kept K s" and "kernel_ok K pdev s" and "sole_device pdev s"
  shows "accounted K d pdev r (held r s) all_stages s2" and "device_up d s2" and "debug_check_dev_hndl pdev d s2 = 0"
    and "dv_flags (devs s2 d) = 0" and "dv_pdev (devs s2 d) = pdev" and "remove1 d (xdev_list s2) = xdev_list s"
    and "hm = dv_h2c_channel_max (devs s2 d)" and "cm = dv_c2h_channel_max (devs s2 d)"
    and "hm \<le> XDMA_CHANNEL_NUM_MAX" and "cm \<le> XDMA_CHANNEL_NUM_MAX" and "pdev \<noteq> 0"
proof -
  have acc: "accounted K d pdev r (held r s) all_stages s1" and hw: "hw_open K d pdev s s1"
    and fl: "dv_flags (devs s1 d) = 0" and cnt: "hm = dv_h2c_channel_max (devs s1 d)" "cm = dv_c2h_channel_max (devs s1 d)"
    using open_effect [OF assms(1,3,4), of r] by simp_all
  have soft: "\<forall>y. sans_soft (devs s2 y) = sans_soft (devs s1 y)" and same: "engs s2 = engs s1" "xdev_list s2 = xdev_list s1"
      "notices s2 = notices s1" "dv_flags (devs s2 d) = dv_flags (devs s1 d)"
    using assms(2) by (simp_all add: soft_same_def)
  note dev = sans_softD [OF soft [rule_format]]
  show "accounted K d pdev r (held r s) all_stages s2"
  proof (rule accounted_cong [OF acc])
    show "held r s2 = held r s1" by (rule held_notices [OF same(3)])
  qed (simp add: soft_stages [OF soft same(1,2)])
  show "device_up d s2"
    by (rule device_up_cong [where s = s1]) (use hw in \<open>simp_all add: hw_open_def same dev\<close>)
  show "debug_check_dev_hndl pdev d s2 = 0"
    using check_cong [of s2 s1] handle_known [OF hw assms(5)] by (simp add: same dev)
  show "dv_flags (devs s2 d) = 0" "dv_pdev (devs s2 d) = pdev" "remove1 d (xdev_list s2) = xdev_list s"
    "hm = dv_h2c_channel_max (devs s2 d)" "cm = dv_c2h_channel_max (devs s2 d)"
    "hm \<le> XDMA_CHANNEL_NUM_MAX" "cm \<le> XDMA_CHANNEL_NUM_MAX" "pdev \<noteq> 0"
    using fl cnt hw by (simp_all add: same dev hw_open_def remove1_append)
qed

text \<open>
  \<open>netif_napi_del\<close> of Linux 5.15: a listed context is taken off its lists, and its thread, if it
  has one, is stopped.
\<close>

definition napi_del_stops :: "'k penv_scheme \<Rightarrow> bool" where
  "napi_del_stops K \<longleftrightarrow> (\<forall>n t. netif_napi_del K True n (Ptr t) = Some [Gave (N_napi n), Gave (N_thread t)])"

text \<open>Freeing the adapter gives back the device, the mapping, the network device and the poll thread.\<close>

lemma adapter_free_effect:
  assumes "accounted K d pdev r b all_stages (card_drv C)" and "debug_check_dev_hndl pdev d (card_drv C) = 0"
    and "ad_xdev (card_adapter C) = Some d" and "ad_pdev (card_adapter C) = pdev" and "shm_vaddr (cd_shm_info C) = v" and "v \<noteq> 0"
    and "0 < dheld (N_napi (cd_netdev C)) (cd_dbg C)" and "cd_poll_thread C = Ptr t" and "napi_del_stops K"
    and "poll_mode K = 0 \<or> remove1 d (xdev_list (card_drv C)) \<noteq> []"
  obtains C' where "adapter_free K C = Returns C'" and "held r (card_drv C') = b"
    and "xdev_list (card_drv C') = remove1 d (xdev_list (card_drv C))"
    and "card_shm C' = (card_shm C)(ad_host_id (card_adapter C) := zero_area)" and "cd_drvdata C' = cd_drvdata C"
    and "\<And>q. dheld q (cd_dbg C') = dheld q (cd_dbg C) -
      (if q = N_map v \<or> q = N_napi (cd_netdev C) \<or> q = N_thread t \<or> q = N_registered (cd_netdev C) \<or>
          q = N_netdev (cd_netdev C) then 1 else 0)"
proof -
  let ?s = "xdma_device_close K pdev (Some d) (card_drv C)"
  have chk: "\<not> debug_check_dev_hndl pdev d (card_drv C) < 0" using assms(2) by simp
  have "held r ?s = b" using close_gives_back [OF chk, of K r] assms(1) by (simp add: accounted_def)
  moreover have "xdev_list ?s = remove1 d (xdev_list (card_drv C))"
    using close_list [OF chk _ assms(10)] assms(1) by (simp add: accounted_def stage_valid_def)
  moreover define C' where "C' = logc (Gave (N_netdev (cd_netdev C))) (logc (Gave (N_registered (cd_netdev C)))
    (logc (Gave (N_map v)) (set_shm ((card_shm C)(ad_host_id (card_adapter C) := zero_area))
      (logc (Gave (N_thread t)) (logc (Gave (N_napi (cd_netdev C)))
        (set_drv ?s (upd_adapter (\<lambda>a. a\<lparr>ad_xdev := None\<rparr>) C)))))))"
  moreover have "adapter_free K C = Returns C'"
    using assms(3-9) by (simp add: adapter_free_def napi_del_stops_def Let_def C'_def)
  ultimately show ?thesis using that [of C'] by simp
qed

lemma info_init_area: "h = 0 \<or> h = 1 \<Longrightarrow> adapter_info_init h m = Returns (m(h := fresh_area h))"
  by (auto simp: adapter_info_init_def fresh_area_def upd_info_def Let_def)

text \<open>Deleting the character device in the state a probe leaves.\<close>

lemma created_held:
  assumes "create_debug_cdev G ib il D0 = Some (rv, D1)" and "dg_cdev D0 = zero_cdev"
    and "alloc_chrdev_region G = (0, no)" and "no \<noteq> 0" and "class_create G = Ptr p" and "device_create G \<noteq> Null_ptr"
    and "kcalloc_buf G \<noteq> None" and "cdev_add G = 0" and "dheld (D_device no) D0 = 0"
    and "dg_cdev X = dg_cdev D1" and "\<And>k. dheld (D_device k) X = dheld (D_device k) D1"
  shows "dheld r (free_resource X) = dheld r D0 + (dheld r X - dheld r D1) + (if r = D_cdev no then 1 else 0)"
proof -
  obtain b where b: "kcalloc_buf G = Some b" using assms(7) by blast
  have D1: "D1 = logd (Got (D_cdev no)) (add_info ib il (add_buffer G (add_device G no (add_class G no D0))))"
    using assms(1,3,5,6,8) b by (simp add: create_debug_cdev_def Let_def split: if_splits)
  have cdev: "dc_buf (dg_cdev X) = Some b" "dc_class (dg_cdev X) = Ptr p" "dc_cdevno (dg_cdev X) = no"
    using assms(5,10) b by (simp_all add: D1 add_cdev)
  have X: "dheld (D_device no) X = (if \<exists>q. device_create G = Ptr q then 1 else 0)"
    using assms(9,11) by (simp add: D1 add_held)
  show ?thesis using assms(4,5,9) b X
    by (cases r) (auto simp: debug_free_held cdev D1 add_held split: if_splits)
qed

end
