(* ===== verification/Nupa_Bind.thy ===== *)
theory Nupa_Bind
  imports Nupa_Probe
begin

text \<open>
  Properties of binding to a device, unbinding and recovering from PCI errors, and that a
  probe succeeds when the kernel refuses nothing and the device has a user BAR.
\<close>

subsection \<open>A probe succeeds\<close>

text \<open>The number of the user BAR that mapping the BARs has found is kept while opening.\<close>

lemma sans_probe_user: "sans_probe v = sans_probe w \<Longrightarrow> dv_user_bar_idx v = dv_user_bar_idx w"
  by (drule arg_cong [where f = dv_user_bar_idx]) (simp add: sans_probe_def sans_irq_def)

lemma enable_user: "dv_user_bar_idx (devs (snd (enable_msi_msix K xdev pdev s)) y) = dv_user_bar_idx (devs s y)"
  by (simp add: enable_msi_msix_def Let_def split: option.split)

lemma irq_setup_user: "dv_user_bar_idx (devs (snd (irq_setup K d pdev s)) y) = dv_user_bar_idx (devs s y)"
proof -
  obtain l where "devs (snd (irq_setup K d pdev s)) = (devs s)(d := (devs s d)\<lparr>dv_irq_line := l\<rparr>)"
    using irq_setup_frame(3) by blast
  then show ?thesis by simp
qed

lemma open_user_bar:
  assumes "xdma_device_open K mname pdev u h c s = (Some (d, ns), s1)" and "threads_kept K s" and "kernel_ok K pdev s"
  obtains sa where "dv_bar (devs sa d) = replicate XDMA_BAR_NUM 0" and "dv_config_bar_idx (devs sa d) = -1"
    and "dv_user_bar_idx (devs s1 d) = dv_user_bar_idx (devs (snd (map_bars K d pdev sa)) d)"
proof -
  obtain x sa where pci: "open_pci K mname pdev u h c s = (Some x, sa)"
    using assms(1) by (cases "open_pci K mname pdev u h c s"; cases "fst (open_pci K mname pdev u h c s)")
      (auto simp: xdma_device_open_def)
  obtain sb where hw: "open_hw K x pdev sa = (True, sb)"
    using assms(1) pci by (cases "open_hw K x pdev sa") (auto simp: xdma_device_open_def split: if_splits)
  have irq: "open_irqs K x pdev sb = (Some (d, ns), s1)" using assms(1) pci hw by (simp add: xdma_device_open_def)
  then have x: "x = d" by (auto simp: open_irqs_def Let_def split: prod.splits if_splits)
  obtain i where sa: "\<forall>e. fst e = d \<longrightarrow> engs sa e = zero_engine" "devs sa = (devs s)(d := opened_dev mname pdev u h c i)"
    using open_pci_effect [OF pci assms(2), of R_threads] assms(3) x by (auto simp: kernel_ok_def)
  obtain sm where mb: "map_bars K d pdev sa = (0, sm)"
    using hw x by (auto simp: open_hw_def split: prod.splits if_splits)
  have bars: "dv_bar (devs sa d) = replicate XDMA_BAR_NUM 0" "dv_config_bar_idx (devs sa d) = -1" by (simp_all add: sa(2))
  have fr: "sans_bars (devs sm d) = sans_bars (devs sa d)" "engs sm = engs sa"
    using map_bars_effect [OF mb bars] by (simp_all add: bars_frame_def)
  define sc where "sc = mask_interrupts K d (check_nonzero_interrupt_status K d (snd (set_dma_mask K pdev sm)))"
  have sc: "devs sc = devs sm" "engs sc = engs sm" by (simp_all add: sc_def set_dma_mask_def)
  have "dv_engines_num (devs sc d) = 0"
    using arg_cong [OF fr(1), of dv_engines_num] by (simp add: sc sa(2) sans_bars_def)
  then obtain se where pr: "probe_engines K (Some d) sc = (0, se)" "sans_probe (devs se d) = sans_probe (devs sc d)"
    using probe_engines_effect [of d sc K R_threads] sa(1) sc(2) fr(2) by metis
  have "sb = se" using hw mb pr(1) x by (auto simp: open_hw_def sc_def Let_def split: prod.splits if_splits)
  then have "dv_user_bar_idx (devs sb d) = dv_user_bar_idx (devs sm d)" using sans_probe_user [OF pr(2)] sc(1) by simp
  moreover have "dv_user_bar_idx (devs s1 d) = dv_user_bar_idx (devs sb d)"
    using irq x enable_user [of K "Some d" pdev sb d] irq_setup_user [of K d pdev _ d]
    by (auto simp: open_irqs_def Let_def read_interrupts_def channel_interrupts_enable_def xdma_device_flag_clear_def
        case_prod_unfold split: if_splits)
  ultimately show ?thesis using that [of sa] bars mb by simp
qed

text \<open>What is asked of the kernel and the device beyond what opening needs.\<close>

definition obliging :: "'k penv_scheme \<Rightarrow> 'g genv_scheme \<Rightarrow> nat \<Rightarrow> bool" where
  "obliging K G pdev \<longleftrightarrow> alloc_etherdev K \<noteq> None \<and> (\<forall>i. pci_ioremap_wc_bar K pdev i \<noteq> 0) \<and> register_netdev K = 0 \<and>
     (0x10ee, pdev_device K pdev) \<in> set pci_ids \<and> (\<forall>ib il D. create_debug_cdev G ib il D \<noteq> None) \<and>
     (\<forall>d s. dv_bar (devs s d) = replicate XDMA_BAR_NUM 0 \<longrightarrow> dv_config_bar_idx (devs s d) = -1 \<longrightarrow>
        0 \<le> dv_user_bar_idx (devs (snd (map_bars K d pdev s)) d))"

lemma known_found: "debug_check_dev_hndl pdev d s = 0 \<Longrightarrow> xdev_find_by_pdev pdev s = Some d"
  by (simp add: debug_check_dev_hndl_def EINVAL_def split: option.splits if_splits)

lemma probe_open_succeeds:
  assumes "cooperative K pdev (card_drv C)" and "threads_kept K (card_drv C)" and "kernel_ok K pdev (card_drv C)"
    and "sole_device pdev (card_drv C)" and "card_adapter C = a"
  obtains d C1 where "probe_open K pdev C = (Inr d, C1)"
proof -
  obtain d um hm cm s1 where op: "xdma_device_open K ''nupanet'' pdev (nat (ad_user_max a)) (nat (ad_h2c_channel_max a))
      (nat (ad_c2h_channel_max a)) (card_drv C) = (Some (d, um, hm, cm), s1)"
    using open_succeeds [OF assms(1-3)] by (metis surj_pair)
  note same = open_soft [OF op soft_same_refl assms(2-4)]
  have um: "um \<le> MAX_USER_IRQ" "0 < um" using open_effect [OF op assms(2,3)] by (simp_all add: hw_open_def)
  obtain s2 where E: "xdma_user_isr_enable K (Some d) (user_mask (int um)) s1 = (0, s2)"
    using same(3,5) by (simp add: xdma_user_isr_enable_def Let_def)
  have "xdev_find_by_pdev pdev s2 = Some d"
    using open_soft(3) [OF op isr_enable_soft assms(2-4), of K "Some d" "user_mask (int um)"] E by (simp add: known_found)
  then have "fst (probe_open K pdev C) = Inr d" using op assms(5) um same(9,10) E by (simp add: probe_open_def)
  then show ?thesis using that by (metis prod.collapse)
qed

lemma probe_succeeds:
  assumes "cooperative K pdev (card_drv C)" and "threads_kept K (card_drv C)" and "kernel_ok K pdev (card_drv C)"
    and "sole_device pdev (card_drv C)" and "obliging K G pdev"
  obtains C1 where "probe_one K G pdev C = Returns (0, C1)"
proof -
  note G = assms(5) [unfolded obliging_def]
  obtain Ca where al: "adapter_alloc K pdev C = Some Ca" using G by (auto simp: adapter_alloc_def)
  have drv: "card_drv Ca = card_drv C" using al by (cases rule: adapter_alloc_ok) simp
  obtain d Cb where po: "probe_open K pdev Ca = (Inr d, Cb)"
    by (rule probe_open_succeeds [of K pdev Ca]) (use assms(1-4) drv in simp_all)
  then obtain um hm cm s1 where op: "xdma_device_open K ''nupanet'' pdev (nat (ad_user_max (card_adapter Ca)))
      (nat (ad_h2c_channel_max (card_adapter Ca))) (nat (ad_c2h_channel_max (card_adapter Ca))) (card_drv Ca) =
      (Some (d, um, hm, cm), s1)" and soft: "soft_same s1 (card_drv Cb)"
    by (rule probe_open_ok)
  have "dv_user_bar_idx (sans_soft w) = dv_user_bar_idx w" for w by (simp add: sans_soft_def)
  then have same: "dv_user_bar_idx (devs (card_drv Cb) d) = dv_user_bar_idx (devs s1 d)"
    using soft unfolding soft_same_def by metis
  have "0 \<le> dv_user_bar_idx (devs s1 d)"
    by (rule open_user_bar [OF op]) (use assms(2,3) drv G in simp_all)
  then obtain Cc where pm: "probe_map K pdev d Cb = Returns Cc" and v: "shm_vaddr (cd_shm_info Cc) \<noteq> 0"
    using G same by (auto simp: probe_map_def Let_def)
  obtain rv D where cr: "create_debug_cdev G (shm_vaddr (cd_shm_info Cc)) (shm_length (cd_shm_info Cc)) (cd_dbg Cc) = Some (rv, D)"
    using G by (metis not_None_eq surj_pair)
  have "device_id_to_host_id (pdev_device K pdev) = 0 \<or> device_id_to_host_id (pdev_device K pdev) = 1"
    using G by (auto simp: pci_ids_def device_id_to_host_id_def)
  then obtain Cd where "probe_net K pdev (Cc\<lparr>cd_dbg := D\<rparr>) = Returns Cd"
    using v info_init_area by (auto simp: probe_net_def Let_def)
  then show ?thesis using that al po pm cr G by (simp add: probe_one_def Let_def)
qed

subsection \<open>Properties\<close>

text \<open>
  C16: How a probe can end. It returns only in three ways: with success; with \<open>-ENOMEM\<close> and
  nothing done when there is no network device; or with the error of \<open>register_netdev\<close>. Every
  other failure, in particular a DMA device that cannot be opened, does not return: the
  clean-up clears the shared memory through a mapping that does not exist yet.
\<close>

theorem probe_outcomes:
  "(probe_one K G pdev C = Returns (rv, C1) \<longrightarrow>
      rv = 0 \<and> cd_drvdata C1 \<or> alloc_etherdev K = None \<and> rv = - ENOMEM \<and> C1 = C \<or> rv = register_netdev K \<and> rv \<noteq> 0) \<and>
   (alloc_etherdev K \<noteq> None \<and> fst (xdma_device_open K ''nupanet'' pdev MAX_USER_IRQ XDMA_CHANNEL_NUM_MAX
        XDMA_CHANNEL_NUM_MAX (card_drv C)) = None \<longrightarrow>
      probe_one K G pdev C = Out_of_range)"
proof (intro conjI impI)
  assume run: "probe_one K G pdev C = Returns (rv, C1)"
  show "rv = 0 \<and> cd_drvdata C1 \<or> alloc_etherdev K = None \<and> rv = - ENOMEM \<and> C1 = C \<or> rv = register_netdev K \<and> rv \<noteq> 0"
  proof (cases "alloc_etherdev K")
    case None
    then show ?thesis using run by (simp add: probe_one_def adapter_alloc_def)
  next
    case (Some n)
    then have "alloc_etherdev K \<noteq> None" by simp
    with run show ?thesis by (cases rule: probe_registers) (simp split: if_splits)
  qed
next
  assume a: "alloc_etherdev K \<noteq> None \<and> fst (xdma_device_open K ''nupanet'' pdev MAX_USER_IRQ XDMA_CHANNEL_NUM_MAX
        XDMA_CHANNEL_NUM_MAX (card_drv C)) = None"
  obtain Ca where al: "adapter_alloc K pdev C = Some Ca"
    using a by (auto simp: adapter_alloc_def split: option.splits)
  have "fst (probe_open K pdev Ca) = Inl (- EINVAL)"
    using al a by (cases rule: adapter_alloc_ok) (simp add: probe_open_def Let_def case_prod_unfold)
  then show "probe_one K G pdev C = Out_of_range"
    using probe_open_failed [OF al, of "- EINVAL" "snd (probe_open K pdev Ca)"] by (metis prod.collapse)
qed

text \<open>
  C13: A probe that succeeds leaves a host that can be reached. Its area of the shared memory
  is a fresh ring that announces itself ready, and the other host's area is untouched; its
  MAC address leads to it; and every channel of its DMA device accepts submissions, with an
  engine that is ready and idle. (In interrupt mode, or with another device already open:
  \<open>threads_kept\<close>; and on a kernel as \<open>kernel_ok\<close> describes it.)
\<close>

theorem probe_ready:
  assumes "probe_one K G pdev C = Returns (0, C1)" and "threads_kept K (card_drv C)" and "kernel_ok K pdev (card_drv C)"
    and "sole_device pdev (card_drv C)" and "(0x10ee, pdev_device K pdev) \<in> set pci_ids"
  shows "\<exists>h d. (h = 0 \<or> h = 1) \<and> ad_host_id (card_adapter C1) = h \<and> card_shm C1 h = fresh_area h \<and>
    pi_ready (a_info (card_shm C1 h)) \<and> (\<forall>x. x \<noteq> h \<longrightarrow> card_shm C1 x = card_shm C x) \<and>
    mac_addr_to_host_id (cd_dev_addr C1) = h \<and> ad_xdev (card_adapter C1) = Some d \<and>
    (\<forall>write ch. int ch < (if write then ad_h2c_channel_max (card_adapter C1) else ad_c2h_channel_max (card_adapter C1)) \<longrightarrow>
       accepts d ch write (card_drv C1))"
  using assms(1)
proof (cases rule: probe_done)
  case (1 n d um hm cm s1 v D0 rvd D1)
  define h where "h = device_id_to_host_id (pdev_device K pdev)"
  have h: "h = 0 \<or> h = 1" using assms(5) by (auto simp: h_def pci_ids_def device_id_to_host_id_def)
  have init: "adapter_info_init h (card_shm C) = Returns (card_shm C1)" using 1 by (simp add: h_def)
  have "card_shm C1 = (card_shm C)(h := fresh_area h)"
    using info_init_area [OF h] init by (metis outcome.inject(1))
  then have area: "card_shm C1 h = fresh_area h" "\<And>x. x \<noteq> h \<Longrightarrow> card_shm C1 x = card_shm C x" by simp_all
  note dev = open_soft [OF 1(2,3) assms(2-4)]
  have "accepts d ch wr (card_drv C1)"
    if "int ch < (if wr then ad_h2c_channel_max (card_adapter C1) else ad_c2h_channel_max (card_adapter C1))" for wr ch
    by (rule up_accepts) (use dev that 1 in \<open>simp_all split: if_splits\<close>)
  moreover have "mac_addr_to_host_id (cd_dev_addr C1) = h" using 1 mac_leads_to_host by (simp add: h_def)
  ultimately show ?thesis using 1 h area fresh_area_fields(5) [OF h] by (intro exI [of _ h] exI [of _ d]) (simp add: h_def)
qed

text \<open>
  C14: Binding and unbinding balance. Removing the device after a successful probe gives back
  everything the DMA device holds and takes it off the list, clears the host's area so that it
  is no longer ready, and gives back all the driver acquired besides, the poll thread included,
  with one exception: the character device stays registered. This is for a probe that also
  created the character device and started the poll thread, two results \<open>probe_one\<close> does not
  look at (a removal after a failed creation releases its parts twice, and
  \<open>netif_napi_del\<close> would be given an error pointer as its thread); for interrupt mode, or another
  device already open (\<open>threads_kept\<close>); and for a kernel whose allocator and interrupt functions
  behave as documented (\<open>kernel_ok\<close>) and whose \<open>netif_napi_del\<close> stops the thread of the context it
  deletes, as Linux 5.15 does (\<open>napi_del_stops\<close>); the driver itself never stops it.
\<close>

theorem probe_remove_balanced:
  assumes "probe_one K G pdev C = Returns (0, C1)" and "threads_kept K (card_drv C)" and "kernel_ok K pdev (card_drv C)"
    and "sole_device pdev (card_drv C)" and "dg_log (cd_dbg C) = []"
    and "alloc_chrdev_region G = (0, no)" and "no \<noteq> 0" and "class_create G = Ptr p" and "device_create G \<noteq> Null_ptr"
    and "kcalloc_buf G \<noteq> None" and "cdev_add G = 0" and "kthread_run_poll K = Ptr t" and "napi_del_stops K"
  shows "\<exists>C2. remove_one K pdev C1 = Returns C2 \<and> held r (card_drv C2) = held r (card_drv C) \<and>
    xdev_list (card_drv C2) = xdev_list (card_drv C) \<and> \<not> cd_drvdata C2 \<and>
    \<not> pi_ready (a_info (card_shm C2 (ad_host_id (card_adapter C1)))) \<and>
    dheld q (cd_dbg C2) = (if q = D_cdev no then 1 else 0)"
  using assms(1)
proof (cases rule: probe_done)
  case (1 n d um hm cm s1 v D0 rvd D1)
  note dev = open_soft [OF 1(2,3) assms(2-4)]
  define X where "X = C1\<lparr>cd_dbg := free_resource (cd_dbg C1), cd_drvdata := False\<rparr>"
  have zero: "dheld x (cd_dbg C) = 0" for x using assms(5) by (simp add: dheld_def)
  have held: "dheld x (cd_dbg X) = (if x = N_netdev n \<or> x = N_map v \<or> x = N_napi n \<or> x = N_registered n \<or>
      x = D_cdev no \<or> x = N_thread t then 1 else 0)" for x
    using created_held [OF 1(5,6) assms(6-11), of "cd_dbg C1" x] 1 zero assms(12) by (auto simp: X_def)
  have X: "card_drv X = card_drv C1" "card_adapter X = card_adapter C1" "card_shm X = card_shm C1" "cd_netdev X = n"
      "shm_vaddr (cd_shm_info X) = v" "\<not> cd_drvdata X" "cd_poll_thread X = Ptr t"
    using 1 assms(12) by (simp_all add: X_def)
  have "poll_mode K = 0 \<or> remove1 d (xdev_list (card_drv X)) \<noteq> []"
    using assms(2) dev(6) by (simp add: X threads_kept_def)
  from adapter_free_effect [of K d pdev r "held r (card_drv C)" X v t, OF _ _ _ _ _ _ _ _ assms(13) this] dev X held 1
  obtain C2 where "adapter_free K X = Returns C2" "held r (card_drv C2) = held r (card_drv C)"
    "xdev_list (card_drv C2) = xdev_list (card_drv C)" "card_shm C2 = (card_shm C1)(ad_host_id (card_adapter C1) := zero_area)"
    "\<not> cd_drvdata C2"
    "\<And>q. dheld q (cd_dbg C2) = dheld q (cd_dbg X) -
      (if q = N_map v \<or> q = N_napi n \<or> q = N_thread t \<or> q = N_registered n \<or> q = N_netdev n then 1 else 0)"
    by auto
  moreover have "remove_one K pdev C1 = adapter_free K X"
    using 1 dev by (simp add: remove_one_def delete_debug_cdev_def X_def)
  ultimately show ?thesis using held [of q] by (auto simp: zero_area_def zero_packets_info_def)
qed

lemma submit_checks_tell [simp]: "submit_checks h ch wr (tell x s) = submit_checks h ch wr s"
  by (simp add: submit_checks_def debug_check_dev_hndl_def xdev_find_by_pdev_def xdma_device_flag_check_def Let_def
      cong: option.case_cong if_cong)


subsection \<open>Examples\<close>

text \<open>A board with the user BAR at 0 and the DMA core, with one channel in each direction, behind BAR 1.\<close>

definition sample_board :: hardware where
  "sample_board l a = (if a = 0x110000 + XDMA_OFS_INT_CTRL + ir_identifier then IRQ_BLOCK_ID
     else if a = 0x110000 + XDMA_OFS_CONFIG + offsetof config_regs ''identifier'' then CONFIG_BLOCK_ID
     else if a = 0x110000 + er_identifier then 0x1fc00000
     else if a = 0x110000 + H2C_CHANNEL_OFFSET + er_identifier then 0x1fc10000 else 0)"

definition sample_penv :: penv where
  "sample_penv = denv.extend (sample_denv\<lparr>ioread32 := sample_board,
       pci_resource_len := (\<lambda>p i. if i < 2 then 0x10000 else 0), pci_iomap := (\<lambda>l p i n. 0x100000 + i * 0x10000)\<rparr>)
     \<lparr>alloc_etherdev = Some 5, pci_ioremap_wc_bar = (\<lambda>p i. 0x5000), pdev_device = (\<lambda>p. 0x9148), register_netdev = 0,
      kthread_run_poll = Ptr 9,
      netif_napi_del = (\<lambda>listed n th. if listed
        then (case th of Ptr t \<Rightarrow> Some [Gave (N_napi n), Gave (N_thread t)] | Null_ptr \<Rightarrow> Some [Gave (N_napi n)]
              | Err_ptr _ \<Rightarrow> None) else Some []),
      pci_enable_device_mem = (\<lambda>p. 0)\<rparr>"

definition sample_card :: card where
  "sample_card = \<lparr>cd_dbg = sample_dbg\<lparr>dg_net := sample_net\<lparr>n_drv := sample_none\<rparr>\<rparr>,
     cd_shm_info = \<lparr>shm_vaddr = 0, shm_length = 0\<rparr>, cd_netdev = 0, cd_dev_addr = [], cd_name = [],
     cd_poll_thread = Null_ptr, cd_drvdata = False\<rparr>"

lemma board_bars:
  assumes "pci_resource_len K = (\<lambda>p i. if i < 2 then 0x10000 else 0)" and "pci_iomap K = (\<lambda>l p i n. 0x100000 + i * 0x10000)"
    and "ioread32 K = sample_board" and "dv_bar (devs s d) = replicate XDMA_BAR_NUM 0" and "dv_config_bar_idx (devs s d) = -1"
  shows "\<exists>s'. map_bars K d p s = (0, s') \<and> dv_user_bar_idx (devs s' d) = 0"
proof -
  have found: "fst (is_config_bar K d i x) = (i = 1)" if "dv_bar (devs x d) ! i = 0x100000 + i * 0x10000" "i < 2" for x i
  proof -
    have "i = 0 \<or> i = 1" using that(2) by auto
    then show ?thesis using that(1) assms(3)
      by (auto simp: is_config_bar_def Let_def case_prod_unfold sample_board_def XDMA_OFS_INT_CTRL_def XDMA_OFS_CONFIG_def
          IRQ_BLOCK_ID_def CONFIG_BLOCK_ID_def)
  qed
  define at where "at i x = tell (notice.Acquire (R_bar (0x100000 + i * 0x10000)))
    (set_bar d i (0x100000 + i * 0x10000) (set_bar d i 0 x))" for i x
  have one: "map_single_bar K d p i x = (0x10000, at i x)" if "i < 2" for i x
    using that by (simp add: map_single_bar_def INT_MAX_def at_def assms(1,2) Let_def)
  have at: "dv_bar (devs (at i x) d) ! i = 0x100000 + i * 0x10000" if "i < length (dv_bar (devs x d))" for i x
    using that by (simp add: at_def set_bar_def)
  define s0 where "s0 = snd (is_config_bar K d 0 (at 0 s))"
  have s0: "length (dv_bar (devs s0 d)) = 6" "dv_config_bar_idx (devs s0 d) = -1"
    by (simp_all add: s0_def is_config_bar_frame at_def set_bar_def assms(4,5) XDMA_BAR_NUM_def)
  define s1 where "s1 = upd_dev d (\<lambda>v. v\<lparr>dv_config_bar_idx := 1\<rparr>) (snd (is_config_bar K d 1 (at 1 s0)))"
  have cfg: "dv_config_bar_idx (devs (at i x) d) = dv_config_bar_idx (devs x d)" for i x by (simp add: at_def set_bar_def)
  have upt: "[0..<XDMA_BAR_NUM] = 0 # 1 # [2..<XDMA_BAR_NUM]" by (simp add: XDMA_BAR_NUM_def upt_conv_Cons)
  have f0: "\<not> fst (is_config_bar K d 0 (at 0 s))" "fst (is_config_bar K d 1 (at 1 s0))"
    using found [OF at, of 0 s] found [OF at, of 1 s0] s0(1) assms(4) by (simp_all add: XDMA_BAR_NUM_def)
  have loop: "bars_loop K d p [0..<XDMA_BAR_NUM] [] 0 s = bars_loop K d p [2..<XDMA_BAR_NUM] [0, 1] 1 s1"
    unfolding upt using f0 by (simp add: one cfg assms(5) s0(2) XDMA_BAR_SIZE_def case_prod_unfold s0_def [symmetric] s1_def)
  obtain s2 where s2: "bars_loop K d p [2..<XDMA_BAR_NUM] [0, 1] 1 s1 = (Some ([0, 1], 1), s2)"
      "dv_config_bar_idx (devs s2 d) = dv_config_bar_idx (devs s1 d)"
    by (rule bars_loop_absent [of "[2..<XDMA_BAR_NUM]" K p d "[0, 1]" 1 s1]) (auto simp: assms(1))
  show ?thesis unfolding map_bars_def loop s2(1) by (simp add: identify_bars_def s2(2) s1_def)
qed

lemma sample_penv_fields [simp]:
  "pci_resource_len sample_penv = (\<lambda>p i. if i < 2 then 0x10000 else 0)"
  "pci_iomap sample_penv = (\<lambda>l p i n. 0x100000 + i * 0x10000)" "ioread32 sample_penv = sample_board"
  "kzalloc_dev sample_penv = (\<lambda>_. Some 7)" "pci_enable_device sample_penv = (\<lambda>_. 0)"
  "pci_request_regions sample_penv = (\<lambda>_. 0)" "pci_set_dma_mask sample_penv = (\<lambda>_ _. 0)"
  "pci_alloc_irq_vectors sample_penv = (\<lambda>p n. int n)" "pci_enable_msi sample_penv = (\<lambda>p. 0)"
  "request_irq sample_penv = (\<lambda>_ _. 0)" "pci_read_config_byte sample_penv = (\<lambda>p r. 1)"
  "pci_irq_vector sample_penv = (\<lambda>p i. 40 + of_nat (i mod 32))" "pdev_irq sample_penv = (\<lambda>p. 11)" "poll_mode sample_penv = 0"
  "alloc_etherdev sample_penv = Some 5" "pci_ioremap_wc_bar sample_penv = (\<lambda>p i. 0x5000)"
  "pdev_device sample_penv = (\<lambda>p. 0x9148)" "register_netdev sample_penv = 0" "kthread_run_poll sample_penv = Ptr 9"
  "pci_enable_device_mem sample_penv = (\<lambda>p. 0)"
  by (simp_all add: sample_penv_def denv.defs sample_denv_def benv.defs sample_benv_def ienv.defs sample_ienv_def aenv.defs)

lemma sample_card_drv [simp]: "card_drv sample_card = sample_none" "dg_log (cd_dbg sample_card) = []"
  by (simp_all add: sample_card_def sample_dbg_def)

lemma sample_genv_fields [simp]:
  "alloc_chrdev_region sample_genv = (0, 240)" "class_create sample_genv = Ptr 1" "device_create sample_genv = Ptr 2"
  "kcalloc_buf sample_genv = Some 0x3000" "cdev_add sample_genv = 0"
  by (simp_all add: sample_genv_def nenv.extend_def)

lemma sample_board_ok:
  "cooperative sample_penv 2 (card_drv sample_card)" "threads_kept sample_penv (card_drv sample_card)"
  "kernel_ok sample_penv 2 (card_drv sample_card)" "sole_device 2 (card_drv sample_card)" "irqs_granted sample_penv 2"
  "obliging sample_penv sample_genv 2"
proof -
  note bars = board_bars [OF sample_penv_fields(1-3)]
  have "fst (map_bars sample_penv d 2 x) = 0" "0 \<le> dv_user_bar_idx (devs (snd (map_bars sample_penv d 2 x)) d)"
    if "dv_bar (devs x d) = replicate XDMA_BAR_NUM 0" "dv_config_bar_idx (devs x d) = -1" for d x
    using bars [OF that, of 2] by auto
  then show "cooperative sample_penv 2 (card_drv sample_card)" "obliging sample_penv sample_genv 2"
    by (simp_all add: cooperative_def obliging_def pci_ids_def create_debug_cdev_def Let_def)
  show "threads_kept sample_penv (card_drv sample_card)" "sole_device 2 (card_drv sample_card)"
    by (simp_all add: threads_kept_def sole_device_def sample_none_def)
  show "kernel_ok sample_penv 2 (card_drv sample_card)" "irqs_granted sample_penv 2"
    by (simp_all add: kernel_ok_def fresh_alloc_def sample_vector_nonzero sample_none_def irqs_granted_def)
qed

lemma sample_probe: obtains C1 where "probe_one sample_penv sample_genv 2 sample_card = Returns (0, C1)"
  by (rule probe_succeeds [OF sample_board_ok(1-4,6)])

theorem probe_outcomes_witness:
  "probe_one (sample_penv\<lparr>kzalloc_dev := (\<lambda>_. None)\<rparr>) sample_genv 2 sample_card = Out_of_range \<and>
   (\<exists>C1. probe_one sample_penv sample_genv 2 sample_card = Returns (0, C1) \<and> cd_drvdata C1)"
proof -
  let ?K = "sample_penv\<lparr>kzalloc_dev := (\<lambda>_. None)\<rparr>"
  have "fst (xdma_device_open ?K ''nupanet'' 2 u h c s) = None" for u h c s
    by (simp add: xdma_device_open_def open_pci_def alloc_dev_instance_def)
  moreover obtain C1 where C1: "probe_one sample_penv sample_genv 2 sample_card = Returns (0, C1)" by (rule sample_probe)
  ultimately show ?thesis
    using probe_outcomes [of ?K sample_genv 2 sample_card 0 C1] probe_outcomes [of sample_penv sample_genv 2 sample_card 0 C1]
    by simp
qed

theorem probe_ready_witness:
  "\<exists>C1. probe_one sample_penv sample_genv 2 sample_card = Returns (0, C1) \<and> card_shm C1 1 = fresh_area 1 \<and>
     mac_addr_to_host_id (cd_dev_addr C1) = 1"
proof -
  obtain C1 where C1: "probe_one sample_penv sample_genv 2 sample_card = Returns (0, C1)" by (rule sample_probe)
  have "ad_host_id (card_adapter C1) = 1"
    using C1 by (cases rule: probe_done) (simp add: device_id_to_host_id_def)
  then show ?thesis using C1 probe_ready [OF C1 sample_board_ok(2-4)] by (auto simp: pci_ids_def)
qed

theorem probe_remove_balanced_witness:
  "\<exists>C1 C2. probe_one sample_penv sample_genv 2 sample_card = Returns (0, C1) \<and> remove_one sample_penv 2 C1 = Returns C2 \<and>
     held (R_pci 2) (card_drv C2) = 0 \<and> dheld (D_cdev 240) (cd_dbg C2) = 1"
proof -
  obtain C1 where C1: "probe_one sample_penv sample_genv 2 sample_card = Returns (0, C1)" by (rule sample_probe)
  have "held (R_pci 2) sample_none = 0" by (simp add: sample_none_def held_def)
  moreover have "napi_del_stops sample_penv" by (simp add: napi_del_stops_def sample_penv_def denv.defs)
  ultimately show ?thesis
    using C1 probe_remove_balanced [OF C1 sample_board_ok(2-4), of 240 1 9 "R_pci 2" "D_cdev 240"] by auto
qed


end
