(* ===== verification/Xdma_Aperture.thy ===== *)
theory Xdma_Aperture
  imports Xdma_Submit
begin

text \<open>
  Transfers through an aperture (\<open>xdma_xfer_aperture\<close> of src/src/libxdma.c): the table is
  moved to or from a window of \<open>aperture\<close> bytes of the end point, beginning again at the
  window's start whenever its end is reached. The function builds its descriptors itself.
  The wait tests for \<open>TRANSFER_STATE_SUBMITTED\<close>, may time out or be interrupted, and lets
  \<open>meanwhile\<close> run.
\<close>

subsection \<open>Building the descriptors\<close>

text \<open>The locals that do not change while one transfer is built, and those that do.\<close>

record ap_frame =
  af_maxlen :: u32
  af_base :: u64
  af_max :: u64
  af_dir :: dma_dir
  af_desc_max :: u32

record ap_cursor =
  ap_ep :: u64
  ap_sg_offset :: u32
  ap_offset :: u32
  ap_len :: u32
  ap_idx :: u32
  ap_cnt :: u32
  ap_desc :: "xdma_desc list"

text \<open>The two adjustments at the window's end: the end point address and the length of a descriptor.\<close>

definition ap_wrap :: "ap_frame \<Rightarrow> u64 \<Rightarrow> u64" where
  "ap_wrap f ep = (if af_max f < ep then af_base f else ep)"

definition ap_cut :: "ap_frame \<Rightarrow> u64 \<Rightarrow> u32 \<Rightarrow> u32" where
  "ap_cut f ep len = (if af_max f < ep + ucast len then ucast (af_max f - ep + 1) else len)"

lemma unat_suc_below:
  fixes a b :: u32
  assumes "a < b"
  shows "unat (a + 1) = Suc (unat a)"
  using assms unat_bound [of b] by (subst unat_add_small) (simp_all add: word_less_nat_alt)

lemma room_shrinks:
  fixes a b :: u32
  shows "\<not> b \<le> a \<Longrightarrow> unat b - unat (a + 1) < unat b - unat a"
  by (simp add: unat_suc_below not_le word_less_nat_alt)

text \<open>
  \<open>while (tlen)\<close>: one descriptor per round; it is entered with a free descriptor and left
  when there is none any more.
\<close>

function window_loop :: "ap_frame \<Rightarrow> u64 \<Rightarrow> u32 \<Rightarrow> ap_cursor \<Rightarrow> u32 \<times> ap_cursor" where
  "window_loop f addr tlen c =
     (if tlen = 0 \<or> af_desc_max f \<le> ap_idx c then (tlen, c)
      else let ep = ap_wrap f (ap_ep c);
               len = ap_cut f ep (min tlen (af_maxlen f));
               i = unat (ap_idx c)
           in window_loop f (addr + ucast len) (tlen - len)
                (c\<lparr>ap_ep := ep + ucast len, ap_sg_offset := ap_sg_offset c + len,
                   ap_offset := ap_offset c + len, ap_len := ap_len c + len, ap_idx := ap_idx c + 1,
                   ap_cnt := ap_cnt c + 1,
                   ap_desc := (ap_desc c)[i := xdma_desc_set (ap_desc c ! i) addr ep len (af_dir f)]\<rparr>))"
  by pat_completeness auto
termination
  by (relation "measure (\<lambda>(f, addr, tlen, c). unat (af_desc_max f) - unat (ap_idx c))")
    (auto simp: room_shrinks)

declare window_loop.simps [simp del]

text \<open>The loop over the entries of the table; \<open>i\<close> is their index.\<close>

fun entries_loop :: "ap_frame \<Rightarrow> scatterlist list \<Rightarrow> nat \<Rightarrow> ap_cursor \<Rightarrow> nat \<times> ap_cursor" where
  "entries_loop f [] i c = (i, c)"
| "entries_loop f (sg # sgs) i c =
     (if af_desc_max f \<le> ap_idx c then (i, c)
      else let addr = sg_dma_address sg; tlen = sg_dma_len sg;
               (addr, tlen) = (if ap_sg_offset c \<noteq> 0
                               then (addr + ucast (ap_sg_offset c), tlen - ap_sg_offset c) else (addr, tlen));
               (tlen, c) = window_loop f addr tlen c
           in if tlen = 0 then entries_loop f sgs (Suc i) (c\<lparr>ap_sg_offset := 0\<rparr>) else (i, c))"

text \<open>Linking: unlike \<open>transfer_desc_init\<close> it comes after the descriptors have been filled.\<close>

definition ap_link :: "u64 \<Rightarrow> u32 \<Rightarrow> xdma_desc \<Rightarrow> xdma_desc" where
  "ap_link bus ctl d = d\<lparr>next_lo := PCI_DMA_L bus, next_hi := PCI_DMA_H bus, control := ctl\<rparr>"

primrec ap_link_loop :: "nat \<Rightarrow> nat \<Rightarrow> u64 \<Rightarrow> xdma_desc list \<Rightarrow> xdma_desc list" where
  "ap_link_loop 0 i bus ds = ds[i := ap_link 0 (DESC_MAGIC OR XDMA_DESC_STOPPED OR XDMA_DESC_EOP OR
                                               XDMA_DESC_COMPLETED) (ds ! i)]"
| "ap_link_loop (Suc n) i bus ds =
     (let bus = bus + of_nat sizeof_xdma_desc
      in ap_link_loop n (Suc i) bus (ds[i := ap_link bus DESC_MAGIC (ds ! i)]))"

text \<open>
  One transfer of the outer loop up to the release of the engine's lock. Without any
  descriptor the bound \<open>desc_cnt - 1\<close> of the linking loop wraps and the loop leaves the array
  (\<open>None\<close>). The position \<open>req->sg\<close> is read and never written.
\<close>

definition aperture_frame :: "'k kenv_scheme \<Rightarrow> xdma_engine \<Rightarrow> dma_dir \<Rightarrow> xdma_request_cb \<Rightarrow> ap_frame" where
  "aperture_frame K g dir req = \<lparr>af_maxlen = min (rq_aperture req) (desc_blen_max K), af_base = rq_ep_addr req,
     af_max = rq_ep_addr req + ucast (rq_aperture req) - 1, af_dir = dir, af_desc_max = e_desc_max g\<rparr>"

definition aperture_cursor :: "xdma_engine \<Rightarrow> xdma_request_cb \<Rightarrow> ap_cursor" where
  "aperture_cursor g req = \<lparr>ap_ep = rq_ep_addr req + ucast (rq_offset req AND (rq_aperture req - 1)),
     ap_sg_offset = rq_sg_offset req, ap_offset = rq_offset req, ap_len = 0, ap_idx = e_desc_idx g,
     ap_cnt = 0, ap_desc = the (e_desc g)\<rparr>"

definition aperture_build ::
  "'k kenv_scheme \<Rightarrow> eng_id \<Rightarrow> dma_dir \<Rightarrow> nat \<Rightarrow> nat \<Rightarrow> bool \<Rightarrow> xid \<Rightarrow> xdma_request_cb \<Rightarrow> drv \<Rightarrow>
   (xdma_request_cb \<times> drv) option" where
  "aperture_build K e dir sg_max g dma_mapped t req s =
     (let eg = engs s e; virt = unat (e_desc_idx eg);
          x = zero_transfer
                \<lparr>x_dir := e_dir eg, x_flags := (if dma_mapped then 0 else XFER_FLAG_NEED_UNMAP),
                 x_desc_virt := (e, virt), x_res_virt := (e, virt),
                 x_desc_bus := e_desc_bus eg + of_nat (sizeof_xdma_desc * virt),
                 x_res_bus := e_cyclic_result_bus eg + of_nat (sizeof_xdma_result * virt),
                 x_desc_index := e_desc_idx eg\<rparr>;
          (i, c) = entries_loop (aperture_frame K eg dir req)
                     (take (sg_max - rq_sg_idx req) (drop (rq_sg req) (sgl (sgts s g))))
                     (rq_sg_idx req) (aperture_cursor eg req);
          req = req\<lparr>rq_offset := ap_offset c, rq_sg_offset := ap_sg_offset c, rq_sg_idx := i\<rparr>;
          n = ap_cnt c
      in if n = 0 then None
      else let ds = ap_link_loop (unat n - 1) virt (x_desc_bus x) (ap_desc c);
               ds = adjacent_loop virt (unat n) ds;
               x = x\<lparr>x_len := ap_len c, x_desc_adjacent := n, x_desc_num := n, x_desc_cmpl_th := n\<rparr>;
               x = (if rq_offset req = rq_total_len req
                    then x\<lparr>x_last_in_request := True, x_sgt := Some g\<rparr> else x);
               s = upd_eng e (\<lambda>eg. eg\<lparr>e_desc := Some ds, e_desc_used := e_desc_used eg + n,
                     e_desc_idx := (e_desc_idx eg + n) mod e_desc_max eg\<rparr>) s
      in Some (req, upd_xfer t (\<lambda>_. x) s))"

subsection \<open>The transfers of a request\<close>

text \<open>The \<open>switch\<close> on the state of the transfer after the wait.\<close>

definition aperture_settle ::
  "'k xenv_scheme \<Rightarrow> eng_id \<Rightarrow> xid \<Rightarrow> int \<Rightarrow> drv \<Rightarrow> int \<times> int \<times> drv" where
  "aperture_settle K e t done s =
     (case x_state (xfers s t) of
        TRANSFER_STATE_COMPLETED \<Rightarrow> (0, done + int (unat (x_len (xfers s t))), s)
      | TRANSFER_STATE_FAILED \<Rightarrow> (- EIO, done, s)
      | _ \<Rightarrow>
          let (rv, s) = engine_status_read K (Some e) False True s;
              s = (if rv = 0
                   then let (rv, s) = transfer_abort (Some e) (Some t) s
                        in if rv = 0 then snd (xdma_engine_stop K (Some e) s) else s
                   else s)
          in (- ERESTARTSYS, done, s))"

definition aperture_round ::
  "'k xenv_scheme \<Rightarrow> eng_id \<Rightarrow> dma_dir \<Rightarrow> nat \<Rightarrow> nat \<Rightarrow> bool \<Rightarrow> xid \<Rightarrow> nat \<Rightarrow> xdma_request_cb \<Rightarrow> int \<Rightarrow> drv \<Rightarrow>
   (int \<times> int \<times> drv + xdma_request_cb \<times> int \<times> drv) option" where
  "aperture_round K e dir sg_max g dma_mapped t n req done s =
     (case aperture_build K e dir sg_max g dma_mapped t req s of
        None \<Rightarrow> None
      | Some (req, s) \<Rightarrow>
        let (rv, s) = transfer_queue K (Some e) (Some t) s
        in if rv < 0 then Some (Inl (rv, done, s))
        else let s = (case e_cmplthp (engs s e) of Some th \<Rightarrow> xdma_kthread_wakeup th s | None \<Rightarrow> s);
                 s = meanwhile K n s;
                 (rv, done, s) = aperture_settle K e t done s;
                 s = upd_eng e (\<lambda>g. g\<lparr>e_desc_used := e_desc_used g - x_desc_num (xfers s t)\<rparr>) s;
                 s = transfer_destroy t s
        in if rv < 0 then Some (Inl (rv, done, s)) else Some (Inr (req, done, s)))"

partial_function (option) aperture_loop ::
  "'k xenv_scheme \<Rightarrow> eng_id \<Rightarrow> dma_dir \<Rightarrow> nat \<Rightarrow> nat \<Rightarrow> bool \<Rightarrow> xid \<Rightarrow> nat \<Rightarrow> xdma_request_cb \<Rightarrow> int \<Rightarrow> drv \<Rightarrow>
   (int \<times> int \<times> drv) option" where
  "aperture_loop K e dir sg_max g dma_mapped t n req done s =
     (if rq_total_len req \<le> rq_offset req then Some (0, done, s)
      else case aperture_round K e dir sg_max g dma_mapped t n req done s of
             None \<Rightarrow> None
           | Some (Inl r) \<Rightarrow> Some r
           | Some (Inr (req, done, s)) \<Rightarrow> aperture_loop K e dir sg_max g dma_mapped t (Suc n) req done s)"

definition aperture_checks :: "eng_id option \<Rightarrow> dma_dir \<Rightarrow> drv \<Rightarrow> int + eng_id" where
  "aperture_checks engine dir s =
     (case engine of None \<Rightarrow> Inl (- EINVAL)
      | Some e \<Rightarrow>
        if e_magic (engs s e) \<noteq> MAGIC_ENGINE then Inl (- EINVAL)
        else if xdma_device_flag_check (the (e_xdev (engs s e))) XDEV_FLAG_OFFLINE s \<noteq> 0 then Inl (- EBUSY)
        else if e_dir (engs s e) \<noteq> dir then Inl (- EINVAL)
        else if e_streaming (engs s e) then Inl (- EINVAL)
        else Inr e)"

definition xdma_xfer_aperture ::
  "'k xenv_scheme \<Rightarrow> eng_id option \<Rightarrow> bool \<Rightarrow> u64 \<Rightarrow> u32 \<Rightarrow> nat \<Rightarrow> bool \<Rightarrow> xid \<Rightarrow> drv \<Rightarrow> (int \<times> drv) option" where
  "xdma_xfer_aperture K engine write ep_addr aperture g dma_mapped t s =
     (let dir = (if write then DMA_TO_DEVICE else DMA_FROM_DEVICE)
      in case aperture_checks engine dir s of
        Inl rv \<Rightarrow> Some (rv, s)
      | Inr e \<Rightarrow>
        (let (rv, s) = submit_map K g dma_mapped s
         in if rv \<noteq> 0 then Some (rv, s)
         else if \<not> req_alloc K (of_nat (sizeof_cb K)) then Some (- ENOMEM, unmap_sgl g dma_mapped s)
         else let req = zero_request\<lparr>rq_ep_addr := ep_addr, rq_aperture := aperture, rq_sg := 0,
                          rq_total_len := sum_list (map sg_dma_len (sg_entries (sgts s g)))\<rparr>
         in case aperture_loop K e dir (nents (sgts s g)) g dma_mapped t 0 req 0 s of
              None \<Rightarrow> None
            | Some (rv, done, s) \<Rightarrow>
                Some (if done \<noteq> 0 then done else rv, unmap_sgl g dma_mapped s)))"

subsection \<open>What the descriptors of a window move\<close>

text \<open>
  The end point addresses of \<open>n\<close> bytes from position \<open>pos\<close> on, and what one descriptor moves,
  byte by byte, as pairs of a host address and an end point address.
\<close>

definition window :: "u64 \<Rightarrow> u32 \<Rightarrow> nat \<Rightarrow> nat \<Rightarrow> u64 list" where
  "window base ap pos n = map (\<lambda>k. base + of_nat ((pos + k) mod unat ap)) [0..<n]"

definition byte_pairs :: "dma_dir \<Rightarrow> u64 \<times> u64 \<times> u32 \<Rightarrow> (u64 \<times> u64) list" where
  "byte_pairs dir m = (case m of (src, dst, n) \<Rightarrow>
     if dir = DMA_TO_DEVICE then zip (span src n) (span dst n) else zip (span dst n) (span src n))"

lemma unat_up: "unat (ucast (w :: u32) :: u64) = unat w"
  by (simp add: unsigned_ucast_eq take_bit_nat_eq_self_iff order_less_le_trans [OF unat_bound])

lemma unat_down: "unat (w :: u64) < 2 ^ 32 \<Longrightarrow> unat (ucast w :: u32) = unat w"
  by (simp add: unsigned_ucast_eq take_bit_nat_eq_self_iff)

lemma map_shift_upt: "map (\<lambda>i. h (v + i)) [0..<n] = map h [v..<v + n]"
  by (induction n) simp_all

lemma length_window [simp]: "length (window base ap pos n) = n"
  by (simp add: window_def)

lemma window_add: "window base ap pos (m + n) = window base ap pos m @ window base ap (pos + m) n"
proof -
  have "[0..<m + n] = [0..<m] @ map (\<lambda>k. k + m) [0..<n]"
    using upt_add_eq_append [of 0 m n] by (simp add: map_add_upt add.commute [of n m])
  moreover have "pos + (k + m) = pos + m + k" for k by simp
  ultimately show ?thesis by (simp only: window_def map_append map_map comp_def)
qed

definition frame_ok :: "ap_frame \<Rightarrow> u32 \<Rightarrow> bool" where
  "frame_ok f ap \<longleftrightarrow> af_maxlen f \<noteq> 0 \<and> af_maxlen f \<le> ap \<and> af_max f = af_base f + ucast ap - 1 \<and>
     unat (af_base f) + 2 * unat ap \<le> 2 ^ 64 \<and> (af_dir f = DMA_TO_DEVICE \<or> af_dir f = DMA_FROM_DEVICE)"

definition at_window :: "ap_frame \<Rightarrow> u32 \<Rightarrow> nat \<Rightarrow> u64 \<Rightarrow> bool" where
  "at_window f ap pos ep \<longleftrightarrow> (\<exists>r\<le>unat ap. unat ep = unat (af_base f) + r \<and> r mod unat ap = pos mod unat ap)"

lemma unat_af_max:
  assumes "frame_ok f ap"
  shows "unat (af_max f) = unat (af_base f) + unat ap - 1" and "0 < unat ap"
proof -
  show pos: "0 < unat ap" using assms by (auto simp: frame_ok_def word_le_nat_alt unat_gt_0 unat_eq_0)
  then have "af_max f = of_nat (unat (af_base f) + unat ap - 1)"
    using assms by (simp add: frame_ok_def of_nat_diff)
  moreover have "unat (af_base f) + unat ap - 1 < 2 ^ 64" using assms pos unfolding frame_ok_def by linarith
  ultimately show "unat (af_max f) = unat (af_base f) + unat ap - 1"
    by (simp only:) (intro unat_of_nat_small, simp)
qed

lemma ap_wrap_at:
  assumes "frame_ok f ap" and "at_window f ap pos ep"
  shows "unat (ap_wrap f ep) = unat (af_base f) + pos mod unat ap"
proof -
  obtain r where r: "r \<le> unat ap" "unat ep = unat (af_base f) + r" "r mod unat ap = pos mod unat ap"
    using assms(2) by (auto simp: at_window_def)
  note m = unat_af_max [OF assms(1)]
  show ?thesis
  proof (cases "r = unat ap")
    case True
    then have "af_max f < ep" using r m by (simp add: word_less_nat_alt)
    then show ?thesis using r(3) True by (simp add: ap_wrap_def)
  next
    case False
    then have "\<not> af_max f < ep" using r m by (simp add: word_less_nat_alt)
    then show ?thesis using r False by (simp add: ap_wrap_def)
  qed
qed

lemma ap_cut_at:
  assumes ok: "frame_ok f ap" and ep: "unat ep = unat (af_base f) + r" and r: "r < unat ap"
    and len: "len \<le> ap"
  shows "unat (ap_cut f ep len) = min (unat len) (unat ap - r)"
proof -
  note m = unat_af_max [OF ok]
  have len': "unat len \<le> unat ap" using len by (simp add: word_le_nat_alt)
  have "unat (ucast len :: u64) = unat len" by (rule unat_up)
  moreover have "unat ep + unat len < 2 ^ 64" using ok ep r len' by (simp add: frame_ok_def)
  ultimately have sum: "unat (ep + ucast len) = unat ep + unat len" by (subst unat_add_small) simp_all
  have "unat (af_max f - ep) = unat ap - 1 - r"
    using m ep r by (subst unat_sub) (simp_all add: word_le_nat_alt)
  then have "unat (af_max f - ep + 1) = unat ap - r"
    using r unat_bound [of ap] by (subst unat_add_small) simp_all
  then have "unat (ucast (af_max f - ep + 1) :: u32) = unat ap - r"
    using unat_bound [of ap] by (subst unat_down) simp_all
  then show ?thesis using sum m ep r len' by (auto simp: ap_cut_def word_less_nat_alt)
qed

text \<open>One round of the inner loop: its descriptor is not empty and stays inside the window.\<close>

lemma window_step:
  assumes ok: "frame_ok f ap" and at: "at_window f ap pos ep" and tlen: "tlen \<noteq> 0"
    and ep': "ep' = ap_wrap f ep" and len: "len = ap_cut f ep' (min tlen (af_maxlen f))"
  shows "0 < len" and "len \<le> tlen" and "len \<le> af_maxlen f"
    and "span ep' len = window (af_base f) ap pos (unat len)"
    and "at_window f ap (pos + unat len) (ep' + ucast len)"
proof -
  define r where "r = pos mod unat ap"
  have r: "r < unat ap" using unat_af_max(2) [OF ok] by (simp add: r_def)
  have e: "unat ep' = unat (af_base f) + r" using ap_wrap_at [OF ok at] by (simp add: ep' r_def)
  have l: "unat len = min (min (unat tlen) (unat (af_maxlen f))) (unat ap - r)"
    using ap_cut_at [OF ok e r] ok by (simp add: len unat_min frame_ok_def min.coboundedI2)
  show "0 < len" "len \<le> tlen" "len \<le> af_maxlen f"
    using l r tlen ok by (auto simp: word_less_nat_alt word_le_nat_alt frame_ok_def unat_gt_0)
  have fit: "r + unat len \<le> unat ap" using l r by simp
  have "ep' + of_nat k = af_base f + of_nat ((pos + k) mod unat ap)" if "k < unat len" for k
  proof -
    have "(pos + k) mod unat ap = (r + k) mod unat ap" by (simp add: r_def mod_simps)
    also have "\<dots> = r + k" using fit that by simp
    finally have "of_nat ((pos + k) mod unat ap) = (of_nat r + of_nat k :: u64)" by simp
    moreover have "of_nat (unat ep') = af_base f + of_nat r" unfolding e by simp
    ultimately show ?thesis by (simp add: add.assoc)
  qed
  then show "span ep' len = window (af_base f) ap pos (unat len)"
    by (simp add: span_def window_def)
  have "unat (ep' + ucast len) = unat (af_base f) + (r + unat len)"
    using e fit ok r by (subst unat_add_small) (simp_all add: frame_ok_def unat_up)
  moreover have "(r + unat len) mod unat ap = (pos + unat len) mod unat ap" by (simp add: r_def mod_simps)
  ultimately show "at_window f ap (pos + unat len) (ep' + ucast len)"
    using fit by (auto simp: at_window_def)
qed

text \<open>
  What filling descriptors achieves between two cursors: the descriptors of the slots in
  between are not empty nor too long and move exactly the pairs \<open>ps\<close>, and no other slot has
  changed.
\<close>

definition moved :: "ap_frame \<Rightarrow> xdma_desc list \<Rightarrow> nat \<Rightarrow> nat \<Rightarrow> (u64 \<times> u64) list" where
  "moved f ds i j = concat (map (\<lambda>k. byte_pairs (af_dir f) (desc_move (ds ! k))) [i..<j])"

definition filled :: "ap_frame \<Rightarrow> ap_cursor \<Rightarrow> ap_cursor \<Rightarrow> (u64 \<times> u64) list \<Rightarrow> bool" where
  "filled f c c' ps \<longleftrightarrow>
     ap_idx c \<le> ap_idx c' \<and> ap_idx c' \<le> af_desc_max f \<and> ap_cnt c' = ap_cnt c + (ap_idx c' - ap_idx c) \<and>
     ap_offset c' = ap_offset c + of_nat (length ps) \<and> ap_len c' = ap_len c + of_nat (length ps) \<and>
     length (ap_desc c') = length (ap_desc c) \<and>
     (\<forall>k. k < unat (ap_idx c) \<or> unat (ap_idx c') \<le> k \<longrightarrow> ap_desc c' ! k = ap_desc c ! k) \<and>
     (\<forall>k. unat (ap_idx c) \<le> k \<and> k < unat (ap_idx c') \<longrightarrow>
          0 < bytes (ap_desc c' ! k) \<and> bytes (ap_desc c' ! k) \<le> af_maxlen f) \<and>
     moved f (ap_desc c') (unat (ap_idx c)) (unat (ap_idx c')) = ps"

lemma moved_append: "i \<le> j \<Longrightarrow> j \<le> k \<Longrightarrow> moved f ds i k = moved f ds i j @ moved f ds j k"
  using upt_add_eq_append [of i j "k - j"] by (simp add: moved_def)

lemma moved_cong:
  "(\<And>k. i \<le> k \<Longrightarrow> k < j \<Longrightarrow> ds ! k = ds' ! k) \<Longrightarrow> moved f ds i j = moved f ds' i j"
  unfolding moved_def by (rule arg_cong [of _ _ concat]) (rule map_cong, auto)

lemma filled_refl: "ap_idx c \<le> af_desc_max f \<Longrightarrow> filled f c c []"
  by (auto simp: filled_def moved_def)

lemma filled_trans:
  assumes "filled f a b ps" and "filled f b c qs"
  shows "filled f a c (ps @ qs)"
proof -
  have le: "unat (ap_idx a) \<le> unat (ap_idx b)" "unat (ap_idx b) \<le> unat (ap_idx c)"
    using assms by (simp_all add: filled_def word_le_nat_alt)
  have "moved f (ap_desc c) (unat (ap_idx a)) (unat (ap_idx b)) = ps"
    using assms moved_cong [of "unat (ap_idx a)" "unat (ap_idx b)" "ap_desc c" "ap_desc b" f]
    by (simp add: filled_def)
  moreover have "0 < bytes (ap_desc c ! k) \<and> bytes (ap_desc c ! k) \<le> af_maxlen f"
    if "unat (ap_idx a) \<le> k" "k < unat (ap_idx c)" for k
    using assms that by (cases "k < unat (ap_idx b)") (auto simp: filled_def)
  moreover have "ap_cnt c = ap_cnt a + (ap_idx c - ap_idx a)"
    using assms by (simp add: filled_def)
  ultimately show ?thesis
    using assms moved_append [OF le, of f "ap_desc c"] le
    by (auto simp: filled_def word_le_nat_alt add.assoc)
qed

lemma byte_pairs_set:
  "dir = DMA_TO_DEVICE \<or> dir = DMA_FROM_DEVICE \<Longrightarrow>
   byte_pairs dir (desc_move (xdma_desc_set d addr ep len dir)) = zip (span addr len) (span ep len)"
  by (auto simp: byte_pairs_def desc_move_def)

lemma filled_step:
  assumes ok: "frame_ok f ap" and at: "at_window f ap pos (ap_ep c)" and tlen: "tlen \<noteq> 0"
    and idx: "ap_idx c < af_desc_max f" and len: "unat (af_desc_max f) \<le> length (ap_desc c)"
    and ep': "ep' = ap_wrap f (ap_ep c)" and l: "l = ap_cut f ep' (min tlen (af_maxlen f))"
    and c': "ap_idx c' = ap_idx c + 1" "ap_cnt c' = ap_cnt c + 1" "ap_offset c' = ap_offset c + l"
      "ap_len c' = ap_len c + l"
      "ap_desc c' = (ap_desc c)[unat (ap_idx c) := xdma_desc_set (ap_desc c ! unat (ap_idx c)) addr ep' l (af_dir f)]"
  shows "filled f c c' (zip (span addr l) (window (af_base f) ap pos (unat l)))"
proof -
  note st = window_step [OF ok at tlen ep' l]
  have i: "unat (ap_idx c + 1) = Suc (unat (ap_idx c))" using unat_suc_below [OF idx] .
  have lt: "unat (ap_idx c) < length (ap_desc c)" using idx len by (simp add: word_less_nat_alt)
  have "moved f (ap_desc c') (unat (ap_idx c)) (Suc (unat (ap_idx c))) = zip (span addr l) (span ep' l)"
    using ok lt by (simp add: moved_def c'(5) byte_pairs_set frame_ok_def)
  moreover have "ap_idx c \<le> ap_idx c + 1" "ap_idx c + 1 \<le> af_desc_max f"
    using i idx by (simp_all add: word_le_nat_alt word_less_nat_alt)
  moreover have "0 < bytes (ap_desc c' ! k) \<and> bytes (ap_desc c' ! k) \<le> af_maxlen f" if "k = unat (ap_idx c)" for k
    using st(1,3) lt that by (simp add: c')
  ultimately show ?thesis
    using st(4) lt by (auto simp: filled_def c' i less_Suc_eq_le)
qed

lemma window_loop_fills:
  "frame_ok f ap \<Longrightarrow> at_window f ap pos (ap_ep c) \<Longrightarrow> ap_idx c \<le> af_desc_max f \<Longrightarrow>
   unat (af_desc_max f) \<le> length (ap_desc c) \<Longrightarrow> window_loop f addr tlen c = (t', c') \<Longrightarrow>
   t' \<le> tlen \<and> filled f c c' (zip (span addr (tlen - t')) (window (af_base f) ap pos (unat (tlen - t')))) \<and>
   at_window f ap (pos + unat (tlen - t')) (ap_ep c') \<and> ap_sg_offset c' = ap_sg_offset c + (tlen - t') \<and>
   (t' = 0 \<or> ap_idx c' = af_desc_max f) \<and> (tlen \<noteq> 0 \<and> ap_idx c < af_desc_max f \<longrightarrow> t' < tlen)"
proof (induction f addr tlen c arbitrary: pos rule: window_loop.induct)
  case (1 f addr tlen c)
  show ?case
  proof (cases "tlen = 0 \<or> af_desc_max f \<le> ap_idx c")
    case True
    then have "t' = tlen" "c' = c" using "1.prems"(5) by (auto simp: window_loop.simps)
    then show ?thesis using True "1.prems" by (auto simp: filled_refl)
  next
    case False
    define ep' where "ep' = ap_wrap f (ap_ep c)"
    define l where "l = ap_cut f ep' (min tlen (af_maxlen f))"
    define c1 where "c1 = c\<lparr>ap_ep := ep' + ucast l, ap_sg_offset := ap_sg_offset c + l,
       ap_offset := ap_offset c + l, ap_len := ap_len c + l, ap_idx := ap_idx c + 1, ap_cnt := ap_cnt c + 1,
       ap_desc := (ap_desc c)[unat (ap_idx c) :=
         xdma_desc_set (ap_desc c ! unat (ap_idx c)) addr ep' l (af_dir f)]\<rparr>"
    have rec: "window_loop f (addr + ucast l) (tlen - l) c1 = (t', c')"
      using "1.prems"(5) False by (subst (asm) window_loop.simps)
        (simp add: Let_def ep'_def [symmetric] l_def [symmetric] c1_def [symmetric])
    have tl: "tlen \<noteq> 0" and lt: "ap_idx c < af_desc_max f" using False by auto
    note st = window_step [OF "1.prems"(1,2) tl ep'_def l_def]
    have fill: "filled f c c1 (zip (span addr l) (window (af_base f) ap pos (unat l)))"
      by (rule filled_step [OF "1.prems"(1,2) tl lt "1.prems"(4) ep'_def l_def]) (simp_all add: c1_def)
    have IH: "t' \<le> tlen - l \<and>
        filled f c1 c' (zip (span (addr + ucast l) (tlen - l - t'))
          (window (af_base f) ap (pos + unat l) (unat (tlen - l - t')))) \<and>
        at_window f ap (pos + unat l + unat (tlen - l - t')) (ap_ep c') \<and>
        ap_sg_offset c' = ap_sg_offset c1 + (tlen - l - t') \<and> (t' = 0 \<or> ap_idx c' = af_desc_max f)"
      using "1.IH" [OF False ep'_def l_def refl, of "pos + unat l"] "1.prems"(1,4) st(5) rec fill
      by (simp add: c1_def [symmetric]) (simp add: c1_def filled_def)
    have le: "l \<le> tlen - t'" "t' < tlen" "tlen - l - t' = tlen - t' - l"
      "unat (tlen - t') = unat l + unat (tlen - t' - l)"
      using IH st(1,2) by (auto simp: word_le_nat_alt word_less_nat_alt unat_sub)
    have "zip (span addr (tlen - t')) (window (af_base f) ap pos (unat (tlen - t')))
        = zip (span addr l) (window (af_base f) ap pos (unat l)) @
          zip (span (addr + ucast l) (tlen - l - t')) (window (af_base f) ap (pos + unat l) (unat (tlen - l - t')))"
      unfolding span_split [OF le(1), of addr, symmetric] le(3,4) window_add by (simp add: zip_append)
    then have "filled f c c' (zip (span addr (tlen - t')) (window (af_base f) ap pos (unat (tlen - t'))))"
      using filled_trans [OF fill] IH by simp
    then show ?thesis using IH le by (simp add: c1_def add.assoc order_less_imp_le)
  qed
qed

text \<open>The bytes of a table, and those that are left from an offset into its first entry on.\<close>

definition host_bytes :: "scatterlist list \<Rightarrow> u64 list" where
  "host_bytes es = concat (map (\<lambda>x. span (sg_dma_address x) (sg_dma_len x)) es)"

definition offset_ok :: "u32 \<Rightarrow> scatterlist list \<Rightarrow> bool" where
  "offset_ok off es \<longleftrightarrow> (case es of [] \<Rightarrow> off = 0 | x # _ \<Rightarrow> off \<le> sg_dma_len x)"

lemma host_bytes_simps [simp]:
  "host_bytes [] = []" "host_bytes (x # es) = span (sg_dma_address x) (sg_dma_len x) @ host_bytes es"
  by (simp_all add: host_bytes_def)

lemma length_host_bytes: "length (host_bytes es) = sum_list (map (\<lambda>x. unat (sg_dma_len x)) es)"
  by (induction es) simp_all

lemma drop_host_bytes:
  assumes "off \<le> sg_dma_len x"
  shows "drop (unat off) (host_bytes (x # es)) =
           span (sg_dma_address x + ucast off) (sg_dma_len x - off) @ host_bytes es"
proof -
  have "host_bytes (x # es) = span (sg_dma_address x) off @
      span (sg_dma_address x + ucast off) (sg_dma_len x - off) @ host_bytes es"
    using span_split [OF assms, of "sg_dma_address x"] by simp
  then show ?thesis by simp
qed

lemma filled_sg_offset [simp]:
  "filled f (c\<lparr>ap_sg_offset := o'\<rparr>) c' ps = filled f c c' ps" by (simp add: filled_def)

lemma entries_loop_fills:
  assumes ok: "frame_ok f ap"
  shows "at_window f ap pos (ap_ep c) \<Longrightarrow> ap_idx c \<le> af_desc_max f \<Longrightarrow>
    unat (af_desc_max f) \<le> length (ap_desc c) \<Longrightarrow> offset_ok (ap_sg_offset c) es \<Longrightarrow>
    entries_loop f es i c = (i', c') \<Longrightarrow> hb = drop (unat (ap_sg_offset c)) (host_bytes es) \<Longrightarrow>
    \<exists>n\<le>length hb. filled f c c' (zip (take n hb) (window (af_base f) ap pos n)) \<and>
      at_window f ap (pos + n) (ap_ep c') \<and> i \<le> i' \<and> i' \<le> i + length es \<and>
      drop (unat (ap_sg_offset c')) (host_bytes (drop (i' - i) es)) = drop n hb \<and>
      offset_ok (ap_sg_offset c') (drop (i' - i) es) \<and>
      (n = length hb \<or> ap_idx c' = af_desc_max f) \<and> (hb \<noteq> [] \<and> ap_idx c < af_desc_max f \<longrightarrow> 0 < n)"
proof (induction es arbitrary: i c pos hb)
  case Nil
  then show ?case by (intro exI [of _ 0]) (simp add: filled_refl offset_ok_def window_def)
next
  case (Cons x es)
  show ?case
  proof (cases "af_desc_max f \<le> ap_idx c")
    case True
    then show ?thesis using Cons.prems by (intro exI [of _ 0]) (auto simp: filled_refl)
  next
    case False
    let ?off = "ap_sg_offset c"
    define addr where "addr = sg_dma_address x + ucast ?off"
    define tlen where "tlen = sg_dma_len x - ?off"
    have off: "?off \<le> sg_dma_len x" using Cons.prems(4) by (simp add: offset_ok_def)
    have hb: "hb = span addr tlen @ host_bytes es"
      using Cons.prems(6) drop_host_bytes [OF off] by (simp add: addr_def tlen_def)
    obtain t1 c1 where w: "window_loop f addr tlen c = (t1, c1)" by fastforce
    note wl = window_loop_fills [OF ok Cons.prems(1,2,3) w]
    define m where "m = unat (tlen - t1)"
    have m: "m \<le> unat tlen" "t1 = 0 \<Longrightarrow> m = unat tlen" "span addr (tlen - t1) = take m (span addr tlen)"
    proof -
      show "m \<le> unat tlen" using wl by (simp add: m_def unat_sub word_le_nat_alt)
      show "t1 = 0 \<Longrightarrow> m = unat tlen" by (simp add: m_def)
      have "tlen - t1 \<le> tlen" using wl by (simp add: word_le_nat_alt unat_sub)
      from span_split [OF this, of addr] show "span addr (tlen - t1) = take m (span addr tlen)"
        by (metis m_def append_eq_conv_conj length_span)
    qed
    have fill: "filled f c c1 (zip (take m hb) (window (af_base f) ap pos m))"
      using wl m(1) by (simp add: m(3) hb m_def [symmetric])
    have run: "entries_loop f (x # es) i c = (if t1 = 0 then entries_loop f es (Suc i) (c1\<lparr>ap_sg_offset := 0\<rparr>) else (i, c1))"
      using False w by (auto simp: addr_def tlen_def Let_def)
    show ?thesis
    proof (cases "t1 = 0")
      case False
      have "unat (ap_sg_offset c1) = unat ?off + m"
      proof -
        have "unat ?off + m \<le> unat (sg_dma_len x)"
          using m(1) off by (simp add: tlen_def unat_sub word_le_nat_alt)
        then show ?thesis
          using wl unat_bound [of "sg_dma_len x"] by (simp add: m_def unat_add_small)
      qed
      moreover have "m + unat ?off \<le> unat (sg_dma_len x)"
        using m(1) off by (simp add: tlen_def unat_sub word_le_nat_alt)
      moreover have "m \<le> length hb" using m(1) by (simp add: hb)
      moreover have "0 < m" using wl False \<open>\<not> af_desc_max f \<le> ap_idx c\<close>
        by (auto simp: m_def unat_gt_0)
      ultimately show ?thesis
        using fill wl False Cons.prems(5,6) run
        by (intro exI [of _ m]) (auto simp: m_def [symmetric] offset_ok_def word_le_nat_alt add.commute)
    next
      case True
      then have hm: "drop m hb = host_bytes es" "length hb = m + length (host_bytes es)"
        using m(2) by (simp_all add: hb)
      have "\<exists>n\<le>length (host_bytes es).
          filled f (c1\<lparr>ap_sg_offset := 0\<rparr>) c' (zip (take n (host_bytes es)) (window (af_base f) ap (pos + m) n)) \<and>
          at_window f ap (pos + m + n) (ap_ep c') \<and> Suc i \<le> i' \<and> i' \<le> Suc i + length es \<and>
          drop (unat (ap_sg_offset c')) (host_bytes (drop (i' - Suc i) es)) = drop n (host_bytes es) \<and>
          offset_ok (ap_sg_offset c') (drop (i' - Suc i) es) \<and>
          (n = length (host_bytes es) \<or> ap_idx c' = af_desc_max f) \<and>
          (host_bytes es \<noteq> [] \<and> ap_idx (c1\<lparr>ap_sg_offset := 0\<rparr>) < af_desc_max f \<longrightarrow> 0 < n)"
        by (rule Cons.IH) (use wl fill run True Cons.prems in
            \<open>auto simp: m_def filled_def offset_ok_def split: list.split\<close>)
      then obtain n where n: "n \<le> length (host_bytes es)"
          "filled f c1 c' (zip (take n (host_bytes es)) (window (af_base f) ap (pos + m) n))"
          "at_window f ap (pos + m + n) (ap_ep c')" "Suc i \<le> i'" "i' \<le> Suc i + length es"
          "drop (unat (ap_sg_offset c')) (host_bytes (drop (i' - Suc i) es)) = drop n (host_bytes es)"
          "offset_ok (ap_sg_offset c') (drop (i' - Suc i) es)"
          "n = length (host_bytes es) \<or> ap_idx c' = af_desc_max f"
          "host_bytes es \<noteq> [] \<and> ap_idx c1 < af_desc_max f \<longrightarrow> 0 < n"
        by auto
      have "filled f c c' (zip (take (m + n) hb) (window (af_base f) ap pos (m + n)))"
        using filled_trans [OF fill n(2)] hm by (simp add: take_add window_add zip_append)
      moreover have "i' - i = Suc (i' - Suc i)" using n(4) by simp
      moreover have "drop (m + n) hb = drop n (host_bytes es)" using hm(1) by (metis add.commute drop_drop)
      moreover have "0 < m + n" if "hb \<noteq> []"
      proof (cases "m = 0")
        case True
        then have "tlen = 0" using m(2) \<open>t1 = 0\<close> by (simp add: unat_eq_0)
        then have "c1 = c" using w by (simp add: window_loop.simps)
        then show ?thesis using n(9) that hm True False by auto
      qed simp
      ultimately show ?thesis
        using n(1,3,4,5,6,7,8) hm(2) by (intro exI [of _ "m + n"]) (simp add: add.assoc)
    qed
  qed
qed

subsection \<open>The chain of a transfer\<close>

lemma length_ap_link_loop [simp]: "length (ap_link_loop n i bus ds) = length ds"
  by (induction n arbitrary: i bus ds) (simp_all add: Let_def)

lemma nth_ap_link_loop:
  "i + n < length ds \<Longrightarrow> ap_link_loop n i bus ds ! k =
     (if i \<le> k \<and> k < i + n then ap_link (bus + of_nat (sizeof_xdma_desc * (k - i + 1))) DESC_MAGIC (ds ! k)
      else if k = i + n
      then ap_link 0 (DESC_MAGIC OR XDMA_DESC_STOPPED OR XDMA_DESC_EOP OR XDMA_DESC_COMPLETED) (ds ! k)
      else ds ! k)"
proof (induction n arbitrary: i bus ds)
  case 0
  then show ?case by (auto simp: nth_list_update)
next
  case (Suc n)
  show ?case
  proof (cases "k = i")
    case True
    then show ?thesis using Suc by (simp add: Let_def)
  next
    case False
    moreover have "k - i = Suc (k - Suc i)" if "Suc i \<le> k" using that by simp
    ultimately show ?thesis using Suc by (auto simp: Let_def algebra_simps)
  qed
qed

lemma ap_link_fields [simp]:
  "next_addr (ap_link bus ctl d) = bus" "desc_move (ap_link bus ctl d) = desc_move d"
  "ctl_field (ap_link bus ctl d) = ctl AND 0xFF"
  by (simp_all add: ap_link_def desc_read_defs desc_move_def)

lemma desc_move_adjacent [simp]: "desc_move (xdma_desc_adjacent d n) = desc_move d"
  by (simp add: desc_move_def)

lemma ap_chain:
  assumes n: "0 < n" "v + n \<le> length ds" "v + n \<le> 2 ^ 31"
    and ds': "ds' = adjacent_loop v n (ap_link_loop (n - 1) v (base + of_nat (sizeof_xdma_desc * v)) ds)"
  shows "linked base ds' v n" and "i < n \<Longrightarrow> desc_move (ds' ! (v + i)) = desc_move (ds ! (v + i))"
    and "k < v \<or> v + n \<le> k \<Longrightarrow> ds' ! k = ds ! k"
proof -
  define l where "l = ap_link_loop (n - 1) v (base + of_nat (sizeof_xdma_desc * v)) ds"
  have lt: "v + (n - 1) < length ds" using n by simp
  have l: "l ! k = (if v \<le> k \<and> k < v + (n - 1)
        then ap_link (base + of_nat (sizeof_xdma_desc * (v + Suc (k - v)))) DESC_MAGIC (ds ! k)
        else if k = v + (n - 1)
        then ap_link 0 (DESC_MAGIC OR XDMA_DESC_STOPPED OR XDMA_DESC_EOP OR XDMA_DESC_COMPLETED) (ds ! k)
        else ds ! k)" for k
  proof -
    have "base + of_nat (sizeof_xdma_desc * v) + of_nat (sizeof_xdma_desc * (j + 1))
        = base + of_nat (sizeof_xdma_desc * (v + Suc j))" for j by (simp add: algebra_simps)
    then show ?thesis unfolding l_def nth_ap_link_loop [OF lt] by (simp only:)
  qed
  have len: "length l = length ds" by (simp add: l_def)
  have ds': "ds' = adjacent_loop v n l" by (simp add: ds' l_def)
  have d: "\<exists>a. ds' ! (v + i) = xdma_desc_adjacent (l ! (v + i)) a" if "i < n" for i
    using that n len by (auto simp: ds' nth_adjacent_loop)
  have li: "l ! (v + i) = (if i = n - 1
        then ap_link 0 (DESC_MAGIC OR XDMA_DESC_STOPPED OR XDMA_DESC_EOP OR XDMA_DESC_COMPLETED) (ds ! (v + i))
        else ap_link (base + of_nat (sizeof_xdma_desc * (v + Suc i))) DESC_MAGIC (ds ! (v + i)))"
    if "i < n" for i
    using that by (simp only: l) auto
  have "ctl_field (ds' ! (v + i)) AND XDMA_DESC_STOPPED \<noteq> 0 \<longleftrightarrow> i = n - 1" if "i < n" for i
    using d [OF that] li [OF that] by (cases "i = n - 1") (auto simp: xdma_const)
  moreover have "next_addr (ds' ! (v + i)) = base + of_nat (sizeof_xdma_desc * (v + Suc i))"
    if "i < n" "i \<noteq> n - 1" for i
    using d [OF that(1)] li [OF that(1)] that(2) by (auto simp del: of_nat_mult of_nat_add)
  ultimately show "linked base ds' v n" using n(3) by (simp add: linked_def del: of_nat_mult of_nat_add)
  show "i < n \<Longrightarrow> desc_move (ds' ! (v + i)) = desc_move (ds ! (v + i))"
    using d [of i] li [of i] by (auto split: if_splits)
  show "k < v \<or> v + n \<le> k \<Longrightarrow> ds' ! k = ds ! k"
    using n len by (auto simp: ds' nth_adjacent_loop l)
qed

text \<open>What the hardware moves when it walks the chain of a transfer, byte by byte.\<close>

definition hw_bytes :: "eng_id \<Rightarrow> dma_dir \<Rightarrow> xid \<Rightarrow> drv \<Rightarrow> (u64 \<times> u64) list" where
  "hw_bytes e dir t s = concat (map (byte_pairs dir)
     (hw_walk (unat (e_desc_max (engs s e))) (e_desc_bus (engs s e)) (the (e_desc (engs s e))) (x_desc_bus (xfers s t))))"

text \<open>The entries the next transfer of a request starts from, and when its position is sound.\<close>

definition next_entries :: "nat \<Rightarrow> nat \<Rightarrow> xdma_request_cb \<Rightarrow> drv \<Rightarrow> scatterlist list" where
  "next_entries sg_max g req s = take (sg_max - rq_sg_idx req) (drop (rq_sg req) (sgl (sgts s g)))"

definition aperture_ready :: "'k kenv_scheme \<Rightarrow> dma_dir \<Rightarrow> xdma_request_cb \<Rightarrow> scatterlist list \<Rightarrow> bool" where
  "aperture_ready K dir req es \<longleftrightarrow>
     desc_blen_max K \<noteq> 0 \<and> rq_aperture req \<noteq> 0 \<and> unat (rq_ep_addr req) + 2 * unat (rq_aperture req) \<le> 2 ^ 64 \<and>
     (dir = DMA_TO_DEVICE \<or> dir = DMA_FROM_DEVICE) \<and>
     rq_offset req AND (rq_aperture req - 1) = rq_offset req mod rq_aperture req \<and>
     offset_ok (rq_sg_offset req) es"

lemma frame_cursor_ok:
  assumes "aperture_ready K dir req es"
  shows "frame_ok (aperture_frame K g dir req) (rq_aperture req)"
    and "at_window (aperture_frame K g dir req) (rq_aperture req) (unat (rq_offset req)) (ap_ep (aperture_cursor g req))"
proof -
  let ?a = "rq_aperture req"
  show ok: "frame_ok (aperture_frame K g dir req) ?a"
    using assms by (auto simp: frame_ok_def aperture_frame_def aperture_ready_def min_def)
  have r: "unat (rq_offset req) mod unat ?a < unat ?a" using unat_af_max(2) [OF ok] by simp
  have "unat (ucast (rq_offset req mod ?a) :: u64) = unat (rq_offset req) mod unat ?a"
    by (simp add: unat_up unat_mod_distrib)
  moreover have "unat (rq_ep_addr req) + unat (rq_offset req) mod unat ?a < 2 ^ 64"
    using assms r by (simp add: aperture_ready_def)
  ultimately have "unat (ap_ep (aperture_cursor g req)) = unat (rq_ep_addr req) + unat (rq_offset req) mod unat ?a"
    using assms by (simp add: aperture_cursor_def aperture_ready_def unat_add_small)
  then show "at_window (aperture_frame K g dir req) ?a (unat (rq_offset req)) (ap_ep (aperture_cursor g req))"
    using r by (auto simp: at_window_def aperture_frame_def intro!: exI [of _ "unat (rq_offset req) mod unat ?a"])
qed

text \<open>
  One transfer: it is built, the hardware moves the next \<open>n\<close> bytes of the entries through the
  window, and the request's position moves on by \<open>n\<close>.
\<close>

definition aperture_step ::
  "eng_id \<Rightarrow> dma_dir \<Rightarrow> xid \<Rightarrow> scatterlist list \<Rightarrow> xdma_request_cb \<Rightarrow> drv \<Rightarrow> nat \<Rightarrow> xdma_request_cb \<Rightarrow> drv \<Rightarrow> bool" where
  "aperture_step e dir t es req s n req' s' \<longleftrightarrow>
     (let hb = drop (unat (rq_sg_offset req)) (host_bytes es)
      in 0 < n \<and> n \<le> length hb \<and>
         hw_bytes e dir t s' = zip (take n hb) (window (rq_ep_addr req) (rq_aperture req) (unat (rq_offset req)) n) \<and>
         req' = req\<lparr>rq_offset := rq_offset req + of_nat n, rq_sg_offset := rq_sg_offset req',
                    rq_sg_idx := rq_sg_idx req'\<rparr> \<and>
         drop (unat (rq_sg_offset req')) (host_bytes (drop (rq_sg_idx req' - rq_sg_idx req) es)) = drop n hb \<and>
         offset_ok (rq_sg_offset req') (drop (rq_sg_idx req' - rq_sg_idx req) es) \<and>
         rq_sg_idx req \<le> rq_sg_idx req' \<and> rq_sg_idx req' \<le> rq_sg_idx req + length es \<and>
         (n = length hb \<or> e_desc_idx (engs s' e) = 0) \<and>
         x_len (xfers s' t) = of_nat n \<and> x_desc_num (xfers s' t) \<noteq> 0 \<and>
         engine_ready (engs s' e) \<and> devs s' = devs s \<and> sgts s' = sgts s \<and>
         (\<exists>ds u i. engs s' e = (engs s e)\<lparr>e_desc := ds, e_desc_used := u, e_desc_idx := i\<rparr>) \<and>
         (\<forall>k. k < unat (e_desc_idx (engs s e)) \<or>
              unat (e_desc_idx (engs s e)) + unat (x_desc_num (xfers s' t)) \<le> k \<longrightarrow>
              the (e_desc (engs s' e)) ! k = the (e_desc (engs s e)) ! k))"

text \<open>The loop over the entries, started from the engine's next free descriptor.\<close>

lemma aperture_fill:
  assumes ready: "engine_ready g" and ap: "aperture_ready K dir req es"
    and hb: "hb = drop (unat (rq_sg_offset req)) (host_bytes es)" "hb \<noteq> []"
  obtains n i' c' where
    "entries_loop (aperture_frame K g dir req) es (rq_sg_idx req) (aperture_cursor g req) = (i', c')"
    and "0 < n" "n \<le> length hb" "rq_sg_idx req \<le> i'" "i' \<le> rq_sg_idx req + length es"
    and "filled (aperture_frame K g dir req) (aperture_cursor g req) c'
           (zip (take n hb) (window (rq_ep_addr req) (rq_aperture req) (unat (rq_offset req)) n))"
    and "drop (unat (ap_sg_offset c')) (host_bytes (drop (i' - rq_sg_idx req) es)) = drop n hb"
    and "offset_ok (ap_sg_offset c') (drop (i' - rq_sg_idx req) es)"
    and "n = length hb \<or> ap_idx c' = e_desc_max g"
proof -
  define f where "f = aperture_frame K g dir req"
  define c where "c = aperture_cursor g req"
  obtain i' c' where run: "entries_loop f es (rq_sg_idx req) c = (i', c')" by fastforce
  have lt: "ap_idx c < af_desc_max f" and len: "unat (af_desc_max f) \<le> length (ap_desc c)"
    and base: "af_base f = rq_ep_addr req" "af_desc_max f = e_desc_max g" and off: "ap_sg_offset c = rq_sg_offset req"
    using ready by (auto simp: engine_ready_def c_def f_def aperture_cursor_def aperture_frame_def split: option.splits)
  note fc = frame_cursor_ok [OF ap, of g, folded f_def c_def]
  have "offset_ok (ap_sg_offset c) es" using ap by (simp add: off aperture_ready_def)
  from entries_loop_fills [OF fc(1,2) order_less_imp_le [OF lt] len this run refl]
  show ?thesis
    using that [OF run [unfolded f_def c_def]] hb lt
    unfolding off base f_def [symmetric] c_def [symmetric] by blast
qed

lemma hw_bytes_chain:
  assumes n: "0 < n" "v + n \<le> length ds" "v + n \<le> 2 ^ 31" "n \<le> fuel"
    and ds': "ds' = adjacent_loop v n (ap_link_loop (n - 1) v (base + of_nat (sizeof_xdma_desc * v)) ds)"
  shows "concat (map (byte_pairs (af_dir f)) (hw_walk fuel base ds' (base + of_nat (sizeof_xdma_desc * v))))
         = moved f ds v (v + n)"
proof -
  note chain = ap_chain [OF n(1-3) ds']
  have "hw_walk fuel base ds' (base + of_nat (sizeof_xdma_desc * v)) = map (\<lambda>i. desc_move (ds ! (v + i))) [0..<n]"
    using hw_walk_linked [OF chain(1) n(1), of fuel] n(4) chain(2) by simp
  then show ?thesis
    using map_shift_upt [of "\<lambda>k. byte_pairs (af_dir f) (desc_move (ds ! k))" v n] by (simp add: moved_def comp_def)
qed

lemma aperture_build_some:
  assumes "entries_loop (aperture_frame K (engs s e) dir req) (next_entries sg_max g req s) (rq_sg_idx req)
             (aperture_cursor (engs s e) req) = (i', c')" and "ap_cnt c' \<noteq> 0"
    and "v = unat (e_desc_idx (engs s e))" and "N = ap_cnt c'"
    and "d2 = adjacent_loop v (unat N) (ap_link_loop (unat N - 1) v
                (e_desc_bus (engs s e) + of_nat (sizeof_xdma_desc * v)) (ap_desc c'))"
  obtains s' where "aperture_build K e dir sg_max g m t req s =
      Some (req\<lparr>rq_offset := ap_offset c', rq_sg_offset := ap_sg_offset c', rq_sg_idx := i'\<rparr>, s')"
    and "engs s' e = (engs s e)\<lparr>e_desc := Some d2, e_desc_used := e_desc_used (engs s e) + N,
           e_desc_idx := (e_desc_idx (engs s e) + N) mod e_desc_max (engs s e)\<rparr>"
    and "x_desc_bus (xfers s' t) = e_desc_bus (engs s e) + of_nat (sizeof_xdma_desc * v)"
    and "x_len (xfers s' t) = ap_len c'" and "x_desc_num (xfers s' t) = N"
    and "devs s' = devs s" and "sgts s' = sgts s"
  using assms
  by (cases "ap_offset c' = rq_total_len req")
    (simp_all add: aperture_build_def Let_def next_entries_def [symmetric] del: of_nat_mult)

lemma aperture_build_step:
  assumes ready: "engine_ready (engs s e)" and es: "es = next_entries sg_max g req s"
    and ap: "aperture_ready K dir req es" and more: "drop (unat (rq_sg_offset req)) (host_bytes es) \<noteq> []"
  obtains n req' s' where "aperture_build K e dir sg_max g m t req s = Some (req', s')"
    and "aperture_step e dir t es req s n req' s'"
proof -
  let ?g = "engs s e" and ?f = "aperture_frame K (engs s e) dir req" and ?c = "aperture_cursor (engs s e) req"
  let ?hb = "drop (unat (rq_sg_offset req)) (host_bytes es)"
  let ?ps = "\<lambda>n. zip (take n ?hb) (window (rq_ep_addr req) (rq_aperture req) (unat (rq_offset req)) n)"
  define v where "v = unat (e_desc_idx ?g)"
  obtain n i' c' where run: "entries_loop ?f es (rq_sg_idx req) ?c = (i', c')"
    and n: "0 < n" "n \<le> length ?hb" "rq_sg_idx req \<le> i'" "i' \<le> rq_sg_idx req + length es"
    and fill: "filled ?f ?c c' (?ps n)"
    and pos: "drop (unat (ap_sg_offset c')) (host_bytes (drop (i' - rq_sg_idx req) es)) = drop n ?hb"
      "offset_ok (ap_sg_offset c') (drop (i' - rq_sg_idx req) es)" "n = length ?hb \<or> ap_idx c' = e_desc_max ?g"
    by (rule aperture_fill [OF ready ap refl more])
  obtain ds where ds: "e_desc ?g = Some ds" "length ds = unat (e_desc_max ?g)"
    using ready by (auto simp: engine_ready_def split: option.splits)
  have c: "ap_idx ?c = e_desc_idx ?g" "ap_desc ?c = ds" "ap_offset ?c = rq_offset req" "ap_len ?c = 0" "ap_cnt ?c = 0"
    and f: "af_desc_max ?f = e_desc_max ?g" "af_dir ?f = dir"
    by (simp_all add: aperture_cursor_def aperture_frame_def ds)
  define N where "N = ap_cnt c'"
  define d2 where "d2 = adjacent_loop v (unat N)
    (ap_link_loop (unat N - 1) v (e_desc_bus ?g + of_nat (sizeof_xdma_desc * v)) (ap_desc c'))"
  have idx: "v \<le> unat (ap_idx c')" "unat (ap_idx c') \<le> unat (e_desc_max ?g)" "length (ap_desc c') = unat (e_desc_max ?g)"
      "unat N = unat (ap_idx c') - v" "e_desc_idx ?g + N = ap_idx c'"
    using fill ds(2) by (simp_all add: filled_def c f v_def N_def word_le_nat_alt unat_sub)
  have "v \<noteq> unat (ap_idx c')"
    using fill n(1,2) by (auto simp: filled_def moved_def c v_def window_def)
  then have N: "0 < unat N" "v + unat N = unat (ap_idx c')" "N \<noteq> 0" using idx by (auto simp: unat_gt_0)
  have max: "unat (e_desc_max ?g) < 2 ^ 31" using ready by (simp add: engine_ready_def)
  have bytes: "concat (map (byte_pairs dir) (hw_walk (unat (e_desc_max ?g)) (e_desc_bus ?g) d2
        (e_desc_bus ?g + of_nat (sizeof_xdma_desc * v)))) = ?ps n"
    using hw_bytes_chain [OF N(1) _ _ _ d2_def, of "unat (e_desc_max ?g)" ?f] fill N(2) idx max
    by (simp add: filled_def c f v_def)
  have keep: "d2 ! k = ds ! k" if "k < v \<or> v + unat N \<le> k" for k
    using ap_chain(3) [OF N(1) _ _ d2_def that] fill that N(2) idx max by (auto simp: filled_def c v_def)
  define req' where "req' = req\<lparr>rq_offset := ap_offset c', rq_sg_offset := ap_sg_offset c', rq_sg_idx := i'\<rparr>"
  obtain s' where built: "aperture_build K e dir sg_max g m t req s =
        Some (req\<lparr>rq_offset := ap_offset c', rq_sg_offset := ap_sg_offset c', rq_sg_idx := i'\<rparr>, s')"
    and e': "engs s' e = ?g\<lparr>e_desc := Some d2, e_desc_used := e_desc_used ?g + N,
           e_desc_idx := (e_desc_idx ?g + N) mod e_desc_max ?g\<rparr>"
    and x': "x_desc_bus (xfers s' t) = e_desc_bus ?g + of_nat (sizeof_xdma_desc * v)" "x_len (xfers s' t) = ap_len c'"
      "x_desc_num (xfers s' t) = N"
    and same: "devs s' = devs s" "sgts s' = sgts s"
    by (rule aperture_build_some [OF run [unfolded es] N(3) [unfolded N_def] v_def N_def d2_def])
  have "ap_offset c' = rq_offset req + of_nat n" "ap_len c' = of_nat n"
    using fill n(2) by (simp_all add: filled_def c min_def)
  moreover have "engine_ready (engs s' e)"
    using ready idx(3) by (simp add: e' engine_ready_def word_less_nat_alt unat_mod_distrib d2_def)
  ultimately have "aperture_step e dir t es req s n req' s'"
    using n pos N(3) bytes keep same
    by (auto simp: aperture_step_def Let_def hw_bytes_def e' x' req'_def v_def [symmetric] ds idx(5) simp del: of_nat_mult)
  then show ?thesis using that built by (simp add: req'_def)
qed

subsection \<open>The loop over the transfers\<close>

lemma aperture_round_eq:
  "aperture_round K e dir sg_max g m t n req done s =
     (case aperture_build K e dir sg_max g m t req s of
        None \<Rightarrow> None
      | Some (req, s1) \<Rightarrow>
        let r2 = transfer_queue K (Some e) (Some t) s1;
            r5 = aperture_settle K e t done (waited K e n (snd r2)); s6 = recycled e t (snd (snd r5))
        in if fst r2 < 0 then Some (Inl (fst r2, done, snd r2))
           else if fst r5 < 0 then Some (Inl (fst r5, fst (snd r5), s6))
           else Some (Inr (req, fst (snd r5), s6)))"
  unfolding aperture_round_def waited_def recycled_def Let_def case_prod_unfold by (rule refl)

text \<open>A round whose transfer completes during the wait.\<close>

lemma aperture_round_completes:
  assumes op: "open_for e s" and es: "es = next_entries sg_max g req s"
    and ap: "aperture_ready K dir req es" and more: "drop (unat (rq_sg_offset req)) (host_bytes es) \<noteq> []"
    and comp: "\<forall>n s. x_state (xfers s t) = TRANSFER_STATE_SUBMITTED \<and> e_running (engs s e) \<longrightarrow>
                 completing e t s (meanwhile K n s)"
    and leaves: "leaves_table K g" and len: "length (host_bytes es) < 2 ^ 32"
  obtains k req' s1 s' where "aperture_build K e dir sg_max g m t req s = Some (req', s1)"
    and "aperture_step e dir t es req s k req' s1"
    and "aperture_round K e dir sg_max g m t n req done s = Some (Inr (req', done + int k, s'))"
    and "open_for e s'" and "sgl (sgts s' g) = sgl (sgts s g)"
proof -
  have ready: "engine_ready (engs s e)" using op by (simp add: open_for_def)
  obtain k req' s1 where b: "aperture_build K e dir sg_max g m t req s = Some (req', s1)"
    and st: "aperture_step e dir t es req s k req' s1"
    by (rule aperture_build_step [OF ready es ap more])
  have o1: "open_for e s1"
    using st op by (auto simp: aperture_step_def Let_def open_for_def)
  define w where "w = waited K e n (snd (transfer_queue K (Some e) (Some t) s1))"
  have num: "x_desc_num (xfers s1 t) \<noteq> 0" and xlen: "x_len (xfers s1 t) = of_nat k" and "k < 2 ^ 32"
    using st len by (auto simp: aperture_step_def Let_def)
  then have k: "unat (x_len (xfers s1 t)) = k" by (simp add: unat_of_nat_small)
  note q = queue_completes [OF o1 num comp w_def]
  have "aperture_settle K e t done w = (0, done + int k, w)"
    using q(3,4) k by (simp add: aperture_settle_def)
  then have "aperture_round K e dir sg_max g m t n req done s = Some (Inr (req', done + int k, recycled e t w))"
    using q(1) by (simp add: aperture_round_eq b Let_def w_def [symmetric])
  moreover have "open_for e (recycled e t w)" using q(2) by (rule open_for_recycled)
  moreover have "sgl (sgts (recycled e t w) g) = sgl (sgts s g)"
  proof -
    have "sgl (sgts (recycled e t w) g) = sgl (sgts w g)"
      by (auto simp: recycled_def transfer_destroy_def Let_def split: option.split)
    also have "\<dots> = sgl (sgts s1 g)"
      using leaves by (auto simp: w_def waited_def leaves_table_def split: option.split)
    finally show ?thesis using st by (simp add: aperture_step_def Let_def)
  qed
  ultimately show ?thesis using that b st by blast
qed

lemma and_power_mod: "x AND (2 ^ k - 1) = x mod (2 ^ k :: u32)"
  by (simp add: take_bit_eq_mask mask_eq_exp_minus_1 flip: take_bit_eq_mod)

lemma unat_power_2:
  assumes "a < 32"
  shows "unat ((2::u32) ^ a) = 2 ^ a"
proof -
  have "unat (of_nat (2 ^ a) :: u32) = 2 ^ a"
    using power_strict_increasing [OF assms, of "2::nat"] by (intro unat_of_nat_small) simp
  then show ?thesis by simp
qed

text \<open>The position of a request whose table has a single entry.\<close>

definition single_at :: "'k kenv_scheme \<Rightarrow> dma_dir \<Rightarrow> u64 \<Rightarrow> nat \<Rightarrow> scatterlist \<Rightarrow> xdma_request_cb \<Rightarrow> bool" where
  "single_at K dir ep a x req \<longleftrightarrow> desc_blen_max K \<noteq> 0 \<and> a < 32 \<and> unat ep + 2 * 2 ^ a \<le> 2 ^ 64 \<and>
     (dir = DMA_TO_DEVICE \<or> dir = DMA_FROM_DEVICE) \<and>
     rq_aperture req = 2 ^ a \<and> rq_ep_addr req = ep \<and> rq_sg req = 0 \<and> rq_sg_idx req = 0 \<and>
     rq_sg_offset req = rq_offset req \<and> rq_offset req < sg_dma_len x \<and> rq_total_len req = sg_dma_len x"

lemma single_ready:
  assumes "single_at K dir ep a x req"
  shows "aperture_ready K dir req [x]" and "drop (unat (rq_sg_offset req)) (host_bytes [x]) \<noteq> []"
proof -
  have "a < 32" using assms by (simp add: single_at_def)
  then have "unat ((2::u32) ^ a) = 2 ^ a" by (rule unat_power_2)
  then have "unat ((2::u32) ^ a) = 2 ^ a" "(2::u32) ^ a \<noteq> 0" by (auto simp flip: unat_eq_0)
  then show "aperture_ready K dir req [x]"
    using assms by (auto simp: aperture_ready_def single_at_def and_power_mod offset_ok_def)
  show "drop (unat (rq_sg_offset req)) (host_bytes [x]) \<noteq> []"
    using assms by (simp add: single_at_def word_less_nat_alt)
qed

lemma single_step:
  assumes at: "single_at K dir ep a x req" and st: "aperture_step e dir t [x] req s n req' s'"
  shows "0 < n" and "unat (rq_offset req) + n \<le> unat (sg_dma_len x)"
    and "unat (rq_offset req') = unat (rq_offset req) + n" and "rq_total_len req' = sg_dma_len x"
    and "rq_offset req' < sg_dma_len x \<Longrightarrow> single_at K dir ep a x req'"
proof -
  let ?off = "unat (rq_offset req)" and ?j = "rq_sg_idx req'"
  have hb: "drop ?off (host_bytes [x]) \<noteq> []" "?off < unat (sg_dma_len x)"
    using at by (simp_all add: single_at_def word_less_nat_alt)
  have n: "0 < n" "n \<le> unat (sg_dma_len x) - ?off" "?j \<le> 1"
    and req': "req' = req\<lparr>rq_offset := rq_offset req + of_nat n, rq_sg_offset := rq_sg_offset req', rq_sg_idx := ?j\<rparr>"
    and left: "drop (unat (rq_sg_offset req')) (host_bytes (drop ?j [x])) = drop n (drop ?off (host_bytes [x]))"
    and ok: "offset_ok (rq_sg_offset req') (drop ?j [x])"
    using st at by (auto simp: aperture_step_def Let_def single_at_def)
  show "0 < n" "?off + n \<le> unat (sg_dma_len x)" using n hb by simp_all
  have f: "rq_offset req' = rq_offset req + of_nat n" "rq_total_len req' = rq_total_len req"
    "rq_aperture req' = rq_aperture req" "rq_ep_addr req' = rq_ep_addr req" "rq_sg req' = rq_sg req"
    by (subst req', simp)+
  show "rq_total_len req' = sg_dma_len x" using at f by (simp add: single_at_def)
  have nn: "unat (of_nat n :: u32) = n" using n unat_bound [of "sg_dma_len x"] by (intro unat_of_nat_small) simp
  show off': "unat (rq_offset req') = ?off + n"
    using n hb unat_bound [of "sg_dma_len x"] unfolding f by (subst unat_add_small) (simp_all add: nn)
  show "single_at K dir ep a x req'" if more: "rq_offset req' < sg_dma_len x"
  proof -
    have "?off + n < unat (sg_dma_len x)" using more off' by (simp add: word_less_nat_alt)
    then have "?j = 0" using left n(3) by (cases ?j) auto
    moreover have "rq_sg_offset req' = rq_offset req'"
    proof -
      have "length (drop (unat (rq_sg_offset req')) (host_bytes [x])) = length (drop n (drop ?off (host_bytes [x])))"
        using left \<open>?j = 0\<close> by simp
      then have "unat (rq_sg_offset req') = ?off + n"
        using ok \<open>?j = 0\<close> \<open>?off + n < unat (sg_dma_len x)\<close> by (simp add: offset_ok_def word_le_nat_alt)
      then show ?thesis using off' by (simp add: word_unat_eq_iff)
    qed
    ultimately show ?thesis using at more f by (simp add: single_at_def)
  qed
qed

lemma aperture_loop_completes:
  assumes comp: "\<forall>n s. x_state (xfers s t) = TRANSFER_STATE_SUBMITTED \<and> e_running (engs s e) \<longrightarrow>
                 completing e t s (meanwhile K n s)" and leaves: "leaves_table K g"
  shows "single_at K dir ep a x req \<Longrightarrow> open_for e s \<Longrightarrow> sgl (sgts s g) = [x] \<Longrightarrow>
    \<exists>s'. aperture_loop K e dir 1 g m t n req done s
      = Some (0, done + int (unat (sg_dma_len x) - unat (rq_offset req)), s')"
proof (induction "unat (sg_dma_len x) - unat (rq_offset req)" arbitrary: n req "done" s rule: less_induct)
  case less
  have es: "[x] = next_entries 1 g req s"
    using less.prems by (simp add: next_entries_def single_at_def)
  have "length (host_bytes [x]) < 2 ^ 32" using unat_bound [of "sg_dma_len x"] by simp
  then obtain k req' s1 s' where st: "aperture_step e dir t [x] req s k req' s1"
    and rnd: "aperture_round K e dir 1 g m t n req done s = Some (Inr (req', done + int k, s'))"
    and s': "open_for e s'" "sgl (sgts s' g) = [x]"
    using aperture_round_completes [OF less.prems(2) es single_ready [OF less.prems(1)] comp leaves, of m n "done"]
      less.prems(3) by metis
  note step = single_step [OF less.prems(1) st]
  have run: "aperture_loop K e dir 1 g m t n req done s = aperture_loop K e dir 1 g m t (Suc n) req' (done + int k) s'"
    using less.prems(1) rnd by (subst aperture_loop.simps) (auto simp: single_at_def)
  show ?case
  proof (cases "rq_offset req' < sg_dma_len x")
    case True
    have "unat (sg_dma_len x) - unat (rq_offset req') < unat (sg_dma_len x) - unat (rq_offset req)"
      using step(1-3) by simp
    from less.hyps [OF this step(5) [OF True] s', of "Suc n" "done + int k"] show ?thesis
      unfolding run using step(1-3) by (simp add: of_nat_diff)
  next
    case False
    then have "unat (sg_dma_len x) = unat (rq_offset req) + k"
      using step(2,3) by (simp add: word_less_nat_alt)
    then show ?thesis unfolding run using False step(4) by (simp add: aperture_loop.simps not_less)
  qed
qed

lemma aperture_completes:
  assumes "aperture_checks (Some e) (if wr then DMA_TO_DEVICE else DMA_FROM_DEVICE) s = Inr e" and "open_for e s"
    and "map_sg K (sgts s g) = ([x], 1)" and "sg_dma_len x \<noteq> 0" and "req_alloc K (of_nat (sizeof_cb K))"
    and "desc_blen_max K \<noteq> 0" and "a < 32" and "unat ep + 2 * 2 ^ a \<le> 2 ^ 64"
    and "\<forall>n s. x_state (xfers s t) = TRANSFER_STATE_SUBMITTED \<and> e_running (engs s e) \<longrightarrow>
               completing e t s (meanwhile K n s)" and "leaves_table K g"
  shows "\<exists>s'. xdma_xfer_aperture K (Some e) wr ep (2 ^ a) g False t s = Some (int (unat (sg_dma_len x)), s')"
proof -
  let ?dir = "if wr then DMA_TO_DEVICE else DMA_FROM_DEVICE"
  define s1 where "s1 = upd_sgt g (\<lambda>t. t\<lparr>sgl := [x], nents := 1\<rparr>) (tell (Map_sg g) s)"
  define req where "req = zero_request\<lparr>rq_ep_addr := ep, rq_aperture := 2 ^ a, rq_sg := 0, rq_total_len := sg_dma_len x\<rparr>"
  have map: "submit_map K g False s = (0, s1)" using assms(3) by (simp add: submit_map_def s1_def)
  have tab: "sg_entries (sgts s1 g) = [x]" "nents (sgts s1 g) = 1" "sgl (sgts s1 g) = [x]"
    by (simp_all add: s1_def sg_entries_def)
  have op: "open_for e s1" using assms(2) by (rule open_for_cong) (use assms(2) in \<open>simp_all add: s1_def open_for_def\<close>)
  have at: "single_at K ?dir ep a x req"
    using assms(4,6-8) by (simp add: single_at_def req_def zero_request_def word_neq_0_conv)
  have off: "rq_offset req = 0" by (simp add: req_def zero_request_def)
  obtain s2 where "aperture_loop K e ?dir 1 g False t 0 req 0 s1 = Some (0, int (unat (sg_dma_len x)), s2)"
    using aperture_loop_completes [OF assms(9,10) at op tab(3), of False 0 0] off by auto
  then show ?thesis
    using assms(1,4,5) by (simp add: xdma_xfer_aperture_def map tab req_def [symmetric] unat_eq_0)
qed

subsection \<open>Every mapping is undone once\<close>

lemma owed_build:
  "aperture_build K e dir sg_max g' m t req s = Some (req', s') \<Longrightarrow> owed g s' = owed g s"
  by (rule owed_cong) (auto simp: aperture_build_def Let_def case_prod_unfold split: if_splits)

lemma owed_round:
  assumes "leaves_table K g" and "aperture_round K e dir sg_max g' m t n req done s = Some r"
  shows "owed g (case r of Inl (_, _, s') \<Rightarrow> s' | Inr (_, _, s') \<Rightarrow> s') = owed g s"
proof -
  obtain req1 s1 where b: "aperture_build K e dir sg_max g' m t req s = Some (req1, s1)"
    using assms(2) by (auto simp: aperture_round_def split: option.splits)
  have "owed g (snd (transfer_queue K (Some e) (Some t) s1)) = owed g s"
    using owed_build [OF b, of g] by (subst owed_cong [of _ _ s1]) simp_all
  moreover have "owed g (snd (snd (aperture_settle K e t done x))) = owed g x" for x
    by (rule owed_cong) (auto simp: aperture_settle_def Let_def case_prod_unfold split: transfer_state.split)
  ultimately show ?thesis
    using assms b by (auto simp: aperture_round_eq Let_def owed_steps split: if_splits)
qed

lemma aperture_loop_owed:
  assumes "aperture_loop K e dir sg_max g m t n req done s = Some r" and "leaves_table K g"
  shows "owed g (snd (snd r)) = owed g s"
proof -
  have "leaves_table K g \<longrightarrow> owed g (snd (snd r)) = owed g s"
  proof (rule aperture_loop.raw_induct [where P =
        "\<lambda>K e dir sg_max g m t n req done s r. leaves_table K g \<longrightarrow> owed g (snd (snd r)) = owed g s",
        OF _ assms(1)], rule impI)
    fix loop K e dir sg_max g m t n req "done" s r
    assume IH: "\<And>K e dir sg_max g m t n req done s r. loop K e dir sg_max g m t n req done s = Some r \<Longrightarrow>
        leaves_table K g \<longrightarrow> owed g (snd (snd r)) = owed g s"
      and body: "(if rq_total_len req \<le> rq_offset req then Some (0, done, s)
        else case aperture_round K e dir sg_max g m t n req done s of
               None \<Rightarrow> None
             | Some (Inl r) \<Rightarrow> Some r
             | Some (Inr (req, done, s)) \<Rightarrow> loop K e dir sg_max g m t (Suc n) req done s) = Some r"
      and leaves: "leaves_table K g"
    show "owed g (snd (snd r)) = owed g s"
    proof (cases "rq_total_len req \<le> rq_offset req")
      case True
      then show ?thesis using body by auto
    next
      case False
      then obtain r1 where rnd: "aperture_round K e dir sg_max g m t n req done s = Some r1"
        using body by (auto split: option.splits)
      note o = owed_round [OF leaves rnd]
      show ?thesis
      proof (cases r1)
        case (Inl a)
        then show ?thesis using body False rnd o by (simp add: case_prod_unfold)
      next
        case (Inr a)
        then have "loop K e dir sg_max g m t (Suc n) (fst a) (fst (snd a)) (snd (snd a)) = Some r"
          using body False rnd by (simp add: case_prod_unfold)
        from IH [OF this] show ?thesis using leaves Inr o by (simp add: case_prod_unfold)
      qed
    qed
  qed
  then show ?thesis using assms(2) by blast
qed

subsection \<open>Properties\<close>

text \<open>
  C26: One transfer through an aperture. If bytes are left from the request's position on,
  \<open>xdma_xfer_aperture\<close> builds a chain of which the hardware, walking it, moves the next
  bytes of the entries it starts from, in order, to or from consecutive end point addresses
  that begin again at the window's start after its last byte; never an address outside the
  window. It moves at least one byte and all of them unless the descriptor array has come
  to its end; the request's offset advances by as much; descriptors outside the block are
  untouched and the engine is ready for the next transfer. The window must not reach the end
  of the address space, the offset inside the table must lie in its entry, and masking the
  request's offset with the size of the window less 1 must give the remainder by that size,
  as it does for a power of two.
\<close>

theorem aperture_transfer_moves:
  assumes "engine_ready (engs s e)" and "es = next_entries sg_max g req s" and "aperture_ready K dir req es"
    and "hb = drop (unat (rq_sg_offset req)) (host_bytes es)" and "hb \<noteq> []"
  shows "\<exists>n req' s'. aperture_build K e dir sg_max g m t req s = Some (req', s') \<and> 0 < n \<and> n \<le> length hb \<and>
    hw_bytes e dir t s' = zip (take n hb) (window (rq_ep_addr req) (rq_aperture req) (unat (rq_offset req)) n) \<and>
    rq_offset req' = rq_offset req + of_nat n \<and> x_len (xfers s' t) = of_nat n \<and>
    (n = length hb \<or> e_desc_idx (engs s' e) = 0) \<and> engine_ready (engs s' e) \<and>
    (\<forall>k. k < unat (e_desc_idx (engs s e)) \<or>
         unat (e_desc_idx (engs s e)) + unat (x_desc_num (xfers s' t)) \<le> k \<longrightarrow>
         the (e_desc (engs s' e)) ! k = the (e_desc (engs s e)) ! k)"
proof -
  obtain n req' s' where b: "aperture_build K e dir sg_max g m t req s = Some (req', s')"
    and st: "aperture_step e dir t es req s n req' s'"
    by (rule aperture_build_step [OF assms(1-3)]) (use assms(4,5) in simp_all)
  have "req' = req\<lparr>rq_offset := rq_offset req + of_nat n, rq_sg_offset := rq_sg_offset req', rq_sg_idx := rq_sg_idx req'\<rparr>"
    using st by (simp add: aperture_step_def Let_def)
  then have "rq_offset req' = rq_offset req + of_nat n" by (rule ssubst) simp
  then show ?thesis using b st by (intro exI conjI) (auto simp: aperture_step_def Let_def assms(4))
qed

text \<open>
  C27: A request through an aperture returns the number of bytes asked for, after as many
  transfers as the descriptor array makes necessary, for a table of one entry, a window
  whose size is a power of two, and transfers that complete during their waits.
\<close>

theorem aperture_returns_length:
  assumes "aperture_checks (Some e) (if wr then DMA_TO_DEVICE else DMA_FROM_DEVICE) s = Inr e" and "open_for e s"
    and "map_sg K (sgts s g) = ([x], 1)" and "sg_dma_len x \<noteq> 0" and "req_alloc K (of_nat (sizeof_cb K))"
    and "desc_blen_max K \<noteq> 0" and "a < 32" and "unat ep + 2 * 2 ^ a \<le> 2 ^ 64"
    and "\<forall>n s. x_state (xfers s t) = TRANSFER_STATE_SUBMITTED \<and> e_running (engs s e) \<longrightarrow>
               completing e t s (meanwhile K n s)" and "leaves_table K g"
  shows "\<exists>s'. xdma_xfer_aperture K (Some e) wr ep (2 ^ a) g False t s = Some (int (unat (sg_dma_len x)), s')"
  using aperture_completes [OF assms] .

text \<open>
  C28: Every DMA mapping an aperture request makes is undone exactly once, on every way out
  of \<open>xdma_xfer_aperture\<close>.
\<close>

theorem aperture_unmaps_once:
  assumes "xdma_xfer_aperture K engine wr ep aperture g False t s = Some (rv, s')" and "leaves_table K g"
  shows "map_balance g s' = map_balance g s"
proof (cases "aperture_checks engine (if wr then DMA_TO_DEVICE else DMA_FROM_DEVICE) s")
  case (Inl r)
  then show ?thesis using assms(1) by (simp add: xdma_xfer_aperture_def)
next
  case (Inr e)
  show ?thesis
  proof (cases rule: submit_map_cases [of K g s])
    case 1
    then show ?thesis using assms(1) Inr by (simp add: xdma_xfer_aperture_def EIO_def)
  next
    case (2 s1)
    have "\<exists>x. s' = unmap_sgl g False x \<and> owed g x = owed g s1"
      using assms(1) Inr 2(1)
      by (auto simp: xdma_xfer_aperture_def Let_def split: if_splits option.splits
          dest!: aperture_loop_owed [OF _ assms(2)])
    then show ?thesis using unmap_settles 2(2) by auto
  qed
qed

text \<open>The position stays sound in a window whose size is a power of two.\<close>

lemma aperture_ready_next:
  assumes "aperture_ready K dir req es" and "rq_aperture req = 2 ^ a" and "a < 32" and "offset_ok off es'"
    and "req' = req\<lparr>rq_offset := x, rq_sg_offset := off, rq_sg_idx := i\<rparr>"
  shows "aperture_ready K dir req' es'"
  using assms by (simp add: aperture_ready_def and_power_mod)

text \<open>
  C29: The position in the table is lost between two transfers of an aperture request:
  \<open>req->sg_idx\<close> is kept, but \<open>req->sg\<close> stays at the first entry. Take a request at the start of
  its table, with a window whose size is a power of two, whose first transfer finished
  \<open>k > 0\<close> entries, with some left. Its bytes are the first \<open>n\<close> of the table, and those due next
  begin in entry \<open>k\<close>, at the offset the request remembers. The second transfer, however, takes
  that offset in the first entry (if it lies inside it) and moves bytes from there on, at
  most as many entries as are left.
\<close>

theorem aperture_restarts_table:
  assumes "engine_ready (engs s e)" and "es = sgl (sgts s g)" and "aperture_ready K dir req es"
    and "rq_sg req = 0" and "rq_sg_idx req = 0" and "rq_sg_offset req = 0" and "rq_aperture req = 2 ^ a" and "a < 32"
    and "host_bytes es \<noteq> []" and "aperture_build K e dir (length es) g m t req s = Some (req1, s1)"
    and "k = rq_sg_idx req1" and "0 < k" and "k < length es" and "rq_sg_offset req1 < sg_dma_len (hd es)"
    and "engine_ready (engs s2 e)" and "sgts s2 = sgts s1"
  shows "\<exists>n n2 req2 s3. map fst (hw_bytes e dir t s1) = take n (host_bytes es) \<and>
    drop n (host_bytes es) = drop (unat (rq_sg_offset req1)) (host_bytes (drop k es)) \<and>
    aperture_build K e dir (length es) g m t req1 s2 = Some (req2, s3) \<and> 0 < n2 \<and>
    map fst (hw_bytes e dir t s3) =
      take n2 (drop (unat (rq_sg_offset req1)) (host_bytes (take (length es - k) es)))"
proof -
  have first: "es = next_entries (length es) g req s" using assms(2,4,5) by (simp add: next_entries_def)
  have "drop (unat (rq_sg_offset req)) (host_bytes es) \<noteq> []" using assms(6,9) by simp
  then obtain n where st: "aperture_step e dir t es req s n req1 s1"
    using aperture_build_step [OF assms(1) first assms(3)] assms(10) by (metis option.inject prod.inject)
  define es2 where "es2 = take (length es - k) es"
  have req1: "req1 = req\<lparr>rq_offset := rq_offset req + of_nat n, rq_sg_offset := rq_sg_offset req1, rq_sg_idx := k\<rparr>"
    and sg: "sgts s1 = sgts s"
    using st assms(11) by (simp_all add: aperture_step_def Let_def)
  obtain x xs where es: "es2 = x # xs" "hd es = x"
    using assms(13) by (cases es) (auto simp: es2_def take_Cons' split: if_splits)
  have "rq_sg req1 = 0" using assms(4) by (subst req1) simp
  then have second: "es2 = next_entries (length es) g req1 s2"
    using assms(2,11,16) sg by (simp add: next_entries_def es2_def)
  have "offset_ok (rq_sg_offset req1) es2" using assms(14) es by (simp add: offset_ok_def)
  then have ready: "aperture_ready K dir req1 es2"
    using aperture_ready_next [OF assms(3,7,8) _ req1] by blast
  have more: "drop (unat (rq_sg_offset req1)) (host_bytes es2) \<noteq> []"
    using assms(14) es by (simp add: word_less_nat_alt)
  obtain n2 req2 s3 where b2: "aperture_build K e dir (length es) g m t req1 s2 = Some (req2, s3)"
    and st2: "aperture_step e dir t es2 req1 s2 n2 req2 s3"
    by (rule aperture_build_step [OF assms(15) second ready more])
  have "map fst (hw_bytes e dir t s1) = take n (host_bytes es)"
    "drop n (host_bytes es) = drop (unat (rq_sg_offset req1)) (host_bytes (drop k es))"
    using st assms(5,6,11) by (simp_all add: aperture_step_def Let_def)
  moreover have "0 < n2" "map fst (hw_bytes e dir t s3) = take n2 (drop (unat (rq_sg_offset req1)) (host_bytes es2))"
    using st2 by (simp_all add: aperture_step_def Let_def)
  ultimately show ?thesis using b2 by (auto simp: es2_def)
qed

subsection \<open>Examples\<close>

text \<open>Four descriptors, a window of one byte and a table of two entries of four bytes.\<close>

definition sample_pair :: drv where
  "sample_pair = upd_sgt 3 (\<lambda>_. \<lparr>sgl = [\<lparr>sg_dma_address = 0x1000, sg_dma_len = 4\<rparr>,
     \<lparr>sg_dma_address = 0x2000, sg_dma_len = 4\<rparr>], nents = 2, orig_nents = 2\<rparr>) sample_drv"

definition sample_aperture :: xdma_request_cb where
  "sample_aperture = zero_request\<lparr>rq_ep_addr := 0x80, rq_aperture := 1, rq_total_len := 8\<rparr>"

text \<open>There the first transfer finishes the first entry.\<close>

definition sample_first :: "(xdma_request_cb \<times> drv) option" where
  "sample_first = aperture_build (sample_env 0) (0, H2C, 0) DMA_TO_DEVICE 2 3 True 7 sample_aperture sample_pair"

lemma sample_first_transfer:
  "case sample_first of None \<Rightarrow> False | Some (req1, s1) \<Rightarrow> rq_sg_idx req1 = 1 \<and> rq_sg_offset req1 = 0"
  by code_simp

lemma sample_aperture_ready:
  "aperture_ready (sample_env 0) DMA_TO_DEVICE sample_aperture (next_entries 2 3 sample_aperture sample_pair)"
  by (simp add: aperture_ready_def sample_aperture_def next_entries_def sample_pair_def zero_request_def
      offset_ok_def sample_env_def mod_word_one)

theorem aperture_restarts_table_witness:
  "\<exists>req1 s1 n2 req2 s3. sample_first = Some (req1, s1) \<and> rq_sg_idx req1 = 1 \<and>
    aperture_build (sample_env 0) (0, H2C, 0) DMA_TO_DEVICE 2 3 True 7 req1 s1 = Some (req2, s3) \<and> 0 < n2 \<and>
    map fst (hw_bytes (0, H2C, 0) DMA_TO_DEVICE 7 s3) = take n2 (span 0x1000 4)"
proof -
  let ?e = "(0, H2C, 0)"
  obtain req1 s1 where f: "sample_first = Some (req1, s1)" "rq_sg_idx req1 = 1" "rq_sg_offset req1 = 0"
    using sample_first_transfer by (auto split: option.splits prod.splits)
  let ?es = "sgl (sgts sample_pair 3)"
  have es: "?es = [\<lparr>sg_dma_address = 0x1000, sg_dma_len = 4\<rparr>, \<lparr>sg_dma_address = 0x2000, sg_dma_len = 4\<rparr>]"
    by (simp add: sample_pair_def)
  have ready: "engine_ready (engs sample_pair ?e)" by (simp add: sample_pair_def)
  have ap: "aperture_ready (sample_env 0) DMA_TO_DEVICE sample_aperture ?es"
    using sample_aperture_ready by (simp add: next_entries_def es sample_aperture_def zero_request_def)
  have hb: "drop (unat (rq_sg_offset sample_aperture)) (host_bytes ?es) \<noteq> []"
    by (simp add: es sample_aperture_def zero_request_def span_def)
  have first: "?es = next_entries 2 3 sample_aperture sample_pair"
    by (simp add: next_entries_def es sample_aperture_def zero_request_def)
  obtain n where "aperture_step ?e DMA_TO_DEVICE 7 ?es sample_aperture sample_pair n req1 s1"
    using aperture_build_step [OF ready first ap hb, of True 7] f(1)
    by (metis sample_first_def option.inject prod.inject)
  then have s1: "engine_ready (engs s1 ?e)" by (simp add: aperture_step_def Let_def)
  have b: "aperture_build (sample_env 0) ?e DMA_TO_DEVICE (length ?es) 3 True 7 sample_aperture sample_pair = Some (req1, s1)"
    using f(1) by (simp add: sample_first_def es flip: numeral_2_eq_2)
  show ?thesis
    using aperture_restarts_table [OF ready refl ap _ _ _ _ _ _ b refl _ _ _ s1 refl, of 0] f es
    by (simp add: sample_aperture_def zero_request_def span_def flip: numeral_2_eq_2) blast
qed

theorem aperture_transfer_moves_witness:
  "\<exists>n req' s'. aperture_build (sample_env 0) (0, H2C, 0) DMA_TO_DEVICE 2 3 True 7 sample_aperture sample_pair
       = Some (req', s') \<and> 0 < n \<and>
     hw_bytes (0, H2C, 0) DMA_TO_DEVICE 7 s' = zip (take n (span 0x1000 4 @ span 0x2000 4)) (window 0x80 1 0 n)"
proof -
  have hb: "span 0x1000 4 @ span 0x2000 4
      = drop (unat (rq_sg_offset sample_aperture)) (host_bytes (next_entries 2 3 sample_aperture sample_pair))"
    by (simp add: next_entries_def sample_pair_def sample_aperture_def zero_request_def)
  have "span 0x1000 4 @ span 0x2000 4 \<noteq> []" by (simp add: span_def)
  moreover have "engine_ready (engs sample_pair (0, H2C, 0))" by (simp add: sample_pair_def)
  ultimately show ?thesis
    using aperture_transfer_moves [OF _ refl sample_aperture_ready hb, of "(0, H2C, 0)" True 7]
    by (auto simp: sample_aperture_def zero_request_def)
qed

lemma sample_aperture_runs:
  "aperture_checks (Some (0, H2C, 0)) (if True then DMA_TO_DEVICE else DMA_FROM_DEVICE) sample_drv = Inr (0, H2C, 0)"
  "open_for (0, H2C, 0) sample_drv" "leaves_table (sample_xenv sample_complete) 3"
  by (simp_all add: aperture_checks_def xdma_device_flag_check_def open_for_def leaves_table_def sample_xenv_def
      sample_complete_def map_balance_def)

theorem aperture_returns_length_witness:
  "\<exists>s'. xdma_xfer_aperture (sample_xenv sample_complete) (Some (0, H2C, 0)) True 0x80 (2 ^ 4) 3 False 7 sample_drv
         = Some (300, s')"
  using aperture_returns_length [OF sample_aperture_runs(1,2), of "sample_xenv sample_complete" 3
      "\<lparr>sg_dma_address = 0x1000, sg_dma_len = 300\<rparr>" 4 "0x80" 7] sample_complete_completing sample_aperture_runs(3)
  by (simp add: sample_xenv_def)

theorem aperture_unmaps_once_witness:
  "\<exists>s'. xdma_xfer_aperture (sample_xenv sample_complete) (Some (0, H2C, 0)) True 0x80 (2 ^ 4) 3 False 7 sample_drv
         = Some (300, s') \<and> map_balance 3 s' = 0"
proof -
  obtain s' where "xdma_xfer_aperture (sample_xenv sample_complete) (Some (0, H2C, 0)) True 0x80 (2 ^ 4) 3 False 7
      sample_drv = Some (300, s')"
    using aperture_completes [OF sample_aperture_runs(1,2), of "sample_xenv sample_complete" 3
      "\<lparr>sg_dma_address = 0x1000, sg_dma_len = 300\<rparr>" 4 "0x80" 7] sample_complete_completing sample_aperture_runs(3)
    by (auto simp: sample_xenv_def)
  moreover have "map_balance 3 sample_drv = 0" by (simp add: map_balance_def)
  ultimately show ?thesis using aperture_unmaps_once sample_aperture_runs(3) by (metis (no_types, lifting))
qed

end
