(* ===== verification/Spec2Isabelle.thy ===== *)
theory Spec2Isabelle
  imports Nupa_Bind Xdma_Aperture
begin

text \<open>
  \<^bold>\<open>The XDMA driver and the NUPA network driver on top of it.\<close>

  The repository holds a Linux PCIe driver for the Xilinx DMA/bridge core
  (src/src/libxdma.c, libxdma.h, xdma_thread.c) and a network driver that connects hosts
  through memory behind that core (src/src/nupanet_main.c), with a character device for
  debugging (src/src/debug.c). The code is read as it is compiled for a 5.15 kernel on x86-64: the branches for kernels before 5.16,
  \<open>__LIBXDMA_DEBUG__\<close> undefined, \<open>USE_WAKE_UP\<close> 0.

  \<^bold>\<open>How the parts work together.\<close> \<open>xdma_device_open\<close> enables the PCI function, maps its BARs,
  finds the engines by reading their identifier registers, gives each engine a ring of
  descriptors in DMA memory and sets up the interrupts. A submission maps a scatter-gather
  table, cuts it into software descriptors, builds a chain of hardware descriptors for as many
  of them as fit, queues the transfer at its engine and starts the engine. The engine reports
  progress by an interrupt (the handler schedules \<open>engine_service\<close>) or, in polled mode, by a
  word in host memory that a completion thread watches; servicing retires the transfers the
  completed-descriptor count covers, wakes their owners and restarts the engine on the rest.
  The network driver keeps one ring of packet descriptors per host in shared memory: the
  sending host takes a slot of the receiver's ring, moves the frame to the slot's buffer by a
  submission, and marks the slot settled; the receiver polls its ring, waits for the slot to
  settle and fetches the frame by a submission of its own. \<open>probe_one\<close> puts the parts
  together when a board is found, \<open>remove_one\<close> takes them down, and the PCI error handlers take
  the DMA device offline and back.

  \<^bold>\<open>State.\<close> The record \<open>drv\<close> (Xdma_State) is the driver's memory: a store of engines
  (\<open>struct xdma_engine\<close>), of transfers, of devices and of scatter-gather tables, the list of
  devices, the pool of completion threads, the log of register accesses \<open>iolog\<close> and the list
  \<open>notices\<close> of everything the driver asks of the kernel, in order: wake-ups, mapping and
  unmapping, and the resources it acquires and releases (\<open>held r s\<close> is acquisitions less
  releases). Pointers to structures are keys of the stores, a pointer into an engine's
  descriptor array is the engine with an index. Integers are words of their C width; fields
  that C declares \<open>int\<close> and that the ring's index arithmetic uses are integers reduced with
  \<open>c_int\<close>. Functions return the C result with the new state; a call that traps, hangs or
  writes outside an array is \<open>None\<close> or a constructor of its own (\<open>Heap_Overrun\<close>, \<open>outcome\<close>).

  \<^bold>\<open>Parameters.\<close> The kernel, the hardware and the module parameters are records that the
  definitions take as an argument, each extending the one before: \<open>kenv\<close> (module parameters,
  the values registers return, as a function of the accesses so far, the current CPU), \<open>xenv\<close>
  (DMA mapping, allocation of requests, what other threads and interrupts do during a wait),
  \<open>wbenv\<close> (what the hardware writes back and when the deadline passes), \<open>tenv\<close> (CPUs and
  kernel threads), \<open>aenv\<close> (coherent memory), \<open>ienv\<close> (interrupt lines, PCI capabilities), \<open>benv\<close>
  (BARs), \<open>denv\<close> (device allocation, PCI enabling), \<open>nenv\<close> (memory and buffers of the network
  stack), \<open>genv\<close> (character devices, copies from and to user space), \<open>penv\<close> (the network core,
  what \<open>netif_napi_del\<close> gives back, the device number). Answers that may change between two calls take the log so far as an argument. What
  a theorem needs of them is among its premises, and said in the text above it: for example
  \<open>kernel_ok\<close> (allocator and interrupt functions behave as documented), \<open>threads_kept\<close> (interrupt
  mode, or another device already open, so that opening starts no completion threads), and
  \<open>napi_del_stops\<close> (deleting a NAPI context stops its thread, as Linux 5.15 does).

  \<^bold>\<open>The theories.\<close>

  \<^item> Xdma_Prelude, Xdma_Regs: word lemmas, the collection \<open>xdma_const\<close>, the constants and
    register structures of libxdma.h with the offsets computed from the field lists.
  \<^item> Xdma_Desc: \<open>xdma_desc_set\<close>, \<open>xdma_desc_control_set\<close>, \<open>xdma_desc_adjacent\<close>,
    \<open>xdma_get_next_adj\<close>, \<open>transfer_desc_init\<close>, \<open>xdma_desc_done\<close>: which fields each changes, how
    a block is linked, and the two bits that a second adjacent count leaves behind.
  \<^item> Xdma_Request: \<open>xdma_request_alloc\<close>, \<open>xdma_init_request\<close>. The locale \<open>chunker\<close> states what
    cutting a range of bytes into pieces must keep; its lemmas give the exactness of requests
    here and of the page lists of the network driver in Nupa_Pages.
  \<^item> Xdma_State: the records, the resource counts and the device flags of libxdma.h.
  \<^item> Xdma_Engine, Xdma_Service: \<open>engine_start\<close>, \<open>xdma_engine_stop\<close>, \<open>engine_status_read\<close>,
    \<open>engine_service\<close> and what it calls; servicing refines the specification \<open>service_spec\<close>, a
    function on the lengths of the queued transfers.
  \<^item> Xdma_Poll: \<open>engine_service_wb_monitor\<close>, \<open>engine_service_poll\<close>; the monitor returns once its
    deadline passes, and a poll refines the same specification.
  \<^item> Xdma_Transfer: \<open>transfer_init\<close>, \<open>transfer_build\<close>, \<open>transfer_queue\<close>, \<open>transfer_abort\<close>,
    \<open>transfer_destroy\<close>. The function \<open>hw_walk\<close> follows a chain the way the hardware does; the
    chain that is built makes it copy exactly the request's bytes and stop.
  \<^item> Xdma_Submit: \<open>xdma_xfer_submit\<close>, \<open>xdma_xfer_submit_nowait\<close>, \<open>xdma_xfer_completion\<close>: the
    result, the balance of the DMA mapping, and the wait that does not wait.
  \<^item> Xdma_Aperture: \<open>xdma_xfer_aperture\<close>, which moves a table through a window of end point
    addresses: where the bytes of one transfer go, the result and that it returns, the balance
    of the mapping, and what happens to a table that needs more than one transfer.
  \<^item> Xdma_Thread: xdma_thread.c; the pool's invariant through every sequence of assignments.
  \<^item> Xdma_EngineInit: \<open>engine_init\<close>, \<open>engine_alloc_resource\<close>, \<open>engine_init_regs\<close>,
    \<open>engine_destroy\<close> and the functions between; readiness and the balance of coherent memory.
  \<^item> Xdma_Irq, Xdma_Irq_Lines: interrupt handlers, MSI-X, MSI and legacy setup; dispatch of
    exactly the reported bits, the vector registers, the balance of interrupt lines.
  \<^item> Xdma_Bars: \<open>map_bars\<close> and \<open>unmap_bars\<close>.
  \<^item> Xdma_Device: probing engines, opening, closing, \<open>xdma_device_offline\<close>,
    \<open>xdma_device_online\<close>, user interrupts. Xdma_Owner states in the locale \<open>owners\<close> what undoing
    a list of acquisitions gives, interpreted for the engines of a device and for the stages of
    its opening. Xdma_Open follows the resources through probing and opening. Xdma_Lifecycle
    puts them together: closing returns what opening took, every reported channel can be
    used, and what happens to a device that is closed after it went offline. Xdma_Recovery
    brings a device back online and shows that its channels and its accounts are restored.
  \<^item> Nupa_Ring, Nupa_Ring_Inv: the ring's operations as functions, and as atomic accesses to
    the shared memory (\<open>ring_act\<close>) by a sender and a receiver on different hosts; \<open>ring_reach\<close>
    is closed under every interleaving. The steps follow the code: \<open>fetch_act\<close> and \<open>avail_act\<close> are
    the accesses of \<open>fetch_packet_desc\<close> and \<open>nupa_data_available\<close>, \<open>send_act\<close> and \<open>receive_act\<close> the
    DMA of \<open>xdma_send_data\<close> and \<open>xdma_receive_data\<close>, \<open>settle_act\<close> and \<open>release_act\<close> what their
    callers do next. As the callers do not look at the results, every DMA may fail and leave
    any bytes, an aborted send may still write later (\<open>stray_act\<close>), and the receiver may drop a
    frame for want of memory. Frames leave the ring in the order they entered it, none skipped
    or doubled, and unharmed unless a DMA that concerns them failed; the receiver can always
    take out what was published.
  \<^item> Nupa_Net, Nupa_Pages, Nupa_Frames: \<open>nupanet_xmit_frame\<close>, \<open>nupanet_poll\<close>, \<open>xdma_transfer_data\<close>
    and the address functions; the functions are runs of the ring's steps. The bytes the driver
    writes to a buffer are in the notices; what a buffer holds after a transfer is a parameter.
  \<^item> Nupa_Debug: debug.c; the state \<open>dbg\<close> is the network driver's with the \<open>struct debug_cdev\<close> and
    a log of what was obtained and given back (\<open>dheld\<close>). Memory of reads and writes, bounds,
    creation and deletion, the hold control.
  \<^item> Nupa_Probe: \<open>probe_one\<close>, \<open>remove_one\<close>, \<open>adapter_alloc\<close>, \<open>adapter_free\<close> and the PCI error
    handlers on the state \<open>card\<close>, which holds all the others. Nupa_Bind: how a probe can end, what a
    successful one establishes, that removal gives back what probe took, recovery from an
    error; and that a probe succeeds when nothing is refused.

  \<^bold>\<open>Loops, fuel and partiality.\<close> Loops over arrays and lists are structural recursions. The loop
  of \<open>xdma_xfer_submit\<close> takes as fuel one more than the number of software descriptors, and
  every round uses up at least one of them, so that the theorem on its result is one of
  returning. The writeback monitor and the loop over the transfers of an aperture request are
  partial functions; \<open>monitor_returns\<close> and \<open>aperture_returns_length\<close> prove that they return, the
  first once the deadline has passed, the second for a table of one entry.
  The service loop, the splitting of an entry and the poll loop have measures.

  \<^bold>\<open>Not modelled.\<close> \<open>engine_status_dump\<close> and the other log output; the network device operations
  that only log and return 0, the empty work items, the loop of the poll thread (which only
  asks the kernel to poll) and the registration of the PCI driver; code between \<open>#if 0\<close> and
  \<open>#endif\<close>; the branches for other kernels; libxdma_api.h, which holds prototypes; the user-space
  programs under src/test.
  Locks are not modelled where one thread runs at a time; where several do, the parameter
  \<open>meanwhile\<close> or the interleaving of the ring says what the others do.
\<close>

end
